(* ===== verification/Prelude.thy ===== *)
theory Prelude
  imports Main "HOL-Library.Multiset" "HOL-Library.Char_ord" "HOL-Library.List_Lexorder" "HOL-Library.Product_Lexorder"
begin

text \<open>
  The shared vocabulary of the development: the part of Go's \<^verbatim>\<open>strings\<close>, \<^verbatim>\<open>sort\<close> and
  \<^verbatim>\<open>strconv\<close> packages that the modelled sources use, and the two SQL statements
  (\<^verbatim>\<open>UPDATE ... WHERE\<close>, \<^verbatim>\<open>INSERT\<close>) through which the Center changes its tables.

  A Go string is a \<open>string\<close> (a list of bytes), so \<open>length\<close> is Go's \<open>len\<close> and \<open><\<close> is Go's
  byte-wise order (\<open>List_Lexorder\<close> over \<open>Char_ord\<close>). A table is the list of its rows in rowid
  order. Facts about tables and sorting that several components use are collected in
  \<open>sql_simps\<close> and \<open>sort_simps\<close>.
\<close>

named_theorems sql_simps
named_theorems sort_simps
named_theorems go_defs

section \<open>Strings\<close>

fun has_prefix :: "string \<Rightarrow> string \<Rightarrow> bool" where
  "has_prefix s [] = True"
| "has_prefix [] (p # ps) = False"
| "has_prefix (c # cs) (p # ps) = (c = p \<and> has_prefix cs ps)"

definition has_suffix :: "string \<Rightarrow> string \<Rightarrow> bool" where
  "has_suffix s t = has_prefix (rev s) (rev t)"

definition trim_prefix :: "string \<Rightarrow> string \<Rightarrow> string" where
  "trim_prefix s p = (if has_prefix s p then drop (length p) s else s)"

definition contains_any :: "string \<Rightarrow> string \<Rightarrow> bool" where
  "contains_any s cs = list_ex (\<lambda>c. c \<in> set cs) s"

fun contains_str :: "string \<Rightarrow> string \<Rightarrow> bool" where
  "contains_str [] t = (t = [])"
| "contains_str (c # cs) t = (has_prefix (c # cs) t \<or> contains_str cs t)"

lemma has_prefix_iff: "has_prefix s p \<longleftrightarrow> (\<exists>r. s = p @ r)"
  by (induction s p rule: has_prefix.induct) auto

lemma has_prefix_append [simp]: "has_prefix (p @ r) p"
  by (simp add: has_prefix_iff)

lemma has_prefix_drop: "has_prefix s p \<Longrightarrow> s = p @ drop (length p) s"
  by (auto simp: has_prefix_iff)

text \<open>
  The byte sequences of Go's white space runes (\<^verbatim>\<open>unicode.IsSpace\<close>): the ASCII ones, U+0085,
  U+00A0 and the UTF-8 encodings of the space separators.
\<close>

definition space_runes :: "string list" where
  "space_runes =
     [[CHR 0x09], [CHR 0x0A], [CHR 0x0B], [CHR 0x0C], [CHR 0x0D], [CHR 0x20],
      [CHR 0xC2, CHR 0x85], [CHR 0xC2, CHR 0xA0], [CHR 0xE1, CHR 0x9A, CHR 0x80],
      [CHR 0xE2, CHR 0x80, CHR 0x80], [CHR 0xE2, CHR 0x80, CHR 0x81], [CHR 0xE2, CHR 0x80, CHR 0x82],
      [CHR 0xE2, CHR 0x80, CHR 0x83], [CHR 0xE2, CHR 0x80, CHR 0x84], [CHR 0xE2, CHR 0x80, CHR 0x85],
      [CHR 0xE2, CHR 0x80, CHR 0x86], [CHR 0xE2, CHR 0x80, CHR 0x87], [CHR 0xE2, CHR 0x80, CHR 0x88],
      [CHR 0xE2, CHR 0x80, CHR 0x89], [CHR 0xE2, CHR 0x80, CHR 0x8A], [CHR 0xE2, CHR 0x80, CHR 0xA8],
      [CHR 0xE2, CHR 0x80, CHR 0xA9], [CHR 0xE2, CHR 0x80, CHR 0xAF], [CHR 0xE2, CHR 0x81, CHR 0x9F],
      [CHR 0xE3, CHR 0x80, CHR 0x80]]"

fun strip_runes :: "string list \<Rightarrow> nat \<Rightarrow> string \<Rightarrow> string" where
  "strip_runes rs 0 s = s"
| "strip_runes rs (Suc n) s =
     (case find (\<lambda>r. has_prefix s r) rs of
        None \<Rightarrow> s
      | Some r \<Rightarrow> strip_runes rs n (drop (length r) s))"

text \<open>\<^verbatim>\<open>strings.TrimSpace\<close>: every step removes at least one byte, so \<open>length s\<close> steps are enough.\<close>

definition trim_left :: "string \<Rightarrow> string" where
  "trim_left s = strip_runes space_runes (length s) s"

definition trim_right :: "string \<Rightarrow> string" where
  "trim_right s = rev (strip_runes (map rev space_runes) (length s) (rev s))"

definition trim_space :: "string \<Rightarrow> string" where
  "trim_space s = trim_right (trim_left s)"

text \<open>\<^verbatim>\<open>strings.ToLower\<close> on the ASCII letters; other bytes are left as they are.\<close>

definition lower_char :: "char \<Rightarrow> char" where
  "lower_char c = (if CHR ''A'' \<le> c \<and> c \<le> CHR ''Z'' then char_of ((of_char c :: nat) + 32) else c)"

definition to_lower :: "string \<Rightarrow> string" where
  "to_lower s = map lower_char s"

definition is_digit :: "char \<Rightarrow> bool" where
  "is_digit c = (CHR ''0'' \<le> c \<and> c \<le> CHR ''9'')"

definition is_lower_alpha :: "char \<Rightarrow> bool" where
  "is_lower_alpha c = (CHR ''a'' \<le> c \<and> c \<le> CHR ''z'')"

definition is_upper_alpha :: "char \<Rightarrow> bool" where
  "is_upper_alpha c = (CHR ''A'' \<le> c \<and> c \<le> CHR ''Z'')"

section \<open>Decimal numbers\<close>

definition digit_char :: "nat \<Rightarrow> char" where
  "digit_char d = char_of (48 + d)"

definition digit_val :: "char \<Rightarrow> nat" where
  "digit_val c = of_char c - 48"

fun nat_str :: "nat \<Rightarrow> string" where
  "nat_str n = (if n < 10 then [digit_char n] else nat_str (n div 10) @ [digit_char (n mod 10)])"

declare nat_str.simps [simp del]

definition digits_val :: "string \<Rightarrow> nat" where
  "digits_val s = foldl (\<lambda>a c. 10 * a + digit_val c) 0 s"

lemma of_char_digit_char: "d < 10 \<Longrightarrow> (of_char (digit_char d) :: nat) = 48 + d"
  by (simp add: digit_char_def)

lemma digit_val_char [simp]: "d < 10 \<Longrightarrow> digit_val (digit_char d) = d"
  by (simp add: digit_val_def of_char_digit_char)

lemma is_digit_alt: "is_digit c \<longleftrightarrow> 48 \<le> (of_char c :: nat) \<and> (of_char c :: nat) \<le> 57"
  by (simp add: is_digit_def less_eq_char_def)

lemma is_digit_char [simp]: "d < 10 \<Longrightarrow> is_digit (digit_char d)"
  by (simp add: is_digit_alt of_char_digit_char)

lemma digits_val_snoc [simp]: "digits_val (s @ [c]) = 10 * digits_val s + digit_val c"
  by (simp add: digits_val_def)

lemma digits_val_Nil [simp]: "digits_val [] = 0"
  by (simp add: digits_val_def)

lemma nat_str_digits: "list_all is_digit (nat_str n)"
proof (induction n rule: nat_str.induct)
  case (1 n)
  then show ?case
    by (cases "n < 10") (simp_all add: nat_str.simps [of n])
qed

lemma nat_str_not_Nil [simp]: "nat_str n \<noteq> []"
  by (subst nat_str.simps) simp

lemma digits_val_nat_str [simp]: "digits_val (nat_str n) = n"
proof (induction n rule: nat_str.induct)
  case (1 n)
  show ?case
  proof (cases "n < 10")
    case True
    then show ?thesis by (simp add: nat_str.simps [of n] digits_val_def)
  next
    case False
    with 1 show ?thesis by (simp add: nat_str.simps [of n])
  qed
qed

lemma nat_str_inj [simp]: "nat_str m = nat_str n \<longleftrightarrow> m = n"
  by (metis digits_val_nat_str)

text \<open>\<^verbatim>\<open>strconv.ParseInt(s, 10, 64)\<close>: an optional sign and at least one digit, in range.\<close>

definition parse_int64 :: "string \<Rightarrow> int option" where
  "parse_int64 s =
     (let neg = (s \<noteq> [] \<and> hd s = CHR ''-'');
          ds = (if s \<noteq> [] \<and> (hd s = CHR ''-'' \<or> hd s = CHR ''+'') then tl s else s);
          v = int (digits_val ds)
      in if ds = [] \<or> \<not> list_all is_digit ds then None
         else if neg then (if v \<le> 2 ^ 63 then Some (- v) else None)
         else (if v < 2 ^ 63 then Some v else None))"

text \<open>\<^verbatim>\<open>fmt.Sprintf("%d")\<close> of an integer.\<close>

definition int_str :: "int \<Rightarrow> string" where
  "int_str i = (if i < 0 then CHR ''-'' # nat_str (nat (- i)) else nat_str (nat i))"

lemma nat_str_no_sign: "c \<in> set (nat_str n) \<Longrightarrow> is_digit c"
  using nat_str_digits [of n] by (simp add: list_all_iff)

lemma sign_not_digit [simp]: "\<not> is_digit (CHR ''-'')" "\<not> is_digit (CHR ''+'')" "\<not> is_digit (CHR '':'')"
  by (simp_all add: is_digit_alt)

lemma parse_int64_int_str:
  assumes "- (2 ^ 63) \<le> i" "i < 2 ^ 63"
  shows "parse_int64 (int_str i) = Some i"
proof (cases "i < 0")
  case True
  then show ?thesis
    using assms nat_str_digits [of "nat (- i)"]
    by (simp add: parse_int64_def int_str_def Let_def)
next
  case False
  have "hd (nat_str (nat i)) \<noteq> CHR ''-'' \<and> hd (nat_str (nat i)) \<noteq> CHR ''+''"
    using nat_str_no_sign [of "hd (nat_str (nat i))" "nat i"] hd_in_set [of "nat_str (nat i)"]
    by (metis nat_str_not_Nil sign_not_digit(1,2))
  then show ?thesis
    using False assms nat_str_digits [of "nat i"]
    by (simp add: parse_int64_def int_str_def Let_def)
qed

text \<open>\<^verbatim>\<open>strings.LastIndex\<close>, with \<open>None\<close> for -1.\<close>

fun last_index :: "string \<Rightarrow> string \<Rightarrow> nat option" where
  "last_index [] t = (if t = [] then Some 0 else None)"
| "last_index (c # cs) t =
     (case last_index cs t of
        Some i \<Rightarrow> Some (Suc i)
      | None \<Rightarrow> if has_prefix (c # cs) t then Some 0 else None)"

lemma last_index_none: "c \<notin> set s \<Longrightarrow> last_index s (c # t) = None"
  by (induction s) (auto simp: has_prefix_iff)

lemma last_index_last:
  assumes "c \<noteq> d" "c \<notin> set s"
  shows "last_index (p @ c # d # s) [c, d] = Some (length p)"
proof (induction p)
  case Nil
  then show ?case using assms last_index_none [of c "d # s" "[d]"] by simp
next
  case (Cons x p)
  then show ?case by simp
qed

section \<open>Tables\<close>

text \<open>
  \<^verbatim>\<open>UPDATE t SET f WHERE P\<close> replaces every row that satisfies the condition; the number of such
  rows is what \<^verbatim>\<open>Result.RowsAffected\<close> returns.
\<close>

definition sql_update :: "('r \<Rightarrow> bool) \<Rightarrow> ('r \<Rightarrow> 'r) \<Rightarrow> 'r list \<Rightarrow> 'r list" where
  "sql_update P f rs = map (\<lambda>r. if P r then f r else r) rs"

definition rows_affected :: "('r \<Rightarrow> bool) \<Rightarrow> 'r list \<Rightarrow> nat" where
  "rows_affected P rs = length (filter P rs)"

definition sql_exists :: "('r \<Rightarrow> bool) \<Rightarrow> 'r list \<Rightarrow> bool" where
  "sql_exists P rs = list_ex P rs"

lemma length_sql_update [sql_simps]: "length (sql_update P f rs) = length rs"
  by (simp add: sql_update_def)

lemma sql_update_Nil [sql_simps]: "sql_update P f [] = []"
  by (simp add: sql_update_def)

lemma nth_sql_update [sql_simps]:
  "i < length rs \<Longrightarrow> sql_update P f rs ! i = (if P (rs ! i) then f (rs ! i) else rs ! i)"
  by (simp add: sql_update_def)

lemma set_sql_update: "set (sql_update P f rs) = (\<lambda>r. if P r then f r else r) ` set rs"
  by (simp add: sql_update_def)

lemma map_sql_update [sql_simps]: "(\<And>r. P r \<Longrightarrow> g (f r) = g r) \<Longrightarrow> map g (sql_update P f rs) = map g rs"
  by (simp add: sql_update_def)

lemma sql_update_none [sql_simps]: "rows_affected P rs = 0 \<Longrightarrow> sql_update P f rs = rs"
  by (induction rs) (auto simp: sql_update_def rows_affected_def split: if_splits)

lemma rows_affected_pos_iff: "0 < rows_affected P rs \<longleftrightarrow> (\<exists>r \<in> set rs. P r)"
  by (induction rs) (auto simp: rows_affected_def)

lemma sql_exists_iff [sql_simps]: "sql_exists P rs \<longleftrightarrow> (\<exists>r \<in> set rs. P r)"
  by (simp add: sql_exists_def list_ex_iff)

text \<open>A condition that fixes the value of a key column of a table selects at most one row.\<close>

lemma rows_affected_key_le_one:
  assumes "distinct (map k rs)" and "\<And>r. P r \<Longrightarrow> k r = v"
  shows "rows_affected P rs \<le> 1"
  using assms(1)
proof (induction rs)
  case Nil
  then show ?case by (simp add: rows_affected_def)
next
  case (Cons r rs)
  show ?case
  proof (cases "P r")
    case True
    then have "\<forall>x \<in> set rs. \<not> P x"
      using Cons.prems assms(2) by (auto simp: image_iff)
    then have "filter P rs = []" by (simp add: filter_empty_conv)
    with True show ?thesis by (simp add: rows_affected_def)
  next
    case False
    with Cons show ?thesis by (simp add: rows_affected_def)
  qed
qed

section \<open>Sorting\<close>

text \<open>
  \<^verbatim>\<open>sort.Slice\<close> and \<^verbatim>\<open>slices.SortFunc\<close> do not promise stability; on a list whose elements have
  different keys every sorted permutation is the one \<open>sort_key\<close> returns.
\<close>

lemma sort_key_unique [sort_simps]:
  assumes "distinct (map f xs)" and "mset ys = mset xs" and "sorted (map f ys)"
  shows "sort_key f xs = ys"
  using assms by (intro sort_key_inj_key_eq) (simp_all add: distinct_map)

section \<open>Chains of guards\<close>

lemma guard_None: "(if c then Some e else r) = None \<longleftrightarrow> \<not> c \<and> r = None"
  by simp

lemma then_None: "(case x of Some err \<Rightarrow> Some err | None \<Rightarrow> r) = None \<longleftrightarrow> x = None \<and> r = None"
  by (cases x) simp_all

end
