(* ===== verification/Stamps.thy ===== *)
theory Stamps
  imports Prelude
begin

text \<open>
  Timestamps. The Center stores every instant as the text
  \<^verbatim>\<open>t.UTC().Format(time.RFC3339Nano)\<close> and compares instants in SQL by comparing that text
  (\<^verbatim>\<open>expires_at>?\<close> and the like, src/internal/center/execution.go). The text is
  \<^verbatim>\<open>2006-01-02T15:04:05\<close>, which for the years 0 to 9999 has a fixed width and is ordered as the
  seconds are, followed by the fraction of the second with its trailing zeros removed and
  \<^verbatim>\<open>Z\<close>. The model keeps the fixed-width part as the number of seconds and the rest as the text
  it is, so that the order of stamps is the order SQLite uses; the empty text, which the
  columns use for no instant, is \<open>NoStamp\<close>.
\<close>

type_synonym gotime = int \<comment> \<open>nanoseconds since the Unix epoch\<close>

definition second :: gotime where
  "second = 1000000000"

datatype stamp = NoStamp | Stamp int string

instantiation stamp :: linorder
begin

definition less_eq_stamp :: "stamp \<Rightarrow> stamp \<Rightarrow> bool" where
  "less_eq_stamp a b =
     (case a of
        NoStamp \<Rightarrow> True
      | Stamp s f \<Rightarrow> (case b of NoStamp \<Rightarrow> False | Stamp s' f' \<Rightarrow> s < s' \<or> s = s' \<and> f \<le> f'))"

definition less_stamp :: "stamp \<Rightarrow> stamp \<Rightarrow> bool" where
  "less_stamp a b = (a \<le> b \<and> \<not> b \<le> (a::stamp))"

instance
  by standard (auto simp: less_eq_stamp_def less_stamp_def split: stamp.splits)

end

lemma stamp_le_simps [simp]:
  "NoStamp \<le> a"
  "(Stamp s f \<le> NoStamp) = False"
  "(Stamp s f \<le> Stamp s' f') = (s < s' \<or> s = s' \<and> f \<le> f')"
  by (simp_all add: less_eq_stamp_def split: stamp.split)

lemma stamp_less_simps [simp]:
  "(NoStamp < Stamp s f) = True"
  "(a < NoStamp) = False"
  "(Stamp s f < Stamp s' f') = (s < s' \<or> s = s' \<and> f < f')"
  by (cases a; auto simp: less_le)+

fun fixed_digits :: "nat \<Rightarrow> nat \<Rightarrow> string" where
  "fixed_digits 0 n = []"
| "fixed_digits (Suc k) n = fixed_digits k (n div 10) @ [digit_char (n mod 10)]"

definition trim_zeros :: "string \<Rightarrow> string" where
  "trim_zeros s = rev (dropWhile (\<lambda>c. c = CHR ''0'') (rev s))"

text \<open>The fraction of \<open>n\<close> nanoseconds as the layout \<^verbatim>\<open>.999999999Z07:00\<close> prints it for UTC.\<close>

definition frac_str :: "nat \<Rightarrow> string" where
  "frac_str n = (if n = 0 then ''Z'' else ''.'' @ trim_zeros (fixed_digits 9 n) @ ''Z'')"

definition stamp_of :: "gotime \<Rightarrow> stamp" where
  "stamp_of t = Stamp (t div second) (frac_str (nat (t mod second)))"

text \<open>\<^verbatim>\<open>time.Parse(time.RFC3339Nano, s)\<close> on stored stamps: the missing digits are zeros.\<close>

definition frac_val :: "string \<Rightarrow> nat" where
  "frac_val f =
     (if f = ''Z'' then 0
      else let ds = butlast (tl f) in digits_val (ds @ replicate (9 - length ds) (CHR ''0'')))"

fun parse_stamp :: "stamp \<Rightarrow> gotime option" where
  "parse_stamp NoStamp = None"
| "parse_stamp (Stamp s f) = Some (s * second + int (frac_val f))"

section \<open>Formatting and parsing\<close>

lemma length_fixed_digits [simp]: "length (fixed_digits k n) = k"
  by (induction k arbitrary: n) auto

lemma digits_val_fixed_digits: "n < 10 ^ k \<Longrightarrow> digits_val (fixed_digits k n) = n"
  by (induction k arbitrary: n) (auto simp: less_mult_imp_div_less mult.commute)

lemma trim_zeros_replicate:
  "trim_zeros s @ replicate (length s - length (trim_zeros s)) (CHR ''0'') = s"
proof (induction s rule: rev_induct)
  case Nil
  then show ?case by (simp add: trim_zeros_def)
next
  case (snoc c s)
  have le: "length (trim_zeros s) \<le> length s"
    using length_dropWhile_le [of _ "rev s"] by (simp add: trim_zeros_def)
  show ?case
  proof (cases "c = CHR ''0''")
    case True
    then have t: "trim_zeros (s @ [c]) = trim_zeros s" by (simp add: trim_zeros_def)
    have "trim_zeros s @ replicate (Suc (length s) - length (trim_zeros s)) c
        = (trim_zeros s @ replicate (length s - length (trim_zeros s)) c) @ [c]"
      using le by (simp add: Suc_diff_le replicate_append_same)
    with True t snoc.IH show ?thesis by simp
  next
    case False
    then show ?thesis by (simp add: trim_zeros_def)
  qed
qed

lemma length_trim_zeros_le: "length (trim_zeros s) \<le> length s"
  using length_dropWhile_le [of _ "rev s"] by (simp add: trim_zeros_def)

lemma frac_val_frac_str: "n < 1000000000 \<Longrightarrow> frac_val (frac_str n) = n"
proof (cases "n = 0")
  case True
  then show ?thesis by (simp add: frac_val_def frac_str_def)
next
  case False
  assume n: "n < 1000000000"
  let ?d = "trim_zeros (fixed_digits 9 n)"
  have f: "frac_str n = CHR ''.'' # ?d @ ''Z''" using False by (simp add: frac_str_def)
  have "?d @ replicate (9 - length ?d) (CHR ''0'') = fixed_digits 9 n"
    using trim_zeros_replicate [of "fixed_digits 9 n"] by (simp only: length_fixed_digits)
  moreover have "digits_val (fixed_digits 9 n) = n"
    using n by (simp add: digits_val_fixed_digits del: fixed_digits.simps)
  ultimately show ?thesis
    by (simp add: frac_val_def f Let_def butlast_append)
qed

lemma second_pos [simp]: "0 < second"
  by (simp add: second_def)

lemma parse_stamp_of [simp]: "parse_stamp (stamp_of t) = Some t"
proof -
  have "nat (t mod second) < 1000000000" by (simp add: second_def nat_less_iff)
  then have "int (frac_val (frac_str (nat (t mod second)))) = t mod second"
    by (simp only: frac_val_frac_str) (simp add: second_def)
  then show ?thesis by (simp add: stamp_of_def)
qed

lemma stamp_of_inject [simp]: "stamp_of s = stamp_of t \<longleftrightarrow> s = t"
  by (metis parse_stamp_of option.inject)

lemma stamp_of_not_NoStamp [simp]: "stamp_of t \<noteq> NoStamp" "NoStamp \<noteq> stamp_of t"
  by (simp_all add: stamp_of_def)

lemma NoStamp_less_stamp_of [simp]: "NoStamp < stamp_of t"
  by (simp add: stamp_of_def)

section \<open>The order of stamps and the order of instants\<close>

lemma stamp_of_less_seconds: "s div second < t div second \<Longrightarrow> stamp_of s < stamp_of t"
  by (simp add: stamp_of_def)

lemma stamp_of_less_imp_seconds: "stamp_of s < stamp_of t \<Longrightarrow> s div second \<le> t div second"
  by (auto simp: stamp_of_def)

lemma stamp_of_le_imp_seconds: "stamp_of s \<le> stamp_of t \<Longrightarrow> s div second \<le> t div second"
  by (auto simp: stamp_of_def)

lemma stamp_of_less_bound: "stamp_of s < stamp_of t \<Longrightarrow> s < t + second"
proof -
  assume "stamp_of s < stamp_of t"
  then have "s div second \<le> t div second" by (rule stamp_of_less_imp_seconds)
  then show ?thesis unfolding second_def by linarith
qed

lemma stamp_of_less_later: "s + second \<le> t \<Longrightarrow> stamp_of s < stamp_of t"
proof -
  assume "s + second \<le> t"
  then have "(s + second) div second \<le> t div second"
    by (rule zdiv_mono1) simp
  then have "s div second < t div second" by (simp add: second_def)
  then show ?thesis by (rule stamp_of_less_seconds)
qed

end
