(* ===== verification/Execution_Model.thy ===== *)
theory Execution_Model
  imports Stamps
begin

text \<open>
  The Center's record of task executions: the tables of src/internal/center/execution.go
  (\<^verbatim>\<open>executionSchemaSQL\<close>) with their constraints and audit triggers, the rows of the business task
  tables that the execution code reads and writes, and the environment of one call (the clock,
  the random source, sealed storage and JSON).

  The locale \<open>execution_writer\<close> states what every \<^verbatim>\<open>UPDATE task_executions\<close> statement of the Center
  promises: it touches only undisposed rows that have not succeeded, keeps the identity of a row
  and the evidence it holds, and moves its state forward. The theories of the writers interpret
  it for each statement; what follows from the contract is proved here once.
\<close>

section \<open>Tables\<close>

datatype exec_state = Offered | Running | HelperRunning | Succeeded | Failed | Unknown

record execution =
  ex_id :: string
  ex_agent_id :: string
  ex_task_id :: string
  ex_kind :: string
  ex_attempt :: int
  ex_session_id :: string
  ex_digest :: string
  ex_sealed_task :: string
  ex_sealed_result :: string
  ex_state :: exec_state
  ex_phase :: string
  ex_last_error :: string
  ex_expires_at :: stamp
  ex_created_at :: stamp
  ex_updated_at :: stamp
  ex_disposition :: string
  ex_disposition_note :: string
  ex_disposition_actor :: string
  ex_disposed_at :: stamp
  ex_identity_retired_at :: stamp

record execution_event =
  ev_execution_id :: string
  ev_phase :: string
  ev_state :: exec_state
  ev_actor :: string
  ev_created_at :: stamp

text \<open>
  The business task tables have a common shape: a row is found by its task id and Agent, or by
  its Agent and desired revision, and carries the attempt, the state and the lease. One table of
  the model holds the rows of all of them; \<open>tr_table\<close> says which SQL table a row belongs to.
\<close>

datatype task_table =
    Deployments | ApplicationCommands | ApplicationAdoptions | ApplicationMaintenance
  | AgentUpdates | AgentDecommissions | TailscaleUpdateTasks | NodeSiteTasks | OSReinstallTasks
  | NodeSecurityTasks | IPQualityChecks | NodeDiagnosticChecks | XrayConfigurationRecoveries
  | LandingProxyStates | LandingServerStates | GatewayStates | GatewayComponents
  | NodeListenerStates | CloudflareTunnels

record task_row =
  tr_table :: task_table
  tr_rowid :: nat                    \<comment> \<open>\<^verbatim>\<open>rowid\<close>: insertion order within its table\<close>
  tr_id :: string                    \<comment> \<open>\<^verbatim>\<open>id\<close>, empty where the row is found by its revision\<close>
  tr_kind :: string                  \<comment> \<open>\<^verbatim>\<open>kind\<close> of a command or diagnostic, \<^verbatim>\<open>action\<close> of a recovery\<close>
  tr_agent :: string                 \<comment> \<open>\<^verbatim>\<open>agent_id\<close>, \<^verbatim>\<open>node_id\<close> or \<^verbatim>\<open>gateway_node_id\<close>\<close>
  tr_application :: string           \<comment> \<open>\<^verbatim>\<open>application_id\<close>\<close>
  tr_deployment :: string            \<comment> \<open>\<^verbatim>\<open>deployment_id\<close> of a maintenance task\<close>
  tr_action :: string                \<comment> \<open>\<^verbatim>\<open>action\<close> of a maintenance task\<close>
  tr_endpoint :: string              \<comment> \<open>\<^verbatim>\<open>json_extract(input_json,'$.endpointId')\<close> of a command\<close>
  tr_gateway_node :: string          \<comment> \<open>\<^verbatim>\<open>gateway_node_id\<close> of a command\<close>
  tr_revision :: int                 \<comment> \<open>\<^verbatim>\<open>desired_revision\<close>, \<^verbatim>\<open>generation\<close> or \<^verbatim>\<open>revision\<close>\<close>
  tr_applied_revision :: int
  tr_attempt :: int
  tr_state :: string                 \<comment> \<open>\<^verbatim>\<open>state\<close> or \<^verbatim>\<open>status\<close>\<close>
  tr_lease_expires_at :: stamp
  tr_error :: string                 \<comment> \<open>\<^verbatim>\<open>error\<close> or \<^verbatim>\<open>last_error\<close>\<close>
  tr_target_version :: string
  tr_token_hash :: string            \<comment> \<open>\<^verbatim>\<open>callback_token_hash\<close>\<close>
  tr_backup :: string                \<comment> \<open>\<^verbatim>\<open>encrypted_backup\<close>\<close>
  tr_network :: string               \<comment> \<open>\<^verbatim>\<open>sealed_network\<close>\<close>
  tr_digest :: string                \<comment> \<open>\<^verbatim>\<open>backup_digest\<close>\<close>
  tr_prepared_digest :: string       \<comment> \<open>\<^verbatim>\<open>prepared_digest\<close>\<close>
  tr_reconciliation_required :: bool
  tr_reconciliation_requested :: bool
  tr_updated_at :: stamp

record agent_row =
  ag_id :: string
  ag_version :: string
  ag_last_seen_at :: stamp
  ag_remote_update_supported :: bool
  ag_status :: string
  ag_credential_hash :: string
  ag_credential_revoked_at :: stamp

text \<open>\<^verbatim>\<open>settings.execution_claim_control\<close>: what the JSON readers of the row can tell of it.\<close>

record claim_control =
  cc_json_valid :: bool              \<comment> \<open>the value is a JSON document\<close>
  cc_paused :: "bool option"         \<comment> \<open>\<^verbatim>\<open>$.paused\<close> when it is the literal true or false\<close>
  cc_decodes :: bool                 \<comment> \<open>the value decodes into \<^verbatim>\<open>ExecutionClaimControl\<close>\<close>
  cc_actor :: string
  cc_updated_at :: stamp

record application_row =
  ap_id :: string
  ap_status :: string
  ap_updated_at :: stamp

record node_site_row =
  ns_application_id :: string
  ns_revision :: int
  ns_state :: string
  ns_error :: string
  ns_updated_at :: stamp

text \<open>
  Tables that mirror the state of a task for the user interface. The rows of one table are found
  by \<open>mr_key\<close> (a worker application, an application, a gateway node, a command or an endpoint).
\<close>

datatype mirror_table =
    ThreeXUINodes | ApplicationResources | Routes | MeridianDeployments | MeridianEndpoints
  | MeridianRouteGrants

record mirror_row =
  mr_table :: mirror_table
  mr_key :: string
  mr_status :: string                \<comment> \<open>\<^verbatim>\<open>status\<close> or \<^verbatim>\<open>adoption_state\<close>\<close>
  mr_desired_revision :: int
  mr_applied_revision :: int
  mr_runtime_healthy :: bool
  mr_last_error :: string
  mr_updated_at :: stamp

record cutover =                     \<comment> \<open>\<^verbatim>\<open>meridian_cutover\<close>, the row with id 1\<close>
  cu_state :: string
  cu_authority :: string
  cu_last_error :: string
  cu_updated_at :: stamp

record task_event =                  \<comment> \<open>\<^verbatim>\<open>task_events\<close>, without its random id\<close>
  te_task_id :: string
  te_agent_id :: string
  te_kind :: string
  te_revision :: int
  te_event :: string
  te_message :: string
  te_created_at :: stamp

record center =
  sessions :: "(string \<times> string \<times> stamp) list"        \<comment> \<open>\<^verbatim>\<open>agent_execution_sessions\<close>\<close>
  session_history :: "(string \<times> string \<times> stamp) list" \<comment> \<open>\<^verbatim>\<open>agent_execution_session_history\<close>\<close>
  executions :: "execution list"
  execution_events :: "execution_event list"
  claim_setting :: "claim_control option"
  claim_events :: "(bool \<times> string \<times> stamp) list"
  tasks :: "task_row list"
  applications :: "application_row list"
  node_sites :: "node_site_row list"
  task_events :: "task_event list"
  mirrors :: "mirror_row list"
  meridian_cutover :: "cutover option"
  agents :: "agent_row list"
  admins :: "string list"

datatype center_error =
    ExecutionBlocked | ExecutionAuthorization | StaleTaskLease | RetainedNotRecoverable
  | CenterError string

section \<open>Tasks, evidence and the environment of a call\<close>

text \<open>
  \<^verbatim>\<open>AgentTask\<close>: the fields the execution code looks at. An optional command payload it only
  compares or passes on is kept as its JSON text.
\<close>

record agent_task =
  at_kind :: string
  at_id :: string
  at_attempt :: int
  at_revision :: int
  at_application_id :: string
  at_reconcile :: bool
  at_maintenance_action :: "string option"  \<comment> \<open>\<^verbatim>\<open>PackageMaintenance.Action\<close>\<close>
  at_client_action :: "string option"       \<comment> \<open>\<^verbatim>\<open>ClientCommand.Action\<close>\<close>
  at_node_worker :: "string option"         \<comment> \<open>\<^verbatim>\<open>NodeCommand.WorkerApplicationID\<close>\<close>
  at_acceptance :: "string option"          \<comment> \<open>\<^verbatim>\<open>MeridianAcceptance\<close>\<close>
  at_reporting :: "string option"           \<comment> \<open>\<^verbatim>\<open>SenulunReporting\<close>\<close>
  at_rotation :: "string option"            \<comment> \<open>\<^verbatim>\<open>SenulunRotation\<close>\<close>
  at_inspection :: "string option"          \<comment> \<open>\<^verbatim>\<open>SenulunInspection\<close>\<close>
  at_restore :: "string option"             \<comment> \<open>\<^verbatim>\<open>SenulunRestore\<close>\<close>

text \<open>The zero value of the structure.\<close>

definition blank_task :: agent_task where
  "blank_task =
     \<lparr>at_kind = [], at_id = [], at_attempt = 0, at_revision = 0, at_application_id = [], at_reconcile = False,
      at_maintenance_action = None, at_client_action = None, at_node_worker = None, at_acceptance = None,
      at_reporting = None, at_rotation = None, at_inspection = None, at_restore = None\<rparr>"

record evidence =
  ee_result :: string
  ee_succeeded :: bool
  ee_unknown :: bool
  ee_runtime_generation :: "int option"

text \<open>
  Code the modelled files call and that is not modelled here is a function of the environment:
  AES-GCM sealing (\<^verbatim>\<open>secret.Seal\<close>, \<^verbatim>\<open>secret.Open\<close> under the Center key), \<^verbatim>\<open>encoding/json\<close> on the
  large task structures, SHA-256, \<^verbatim>\<open>golang.org/x/mod/semver\<close> and the redaction of error texts.
\<close>

record env =
  e_now :: gotime
  e_token :: "string option"                        \<comment> \<open>\<^verbatim>\<open>randomToken(24)\<close>\<close>
  e_seal :: "string \<Rightarrow> string \<Rightarrow> string option"       \<comment> \<open>associated data, plaintext\<close>
  e_open :: "string \<Rightarrow> string \<Rightarrow> string option"       \<comment> \<open>associated data, sealed bytes\<close>
  e_marshal_task :: "agent_task \<Rightarrow> string"
  e_unmarshal_task :: "string \<Rightarrow> agent_task option"
  e_marshal_evidence :: "evidence \<Rightarrow> string"
  e_unmarshal_evidence :: "string \<Rightarrow> evidence option"
  e_json_valid :: "string \<Rightarrow> bool"
  e_sha256_hex :: "string \<Rightarrow> string"
  e_token_hash :: "string \<Rightarrow> string"
  e_semver_valid :: "string \<Rightarrow> bool"
  e_semver_compare :: "string \<Rightarrow> string \<Rightarrow> int"
  e_safe_error :: "string \<Rightarrow> string"
  e_inspection_valid :: "string \<Rightarrow> bool"            \<comment> \<open>\<^verbatim>\<open>InspectionTask.Validate() == nil\<close>\<close>

abbreviation now_stamp :: "env \<Rightarrow> stamp" where
  "now_stamp e \<equiv> stamp_of (e_now e)"

definition minute :: gotime where
  "minute = 60 * second"

definition taskLeaseDuration :: gotime where
  "taskLeaseDuration = 5 * minute"

definition agentConnectedMaxAge :: gotime where
  "agentConnectedMaxAge = 45 * second"

definition ExecutionProtocol :: int where
  "ExecutionProtocol = 2"

abbreviation (input) task_aad :: "string \<Rightarrow> string" where
  "task_aad i \<equiv> ''execution-task:'' @ i"

abbreviation (input) result_aad :: "string \<Rightarrow> string" where
  "result_aad i \<equiv> ''execution-result:'' @ i"

text \<open>The outcome of a call: the database after it and the error it returned, if any.\<close>

type_synonym outcome = "center \<times> center_error option"

text \<open>
  A transaction works on a copy: an error rolls it back (\<^verbatim>\<open>defer tx.Rollback()\<close>), so the database
  of the outcome is the one before the call.
\<close>

definition transact :: "center \<Rightarrow> (center_error + center) \<Rightarrow> outcome" where
  "transact c r = (case r of Inl err \<Rightarrow> (c, Some err) | Inr c' \<Rightarrow> (c', None))"

section \<open>Sessions, administrators, credentials\<close>

definition session_of :: "center \<Rightarrow> string \<Rightarrow> string option" where
  "session_of c a = map_option fst (map_of (sessions c) a)"

definition session_seen :: "center \<Rightarrow> string \<Rightarrow> string \<Rightarrow> bool" where
  "session_seen c agentID sessionID = list_ex (\<lambda>(a, s, _). a = agentID \<and> s = sessionID) (session_history c)"

definition is_admin :: "center \<Rightarrow> string \<Rightarrow> bool" where
  "is_admin c i = (i \<in> set (admins c))"

definition agent_row_of :: "center \<Rightarrow> string \<Rightarrow> agent_row option" where
  "agent_row_of c a = find (\<lambda>r. ag_id r = a) (agents c)"

definition authenticateAgentInQuery :: "env \<Rightarrow> center \<Rightarrow> string \<Rightarrow> string \<Rightarrow> center_error option" where
  "authenticateAgentInQuery e c a credential =
     (case find (\<lambda>r. ag_id r = a \<and> ag_status r = ''active'' \<and> ag_credential_revoked_at r = NoStamp) (agents c) of
        None \<Rightarrow> Some (CenterError ''center: agent authentication failed'')
      | Some r \<Rightarrow>
          if ag_credential_hash r \<noteq> e_token_hash e credential
          then Some (CenterError ''center: agent authentication failed'') else None)"

section \<open>Writing executions: statements and audit triggers\<close>

definition audit_event :: "execution \<Rightarrow> execution_event" where
  "audit_event r =
     \<lparr>ev_execution_id = ex_id r, ev_phase = ex_phase r, ev_state = ex_state r,
      ev_actor = (if ex_disposition_actor r \<noteq> [] then ex_disposition_actor r else ex_agent_id r),
      ev_created_at = ex_updated_at r\<rparr>"

definition insert_event :: "execution \<Rightarrow> execution_event" where
  "insert_event r =
     \<lparr>ev_execution_id = ex_id r, ev_phase = ex_phase r, ev_state = ex_state r,
      ev_actor = ex_agent_id r, ev_created_at = ex_updated_at r\<rparr>"

definition audited :: "execution \<Rightarrow> execution \<Rightarrow> bool" where
  "audited old new =
     (ex_state old \<noteq> ex_state new \<or> ex_phase old \<noteq> ex_phase new \<or>
      ex_disposition old \<noteq> ex_disposition new \<or>
      ex_identity_retired_at old \<noteq> ex_identity_retired_at new)"

definition update_events :: "(execution \<Rightarrow> bool) \<Rightarrow> (execution \<Rightarrow> execution) \<Rightarrow> execution list \<Rightarrow> execution_event list" where
  "update_events P f rs = map (\<lambda>r. audit_event (f r)) (filter (\<lambda>r. P r \<and> audited r (f r)) rs)"

text \<open>\<^verbatim>\<open>UPDATE task_executions SET f WHERE P\<close>, with the rows its trigger adds to the audit table.\<close>

definition update_executions :: "(execution \<Rightarrow> bool) \<Rightarrow> (execution \<Rightarrow> execution) \<Rightarrow> center \<Rightarrow> center" where
  "update_executions P f c =
     c\<lparr>executions := sql_update P f (executions c),
       execution_events := execution_events c @ update_events P f (executions c)\<rparr>"

text \<open>
  An insert fails on the primary key and on \<^verbatim>\<open>UNIQUE(task_id, attempt)\<close>.
\<close>

definition insert_execution :: "execution \<Rightarrow> center \<Rightarrow> center_error + center" where
  "insert_execution r c =
     (if sql_exists (\<lambda>x. ex_id x = ex_id r \<or> ex_task_id x = ex_task_id r \<and> ex_attempt x = ex_attempt r)
           (executions c)
      then Inl (CenterError ''UNIQUE constraint failed: task_executions'')
      else Inr (c\<lparr>executions := executions c @ [r],
                 execution_events := execution_events c @ [insert_event r]\<rparr>))"

text \<open>
  The pattern of the guarded writes: run the update, and unless exactly one row matched return
  \<open>err\<close> with nothing written.
\<close>

definition update_one :: "center_error \<Rightarrow> (execution \<Rightarrow> bool) \<Rightarrow> (execution \<Rightarrow> execution) \<Rightarrow> center \<Rightarrow> center_error + center" where
  "update_one err P f c =
     (if rows_affected P (executions c) \<noteq> 1 then Inl err else Inr (update_executions P f c))"

text \<open>
  The statements of \<open>update_one\<close> that run outside a transaction are applied even when the count
  is not one; all of them fix the primary key, so the count is then zero and nothing changes.
\<close>

definition update_task_rows :: "(task_row \<Rightarrow> bool) \<Rightarrow> (task_row \<Rightarrow> task_row) \<Rightarrow> center \<Rightarrow> center" where
  "update_task_rows P f c = c\<lparr>tasks := sql_update P f (tasks c)\<rparr>"

definition update_one_task :: "center_error \<Rightarrow> (task_row \<Rightarrow> bool) \<Rightarrow> (task_row \<Rightarrow> task_row) \<Rightarrow> center \<Rightarrow> center_error + center" where
  "update_one_task err P f c =
     (if rows_affected P (tasks c) \<noteq> 1 then Inl err else Inr (update_task_rows P f c))"

definition recordTaskEvent :: "env \<Rightarrow> string \<Rightarrow> string \<Rightarrow> string \<Rightarrow> int \<Rightarrow> string \<Rightarrow> string \<Rightarrow> center \<Rightarrow> center_error + center" where
  "recordTaskEvent e taskID agentID kind revision event message c =
     (case e_token e of
        None \<Rightarrow> Inl (CenterError ''center: random token'')
      | Some _ \<Rightarrow>
          Inr (c\<lparr>task_events := task_events c @
            [\<lparr>te_task_id = taskID, te_agent_id = agentID, te_kind = kind, te_revision = revision,
              te_event = event, te_message = take 1024 (trim_space message), te_created_at = now_stamp e\<rparr>]\<rparr>))"

text \<open>Sequencing inside a transaction: the first error ends it.\<close>

definition and_then :: "(center_error + center) \<Rightarrow> (center \<Rightarrow> center_error + center) \<Rightarrow> center_error + center" where
  "and_then r k = (case r of Inl err \<Rightarrow> Inl err | Inr c \<Rightarrow> k c)"

section \<open>The contract of a writer\<close>

definition live :: "execution \<Rightarrow> bool" where
  "live r = (ex_disposition r = [] \<and> (ex_state r = Offered \<or> ex_state r = Running \<or> ex_state r = HelperRunning))"

definition unresolved :: "execution \<Rightarrow> bool" where
  "unresolved r = (ex_disposition r = [] \<and> ex_state r \<noteq> Succeeded)"

text \<open>An execution that only a process of the Agent can carry on: offered to it, or running in it.\<close>

definition in_process :: "execution \<Rightarrow> bool" where
  "in_process r = (ex_disposition r = [] \<and> (ex_state r = Offered \<or> ex_state r = Running))"

text \<open>The transitions of the state column one statement can make, and their closure.\<close>

fun next_state :: "exec_state \<Rightarrow> exec_state \<Rightarrow> bool" where
  "next_state Offered s = (s \<in> {Offered, Running, Failed, Unknown})"
| "next_state Running s = (s \<noteq> Offered)"
| "next_state HelperRunning s = (s \<noteq> Offered \<and> s \<noteq> Running)"
| "next_state Unknown s = (s = Unknown \<or> s = Succeeded)"
| "next_state Failed s = (s = Failed)"
| "next_state Succeeded s = (s = Succeeded)"

fun later_state :: "exec_state \<Rightarrow> exec_state \<Rightarrow> bool" where
  "later_state Offered s = True"
| "later_state s t = next_state s t"

definition same_identity :: "execution \<Rightarrow> execution \<Rightarrow> bool" where
  "same_identity r r' =
     (ex_id r' = ex_id r \<and> ex_agent_id r' = ex_agent_id r \<and> ex_task_id r' = ex_task_id r \<and>
      ex_kind r' = ex_kind r \<and> ex_attempt r' = ex_attempt r \<and> ex_session_id r' = ex_session_id r \<and>
      ex_digest r' = ex_digest r \<and> ex_sealed_task r' = ex_sealed_task r \<and>
      ex_created_at r' = ex_created_at r)"

text \<open>
  A result that was received, or belongs to an execution whose state is final, keeps its sealed
  evidence from then on.
\<close>

definition settled :: "execution \<Rightarrow> bool" where
  "settled r =
     (ex_state r \<in> {Succeeded, Failed, Unknown} \<or> ex_state r \<noteq> Offered \<and> ex_phase r = ''result_received'')"

definition keeps_evidence :: "execution \<Rightarrow> execution \<Rightarrow> bool" where
  "keeps_evidence r r' =
     (settled r \<longrightarrow> settled r' \<and> ex_sealed_result r' = ex_sealed_result r)"

text \<open>The phases of the update helper come in this order; other phases have no rank of their own.\<close>

definition helper_rank :: "string \<Rightarrow> nat" where
  "helper_rank phase =
     (if phase = ''stop'' then 1 else if phase = ''backup'' then 2 else if phase = ''preserve'' then 3
      else if phase = ''install'' then 4 else if phase = ''start'' then 5
      else if phase = ''result_received'' \<or> phase = ''reported'' then 6 else 0)"

lemma helper_rank_le [simp]: "helper_rank p \<le> 6"
  by (simp add: helper_rank_def)

lemma helper_rank_result [simp]: "helper_rank ''result_received'' = 6" "helper_rank ''reported'' = 6"
  by (simp_all add: helper_rank_def)

definition helper_forward :: "execution \<Rightarrow> execution \<Rightarrow> bool" where
  "helper_forward r r' =
     (ex_kind r = ''agent.update'' \<and> ex_state r = HelperRunning \<and> ex_state r' = HelperRunning \<longrightarrow>
      helper_rank (ex_phase r) \<le> helper_rank (ex_phase r'))"

text \<open>One row before and after any number of writes.\<close>

definition progress :: "execution \<Rightarrow> execution \<Rightarrow> bool" where
  "progress r r' =
     (same_identity r r' \<and> later_state (ex_state r) (ex_state r') \<and> keeps_evidence r r' \<and> helper_forward r r' \<and>
      (ex_disposition r \<noteq> [] \<or> ex_state r = Succeeded \<longrightarrow> r' = r))"

named_theorems writer_simps

lemmas writer_defs = progress_def same_identity_def keeps_evidence_def settled_def helper_forward_def

locale execution_writer =
  fixes guard :: "execution \<Rightarrow> bool" and change :: "execution \<Rightarrow> execution"
  assumes identity: "guard r \<Longrightarrow> same_identity r (change r)"
    and undisposed: "guard r \<Longrightarrow> ex_disposition r = []"
    and unfinished: "guard r \<Longrightarrow> ex_state r \<noteq> Succeeded"
    and forward: "guard r \<Longrightarrow> next_state (ex_state r) (ex_state (change r))"
    and evidence: "guard r \<Longrightarrow> keeps_evidence r (change r)"
    and phases: "guard r \<Longrightarrow> helper_forward r (change r)"
    and attached: "guard r \<Longrightarrow> in_process (change r) \<Longrightarrow> ex_identity_retired_at (change r) = ex_identity_retired_at r"

lemma next_state_refl [simp]: "next_state s s"
  by (cases s) auto

lemma next_state_later: "next_state s t \<Longrightarrow> later_state s t"
  by (cases s) auto

lemma later_state_refl [simp]: "later_state s s"
  by (cases s) auto

lemma later_state_trans: "later_state s t \<Longrightarrow> later_state t u \<Longrightarrow> later_state s u"
  by (cases s; cases t; cases u) auto

lemma later_state_final:
  "later_state s t \<Longrightarrow> s \<in> {Succeeded, Failed, Unknown} \<Longrightarrow> t \<in> {Succeeded, Failed, Unknown}"
  by (cases s; cases t) auto

lemma next_state_live:
  "next_state s t \<Longrightarrow> t \<in> {Offered, Running, HelperRunning} \<Longrightarrow> s \<in> {Offered, Running, HelperRunning}"
  by (cases s; cases t) auto

lemma progress_refl [simp]: "progress r r"
  by (simp add: writer_defs)

lemma progress_id: "progress r r' \<Longrightarrow> ex_id r' = ex_id r"
  by (simp add: writer_defs)

lemma progress_key:
  "progress r r' \<Longrightarrow> (ex_task_id r', ex_attempt r') = (ex_task_id r, ex_attempt r)"
  by (simp add: writer_defs)

lemma later_state_between:
  "later_state HelperRunning s \<Longrightarrow> later_state s HelperRunning \<Longrightarrow> s = HelperRunning"
  by (cases s) auto

lemma helper_forward_trans:
  assumes "same_identity r s" "later_state (ex_state r) (ex_state s)" "later_state (ex_state s) (ex_state t)"
    "helper_forward r s" "helper_forward s t"
  shows "helper_forward r t"
  using assms later_state_between [of "ex_state s"] by (fastforce simp: helper_forward_def same_identity_def)

lemma progress_trans: "progress r s \<Longrightarrow> progress s t \<Longrightarrow> progress r t"
  using helper_forward_trans [of r s t]
  unfolding progress_def keeps_evidence_def same_identity_def
  by (auto intro: later_state_trans)

section \<open>Evolution of the table\<close>

text \<open>Rows are only appended, and every row present before has made progress.\<close>

definition evolves :: "execution list \<Rightarrow> execution list \<Rightarrow> bool" where
  "evolves rs rs' = (\<exists>us vs. rs' = us @ vs \<and> list_all2 progress rs us)"

lemma evolves_refl [simp]: "evolves rs rs"
  unfolding evolves_def by (rule exI[of _ rs]) (simp add: list_all2_refl)

lemma list_all2_progress_trans:
  "list_all2 progress rs ss \<Longrightarrow> list_all2 progress ss ts \<Longrightarrow> list_all2 progress rs ts"
  by (rule list_all2_trans[of progress progress progress]) (auto intro: progress_trans)

lemma evolves_trans:
  assumes "evolves rs ss" "evolves ss ts"
  shows "evolves rs ts"
proof -
  obtain us vs where ss: "ss = us @ vs" and us: "list_all2 progress rs us"
    using assms(1) unfolding evolves_def by blast
  obtain ws xs where ts: "ts = ws @ xs" and ws: "list_all2 progress (us @ vs) ws"
    using assms(2) ss unfolding evolves_def by blast
  then obtain w1 w2 where "ws = w1 @ w2" "list_all2 progress us w1"
    by (auto simp: list_all2_append1)
  then show ?thesis
    using ts us unfolding evolves_def by (auto intro: list_all2_progress_trans)
qed

lemma evolves_append [intro]: "evolves rs (rs @ [r])"
  unfolding evolves_def by (auto simp: list_all2_refl)

lemma evolves_row:
  assumes "evolves rs rs'" "r \<in> set rs"
  shows "\<exists>r' \<in> set rs'. progress r r'"
proof -
  obtain us vs where "rs' = us @ vs" "list_all2 progress rs us"
    using assms(1) unfolding evolves_def by blast
  moreover then obtain r' where "r' \<in> set us" "progress r r'"
    using assms(2) by (metis list_all2_conv_all_nth in_set_conv_nth)
  ultimately show ?thesis by auto
qed

section \<open>Invariants of the tables\<close>

definition xray_recovery_kind :: "string \<Rightarrow> bool" where
  "xray_recovery_kind k = (k = ''xray.configuration.inspect'' \<or> k = ''xray.configuration.apply'')"

definition keys_unique :: "execution list \<Rightarrow> bool" where
  "keys_unique rs =
     (distinct (map ex_id rs) \<and> distinct (map (\<lambda>r. (ex_task_id r, ex_attempt r)) rs))"

text \<open>At most one execution of an Agent is live, apart from Xray configuration recoveries.\<close>

definition exclusive :: "execution list \<Rightarrow> bool" where
  "exclusive rs =
     (\<forall>r \<in> set rs. \<forall>s \<in> set rs.
        live r \<and> live s \<and> ex_agent_id r = ex_agent_id s \<and>
        \<not> xray_recovery_kind (ex_kind r) \<and> \<not> xray_recovery_kind (ex_kind s) \<longrightarrow> r = s)"

text \<open>The newest audit event of an execution.\<close>

definition last_event :: "execution_event list \<Rightarrow> string \<Rightarrow> execution_event option" where
  "last_event evs i = find (\<lambda>ev. ev_execution_id ev = i) (rev evs)"

definition records :: "execution_event option \<Rightarrow> execution \<Rightarrow> bool" where
  "records ev r =
     (case ev of None \<Rightarrow> False | Some x \<Rightarrow> ev_state x = ex_state r \<and> ev_phase x = ex_phase r)"

definition audit_complete :: "center \<Rightarrow> bool" where
  "audit_complete c = (\<forall>r \<in> set (executions c). records (last_event (execution_events c) (ex_id r)) r)"

text \<open>Every execution in a process belongs to the current session of its Agent.\<close>

definition current_sessions :: "center \<Rightarrow> bool" where
  "current_sessions c =
     (\<forall>r \<in> set (executions c). in_process r \<longrightarrow>
        session_of c (ex_agent_id r) = Some (ex_session_id r) \<and> ex_identity_retired_at r = NoStamp)"

definition center_inv :: "center \<Rightarrow> bool" where
  "center_inv c = (keys_unique (executions c) \<and> exclusive (executions c) \<and> audit_complete c \<and> current_sessions c)"

text \<open>
  Sessions: the history only grows, every current session is in it, and a session becomes current
  only while it is not.
\<close>

definition sessions_recorded :: "center \<Rightarrow> bool" where
  "sessions_recorded c = (\<forall>a s. session_of c a = Some s \<longrightarrow> session_seen c a s)"

definition session_step :: "center \<Rightarrow> center \<Rightarrow> bool" where
  "session_step c c' =
     ((\<exists>h. session_history c' = session_history c @ h) \<and>
      (\<forall>a s. session_of c' a = Some s \<longrightarrow> session_of c a = Some s \<or> \<not> session_seen c a s) \<and>
      (sessions_recorded c \<longrightarrow> sessions_recorded c'))"

text \<open>
  What every step of the Center promises of the execution tables. The relation is reflexive and
  transitive, so an operation keeps it when each of its statements does.
\<close>

definition safe_step :: "center \<Rightarrow> center \<Rightarrow> bool" where
  "safe_step c c' =
     (evolves (executions c) (executions c') \<and>
      (\<exists>evs. execution_events c' = execution_events c @ evs) \<and>
      (center_inv c \<longrightarrow> center_inv c') \<and> session_step c c')"

lemma session_step_refl [simp]: "session_step c c"
  by (simp add: session_step_def)

lemma session_seen_append: "session_history c' = session_history c @ h \<Longrightarrow> session_seen c a s \<Longrightarrow> session_seen c' a s"
  by (simp add: session_seen_def)

lemma session_step_trans: "session_step c d \<Longrightarrow> session_step d e \<Longrightarrow> session_step c e"
  unfolding session_step_def by (metis append_assoc session_seen_append)

lemma session_step_same:
  "sessions c' = sessions c \<Longrightarrow> session_history c' = session_history c \<Longrightarrow> session_step c c'"
  by (simp add: session_step_def sessions_recorded_def session_of_def session_seen_def)

named_theorems safe_intros

lemma safe_step_refl [simp, safe_intros]: "safe_step c c"
  by (simp add: safe_step_def)

lemma safe_step_trans: "safe_step c d \<Longrightarrow> safe_step d e \<Longrightarrow> safe_step c e"
  unfolding safe_step_def by (auto intro: evolves_trans session_step_trans)

lemma safe_step_other:
  assumes "executions c' = executions c" "execution_events c' = execution_events c" "session_step c c'" "sessions c' = sessions c"
  shows "safe_step c c'"
  using assms by (simp add: safe_step_def center_inv_def audit_complete_def current_sessions_def session_of_def)

lemma transact_safe: "(\<And>c'. r = Inr c' \<Longrightarrow> safe_step c c') \<Longrightarrow> safe_step c (fst (transact c r))"
  by (cases r) (auto simp: transact_def)

text \<open>Rules that follow the branches of a call one by one.\<close>

lemma safe_here: "safe_step c (fst (c, x))"
  by simp

lemma safe_if:
  "(b \<Longrightarrow> safe_step c (fst x)) \<Longrightarrow> (\<not> b \<Longrightarrow> safe_step c (fst y)) \<Longrightarrow> safe_step c (fst (if b then x else y))"
  by simp

lemma safe_option:
  assumes "opt = None \<Longrightarrow> safe_step c (fst x)" "\<And>v. opt = Some v \<Longrightarrow> safe_step c (fst (f v))"
  shows "safe_step c (fst (case opt of None \<Rightarrow> x | Some v \<Rightarrow> f v))"
  using assms by (cases opt) auto

lemma safe_sum:
  assumes "\<And>v. r = Inl v \<Longrightarrow> safe_step c (fst (f v))" "\<And>v. r = Inr v \<Longrightarrow> safe_step c (fst (g v))"
  shows "safe_step c (fst (case r of Inl v \<Rightarrow> f v | Inr v \<Rightarrow> g v))"
  using assms by (cases r) auto

lemma safe_prod:
  assumes "\<And>u v. p = (u, v) \<Longrightarrow> safe_step c (fst (f u v))"
  shows "safe_step c (fst (case p of (u, v) \<Rightarrow> f u v))"
  using assms by (cases p) auto

lemma safe_let: "(\<And>v. v = x \<Longrightarrow> safe_step c (fst (f v))) \<Longrightarrow> safe_step c (fst (let v = x in f v))"
  by (simp add: Let_def)

lemmas safe_cases = safe_here safe_if safe_option safe_sum safe_prod safe_let transact_safe

lemma safe_step_fields [simp]:
  "safe_step c (c'\<lparr>tasks := x\<rparr>) = safe_step c c'"
  "safe_step c (c'\<lparr>applications := a\<rparr>) = safe_step c c'"
  "safe_step c (c'\<lparr>node_sites := n\<rparr>) = safe_step c c'"
  "safe_step c (c'\<lparr>task_events := t\<rparr>) = safe_step c c'"
  "safe_step c (c'\<lparr>mirrors := m\<rparr>) = safe_step c c'"
  "safe_step c (c'\<lparr>meridian_cutover := v\<rparr>) = safe_step c c'"
  "safe_step c (c'\<lparr>claim_setting := y\<rparr>) = safe_step c c'"
  "safe_step c (c'\<lparr>claim_events := z\<rparr>) = safe_step c c'"
  "safe_step c (c'\<lparr>agents := g\<rparr>) = safe_step c c'"
  by (simp_all add: safe_step_def center_inv_def audit_complete_def current_sessions_def session_step_def sessions_recorded_def
      session_of_def session_seen_def)

lemma recordTaskEvent_safe:
  "recordTaskEvent e i a k n ev m c = Inr c' \<Longrightarrow> safe_step c c'"
  by (auto simp: recordTaskEvent_def split: option.splits)

lemma recordTaskEvent_safe_from:
  "recordTaskEvent e i a k n ev m d = Inr c' \<Longrightarrow> safe_step c d \<Longrightarrow> safe_step c c'"
  by (erule recordTaskEvent_safe [THEN safe_step_trans [rotated]])

lemma and_then_safe:
  assumes "and_then r k = Inr c'"
    and "\<And>d. r = Inr d \<Longrightarrow> safe_step c d"
    and "\<And>d. r = Inr d \<Longrightarrow> k d = Inr c' \<Longrightarrow> safe_step d c'"
  shows "safe_step c c'"
  using assms by (cases r) (auto simp: and_then_def intro: safe_step_trans)

lemma and_then_Inr: "and_then r k = Inr c' \<longleftrightarrow> (\<exists>d. r = Inr d \<and> k d = Inr c')"
  by (cases r) (auto simp: and_then_def)

lemma update_one_task_safe:
  "update_one_task err P f c = Inr c' \<Longrightarrow> safe_step c c'"
  by (auto simp: update_one_task_def update_task_rows_def split: if_splits)

lemma update_one_task_call_safe: "safe_step c (fst (transact c (update_one_task err P f c)))"
  by (rule transact_safe) (rule update_one_task_safe)

lemma update_task_rows_safe_iff [simp]: "safe_step c (update_task_rows P f d) = safe_step c d"
  by (simp add: update_task_rows_def)

lemma update_task_rows_safe [safe_intros]: "safe_step c (update_task_rows P f c)"
  by simp

lemma last_event_append:
  "last_event (evs @ fs) i = (case last_event fs i of None \<Rightarrow> last_event evs i | Some ev \<Rightarrow> Some ev)"
proof -
  have "find P (xs @ ys) = (case find P xs of None \<Rightarrow> find P ys | Some x \<Rightarrow> Some x)" for P :: "execution_event \<Rightarrow> bool" and xs ys
    by (induction xs) auto
  then show ?thesis unfolding last_event_def by simp
qed

lemma last_event_none: "(\<And>ev. ev \<in> set evs \<Longrightarrow> ev_execution_id ev \<noteq> i) \<Longrightarrow> last_event evs i = None"
  by (auto simp: last_event_def find_None_iff)

lemma last_event_some_iff:
  "last_event evs i = Some ev \<Longrightarrow> ev \<in> set evs \<and> ev_execution_id ev = i"
  unfolding last_event_def by (metis (mono_tags, lifting) find_Some_iff nth_mem set_rev)

lemma sql_update_progress:
  assumes "\<And>r. P r \<Longrightarrow> progress r (f r)"
  shows "list_all2 progress rs (sql_update P f rs)"
  using assms by (auto simp: sql_update_def list_all2_conv_all_nth)

lemma keys_unique_progress:
  assumes "list_all2 progress rs ss"
  shows "keys_unique ss = keys_unique rs"
proof -
  have "map ex_id ss = map ex_id rs"
    and "map (\<lambda>r. (ex_task_id r, ex_attempt r)) ss = map (\<lambda>r. (ex_task_id r, ex_attempt r)) rs"
    using assms by (induction rule: list_all2_induct) (auto dest: progress_id progress_key)
  then show ?thesis by (simp only: keys_unique_def)
qed

lemma keys_unique_eq:
  "keys_unique rs \<Longrightarrow> r \<in> set rs \<Longrightarrow> s \<in> set rs \<Longrightarrow> ex_id r = ex_id s \<Longrightarrow> r = s"
  unfolding keys_unique_def by (meson distinct_map inj_onD)

lemma update_events_ids:
  "ev \<in> set (update_events P f rs) \<Longrightarrow>
   \<exists>r \<in> set rs. P r \<and> audited r (f r) \<and> ev = audit_event (f r)"
  by (auto simp: update_events_def)

context execution_writer
begin

lemma writer_progress: "guard r \<Longrightarrow> progress r (change r)"
  using identity undisposed unfinished forward evidence phases
  by (simp add: progress_def next_state_later)

lemma writer_live: "guard r \<Longrightarrow> live (change r) \<Longrightarrow> live r"
  using undisposed[of r] forward[of r] next_state_live[of "ex_state r" "ex_state (change r)"]
  by (auto simp: live_def)

lemma writer_in_process:
  assumes "guard r" "in_process (change r)"
  shows "in_process r \<and> ex_agent_id (change r) = ex_agent_id r \<and> ex_session_id (change r) = ex_session_id r \<and>
    ex_identity_retired_at (change r) = ex_identity_retired_at r"
proof -
  have "ex_state r = Offered \<or> ex_state r = Running"
    using forward [OF assms(1)] assms(2) by (cases "ex_state r") (auto simp: in_process_def)
  then show ?thesis
    using assms identity undisposed attached by (auto simp: in_process_def same_identity_def)
qed

lemma writer_sessions: "current_sessions c \<Longrightarrow> current_sessions (update_executions guard change c)"
  using writer_in_process
  by (fastforce simp: current_sessions_def update_executions_def sql_update_def session_of_def split: if_splits)

lemma writer_rows: "list_all2 progress rs (sql_update guard change rs)"
  by (rule sql_update_progress) (rule writer_progress)

lemma writer_exclusive:
  assumes "exclusive rs"
  shows "exclusive (sql_update guard change rs)"
proof -
  have origin: "\<exists>u \<in> set rs. live u \<and> ex_agent_id u = ex_agent_id r \<and> ex_kind u = ex_kind r \<and>
      r = (if guard u then change u else u)"
    if "r \<in> set (sql_update guard change rs)" "live r" for r
    using that identity writer_live by (fastforce simp: sql_update_def same_identity_def split: if_splits)
  show ?thesis
    unfolding exclusive_def
  proof (intro ballI impI, elim conjE)
    fix r s assume r: "r \<in> set (sql_update guard change rs)" "live r"
      and s: "s \<in> set (sql_update guard change rs)" "live s"
      and same: "ex_agent_id r = ex_agent_id s" "\<not> xray_recovery_kind (ex_kind r)"
        "\<not> xray_recovery_kind (ex_kind s)"
    obtain u where u: "u \<in> set rs" "live u" "ex_agent_id u = ex_agent_id r" "ex_kind u = ex_kind r"
      "r = (if guard u then change u else u)" using origin[OF r] by blast
    obtain v where v: "v \<in> set rs" "live v" "ex_agent_id v = ex_agent_id s" "ex_kind v = ex_kind s"
      "s = (if guard v then change v else v)" using origin[OF s] by blast
    have "u = v" using assms u v same unfolding exclusive_def by metis
    then show "r = s" using u v by simp
  qed
qed

lemma writer_audit:
  assumes "keys_unique (executions c)" "audit_complete c"
  shows "audit_complete (update_executions guard change c)"
  unfolding audit_complete_def
proof
  fix r' assume "r' \<in> set (executions (update_executions guard change c))"
  then obtain r where r: "r \<in> set (executions c)" and r': "r' = (if guard r then change r else r)"
    by (auto simp: update_executions_def sql_update_def)
  let ?new = "update_events guard change (executions c)"
  have id: "ex_id r' = ex_id r" using r' identity by (auto simp: same_identity_def)
  have only: "guard r \<and> audited r (change r) \<and> ev = audit_event (change r)"
    if ev: "ev \<in> set ?new" "ev_execution_id ev = ex_id r" for ev
  proof -
    obtain u where u: "u \<in> set (executions c)" "guard u" "audited u (change u)" "ev = audit_event (change u)"
      using update_events_ids[OF ev(1)] by blast
    have "ex_id u = ex_id r" using u ev identity[of u] by (simp add: audit_event_def same_identity_def)
    then have "u = r" using keys_unique_eq[OF assms(1) u(1) r] by simp
    then show ?thesis using u by simp
  qed
  have old: "records (last_event (execution_events c) (ex_id r)) r"
    using assms(2) r by (simp add: audit_complete_def)
  show "records (last_event (execution_events (update_executions guard change c)) (ex_id r')) r'"
  proof (cases "last_event ?new (ex_id r)")
    case None
    have "\<not> (guard r \<and> audited r (change r))"
    proof
      assume g: "guard r \<and> audited r (change r)"
      then have "audit_event (change r) \<in> set ?new" using r by (auto simp: update_events_def)
      moreover have "ev_execution_id (audit_event (change r)) = ex_id r"
        using g identity by (simp add: audit_event_def same_identity_def)
      ultimately show False using None by (force simp: last_event_def find_None_iff)
    qed
    then have "ex_state r' = ex_state r \<and> ex_phase r' = ex_phase r"
      using r' by (auto simp: audited_def)
    then show ?thesis
      using old id None by (auto simp: update_executions_def last_event_append records_def split: option.splits)
  next
    case (Some ev)
    then have "guard r \<and> ev = audit_event (change r)" using only last_event_some_iff by blast
    then show ?thesis
      using Some id r' by (simp add: update_executions_def last_event_append records_def audit_event_def)
  qed
qed

lemma writer_safe: "safe_step c (update_executions guard change c)"
proof -
  have "evolves (executions c) (executions (update_executions guard change c))"
    unfolding evolves_def update_executions_def using writer_rows by auto
  moreover have "center_inv c \<longrightarrow> center_inv (update_executions guard change c)"
    using writer_audit writer_exclusive writer_sessions [of c] keys_unique_progress[OF writer_rows, of "executions c"]
    by (auto simp: center_inv_def update_executions_def)
  moreover have "session_step c (update_executions guard change c)"
    by (rule session_step_same) (simp_all add: update_executions_def)
  ultimately show ?thesis by (simp add: safe_step_def update_executions_def)
qed

lemma writer_one_safe: "update_one err guard change c = Inr c' \<Longrightarrow> safe_step c c'"
  using writer_safe by (auto simp: update_one_def split: if_splits)

lemma writer_call_safe: "safe_step c (fst (transact c (update_one err guard change c)))"
  by (rule transact_safe) (rule writer_one_safe)

end

text \<open>
  An insert is safe when the new row is not live, or is an Xray recovery, or its Agent has no
  other live execution, and when an offer names the current session.
\<close>

lemma insert_execution_safe:
  assumes ins: "insert_execution r c = Inr c'"
    and alone: "live r \<Longrightarrow> \<not> xray_recovery_kind (ex_kind r) \<Longrightarrow>
      \<forall>x \<in> set (executions c). ex_agent_id x = ex_agent_id r \<longrightarrow> \<not> live x \<or> xray_recovery_kind (ex_kind x)"
    and current: "in_process r \<Longrightarrow> session_of c (ex_agent_id r) = Some (ex_session_id r) \<and> ex_identity_retired_at r = NoStamp"
  shows "safe_step c c'"
proof -
  have c': "executions c' = executions c @ [r]" "execution_events c' = execution_events c @ [insert_event r]"
    and new: "\<forall>x \<in> set (executions c). ex_id x \<noteq> ex_id r \<and>
      \<not> (ex_task_id x = ex_task_id r \<and> ex_attempt x = ex_attempt r)"
    and ses: "session_step c c'" and cur: "sessions c' = sessions c"
    using ins by (auto simp: insert_execution_def sql_exists_iff split: if_splits intro: session_step_same)
  have "keys_unique (executions c')" if "keys_unique (executions c)"
    using that new c' by (auto simp: keys_unique_def)
  moreover have "exclusive (executions c')" if "exclusive (executions c)"
    using that alone c' unfolding exclusive_def by (simp add: ball_Un) metis
  moreover have "audit_complete c'" if "audit_complete c"
    using that new c'
    by (auto simp: audit_complete_def last_event_append records_def last_event_def insert_event_def)
  moreover have "current_sessions c'" if "current_sessions c"
    using that current cur c' by (auto simp: current_sessions_def session_of_def)
  ultimately show ?thesis
    using c' ses by (auto simp: safe_step_def center_inv_def)
qed

text \<open>A statement that fixes the primary key matches at most one row.\<close>

lemma rows_by_id:
  assumes "keys_unique rs" "\<And>r. P r \<Longrightarrow> ex_id r = i"
  shows "rows_affected P rs \<le> 1"
  using assms rows_affected_key_le_one[of ex_id rs P i] by (auto simp: keys_unique_def)

lemma update_one_Inr:
  "update_one err P f c = Inr c' \<longleftrightarrow> rows_affected P (executions c) = 1 \<and> c' = update_executions P f c"
  by (auto simp: update_one_def)

lemma update_one_row:
  assumes "update_one err P f c = Inr c'"
  shows "\<exists>r \<in> set (executions c). P r \<and> f r \<in> set (executions c')"
proof -
  have "rows_affected P (executions c) > 0" using assms by (simp add: update_one_Inr)
  then obtain r where "r \<in> set (executions c)" "P r" by (auto simp: rows_affected_pos_iff)
  then show ?thesis using assms by (force simp: update_one_Inr update_executions_def set_sql_update)
qed

lemma sessions_update_executions [simp]:
  "sessions (update_executions P f c) = sessions c"
  "session_history (update_executions P f c) = session_history c"
  "claim_setting (update_executions P f c) = claim_setting c"
  "tasks (update_executions P f c) = tasks c"
  "applications (update_executions P f c) = applications c"
  "node_sites (update_executions P f c) = node_sites c"
  "task_events (update_executions P f c) = task_events c"
  "agents (update_executions P f c) = agents c"
  "admins (update_executions P f c) = admins c"
  by (simp_all add: update_executions_def)

lemma session_of_update_executions [simp]: "session_of (update_executions P f c) = session_of c"
  by (rule ext) (simp add: session_of_def)

end
