(* ===== verification/Execution_Lifecycle.thy ===== *)
theory Execution_Lifecycle
  imports Execution_Model
begin

text \<open>
  The calls an Agent makes for one authorized execution, from src/internal/center/execution.go:
  \<^verbatim>\<open>StartExecution\<close>, \<^verbatim>\<open>CheckExecutionStep\<close>, \<^verbatim>\<open>RenewExecution\<close>, \<^verbatim>\<open>StopExecution\<close>,
  \<^verbatim>\<open>StoreExecutionResult\<close> and \<^verbatim>\<open>finalizeExecution\<close>, and the handoff to a host helper
  (execution_update_handoff.go, execution_decommission_step.go). Each statement is a guard (its
  \<^verbatim>\<open>WHERE\<close>) and a change (its \<^verbatim>\<open>SET\<close>), interpreted as an \<open>execution_writer\<close>.
\<close>

section \<open>Guards and changes\<close>

text \<open>The row an Agent process may act on: it names the row, and its session is the current one.\<close>

definition owned :: "center \<Rightarrow> string \<Rightarrow> string \<Rightarrow> string \<Rightarrow> execution \<Rightarrow> bool" where
  "owned c agentID sessionID i r =
     (ex_id r = i \<and> ex_agent_id r = agentID \<and> ex_session_id r = sessionID \<and> ex_disposition r = [] \<and>
      session_of c agentID = Some sessionID)"

definition start_guard :: "env \<Rightarrow> center \<Rightarrow> string \<Rightarrow> string \<Rightarrow> string \<Rightarrow> string \<Rightarrow> execution \<Rightarrow> bool" where
  "start_guard e c agentID sessionID i digest r =
     (owned c agentID sessionID i r \<and> ex_digest r = digest \<and> ex_state r = Offered \<and>
      now_stamp e < ex_expires_at r)"

definition start_set :: "env \<Rightarrow> execution \<Rightarrow> execution" where
  "start_set e r = r\<lparr>ex_state := Running, ex_phase := ''started'', ex_updated_at := now_stamp e,
     ex_expires_at := stamp_of (e_now e + taskLeaseDuration)\<rparr>"

definition step_guard :: "env \<Rightarrow> center \<Rightarrow> string \<Rightarrow> string \<Rightarrow> string \<Rightarrow> string \<Rightarrow> execution \<Rightarrow> bool" where
  "step_guard e c agentID sessionID i phase r =
     (owned c agentID sessionID i r \<and> ex_state r = Running \<and> ex_phase r \<noteq> ''result_received'' \<and>
      now_stamp e < ex_expires_at r \<and>
      (ex_kind r \<noteq> ''node.os-reinstall'' \<or> ex_phase r = ''started'' \<and> phase = ''apply''))"

definition step_set :: "env \<Rightarrow> string \<Rightarrow> execution \<Rightarrow> execution" where
  "step_set e phase r = r\<lparr>ex_phase := phase, ex_updated_at := now_stamp e,
     ex_expires_at := stamp_of (e_now e + taskLeaseDuration)\<rparr>"

definition renew_guard :: "env \<Rightarrow> center \<Rightarrow> string \<Rightarrow> string \<Rightarrow> string \<Rightarrow> execution \<Rightarrow> bool" where
  "renew_guard e c agentID sessionID i r =
     (owned c agentID sessionID i r \<and> ex_state r = Running \<and> ex_phase r \<noteq> ''result_received'' \<and>
      now_stamp e < ex_expires_at r)"

definition renew_set :: "env \<Rightarrow> execution \<Rightarrow> execution" where
  "renew_set e r = r\<lparr>ex_expires_at := stamp_of (e_now e + taskLeaseDuration), ex_updated_at := now_stamp e\<rparr>"

definition stop_guard :: "center \<Rightarrow> string \<Rightarrow> string \<Rightarrow> string \<Rightarrow> execution \<Rightarrow> bool" where
  "stop_guard c agentID sessionID i r =
     (owned c agentID sessionID i r \<and> (ex_state r = Offered \<or> ex_state r = Running) \<and>
      ex_phase r \<noteq> ''result_received'')"

definition stop_set :: "env \<Rightarrow> bool \<Rightarrow> string \<Rightarrow> execution \<Rightarrow> execution" where
  "stop_set e unknown message r =
     r\<lparr>ex_state := (if unknown then Unknown else Failed), ex_last_error := message,
       ex_updated_at := now_stamp e\<rparr>"

text \<open>The text kept of an error: redacted, then cut to 1024 bytes.\<close>

definition task_message :: "env \<Rightarrow> string \<Rightarrow> string" where
  "task_message e taskError = take 1024 (e_safe_error e taskError)"

section \<open>Operations\<close>

definition StopExecution :: "env \<Rightarrow> string \<Rightarrow> string \<Rightarrow> string \<Rightarrow> bool \<Rightarrow> string \<Rightarrow> center \<Rightarrow> outcome" where
  "StopExecution e agentID sessionID i unknown taskError c =
     transact c (update_one ExecutionAuthorization (stop_guard c agentID sessionID i)
       (stop_set e unknown (task_message e taskError)) c)"

definition tunnel_message :: string where
  "tunnel_message = ''center: Cloudflare Tunnel origin configuration was not confirmed; explicit recovery required''"

text \<open>
  \<open>tunnel\<close> is the result of \<^verbatim>\<open>prepareTunnelExecution\<close> (calls to Cloudflare), which runs after the
  offer is consumed: a failure stops the execution with an unknown outcome.
\<close>

definition StartExecution :: "env \<Rightarrow> (center \<Rightarrow> center_error option) \<Rightarrow> string \<Rightarrow> string \<Rightarrow> string \<Rightarrow> string \<Rightarrow> center \<Rightarrow> outcome" where
  "StartExecution e tunnel agentID sessionID i digest c =
     (case update_one ExecutionAuthorization (start_guard e c agentID sessionID i digest) (start_set e) c of
        Inl err \<Rightarrow> (c, Some err)
      | Inr c1 \<Rightarrow>
          (case tunnel c1 of
             None \<Rightarrow> (c1, None)
           | Some _ \<Rightarrow> (fst (StopExecution e agentID sessionID i True tunnel_message c1),
                       Some (CenterError tunnel_message))))"

definition execution_phases :: "string list" where
  "execution_phases = [''prepare'', ''apply'', ''persist'', ''report'', ''handoff'']"

definition CheckExecutionStep :: "env \<Rightarrow> string \<Rightarrow> string \<Rightarrow> string \<Rightarrow> string \<Rightarrow> center \<Rightarrow> outcome" where
  "CheckExecutionStep e agentID sessionID i phase c =
     (if phase \<notin> set execution_phases then (c, Some (CenterError ''center: invalid execution phase''))
      else transact c (update_one ExecutionAuthorization (step_guard e c agentID sessionID i phase) (step_set e phase) c))"

definition RenewExecution :: "env \<Rightarrow> string \<Rightarrow> string \<Rightarrow> string \<Rightarrow> center \<Rightarrow> outcome" where
  "RenewExecution e agentID sessionID i c =
     transact c (update_one ExecutionAuthorization (renew_guard e c agentID sessionID i) (renew_set e) c)"

section \<open>Results\<close>

text \<open>
  A result comes from the Agent process (\<open>helper = False\<close>) while the execution runs, or from the
  host update helper once it owns the execution; a helper's success needs its last phase.
\<close>

definition result_guard :: "env \<Rightarrow> center \<Rightarrow> string \<Rightarrow> string \<Rightarrow> string \<Rightarrow> bool \<Rightarrow> bool \<Rightarrow> execution \<Rightarrow> bool" where
  "result_guard e c agentID sessionID i succeeded helper r =
     (ex_id r = i \<and> ex_agent_id r = agentID \<and> ex_session_id r = sessionID \<and>
      (\<not> helper \<and> ex_state r = Running \<or>
       helper \<and> ex_kind r = ''agent.update'' \<and> ex_state r = HelperRunning) \<and>
      ex_phase r \<noteq> ''result_received'' \<and> ex_disposition r = [] \<and> now_stamp e < ex_expires_at r \<and>
      (ex_state r \<noteq> HelperRunning \<or> \<not> succeeded \<or> ex_phase r = ''start'') \<and>
      (ex_state r = HelperRunning \<or> session_of c agentID = Some sessionID))"

definition result_set :: "env \<Rightarrow> string \<Rightarrow> string \<Rightarrow> execution \<Rightarrow> execution" where
  "result_set e sealed message r =
     r\<lparr>ex_sealed_result := sealed, ex_phase := ''result_received'', ex_last_error := message,
       ex_updated_at := now_stamp e\<rparr>"

definition StoreExecutionResult ::
  "env \<Rightarrow> string \<Rightarrow> string \<Rightarrow> string \<Rightarrow> string \<Rightarrow> bool \<Rightarrow> bool \<Rightarrow> string \<Rightarrow> int option \<Rightarrow> bool \<Rightarrow> center \<Rightarrow> outcome" where
  "StoreExecutionResult e agentID sessionID i result succeeded unknown taskError runtimeGeneration hostUpdateHelper c =
     (if \<not> e_json_valid e result \<or> length result > 2 * 1024 * 1024
      then (c, Some (CenterError ''center: invalid execution result''))
      else
        let encoded = e_marshal_evidence e
              \<lparr>ee_result = result, ee_succeeded = succeeded, ee_unknown = unknown, ee_runtime_generation = runtimeGeneration\<rparr>
        in case e_seal e (result_aad i) encoded of
             None \<Rightarrow> (c, Some (CenterError ''secret: seal''))
           | Some sealed \<Rightarrow>
               transact c (update_one ExecutionAuthorization
                 (result_guard e c agentID sessionID i succeeded hostUpdateHelper)
                 (result_set e sealed (task_message e taskError)) c))"

definition executionFailureCanReleaseFence :: "env \<Rightarrow> agent_task \<Rightarrow> bool" where
  "executionFailureCanReleaseFence e task =
     (if at_kind task = ''application.maintenance'' \<and> at_maintenance_action task = Some ''logs'' then True
      else if at_kind task = ''application.command'' \<and>
              (case at_inspection task of None \<Rightarrow> False | Some x \<Rightarrow> e_inspection_valid e x) then True
      else if at_kind task \<noteq> ''application.command'' \<or> at_client_action task = None then False
      else at_client_action task = Some ''list'' \<or> at_client_action task = Some ''list_inbounds'')"

definition evidence_state :: "evidence \<Rightarrow> exec_state" where
  "evidence_state ev = (if ee_unknown ev then Unknown else if ee_succeeded ev then Succeeded else Failed)"

definition received_row :: "string \<Rightarrow> string \<Rightarrow> string \<Rightarrow> execution \<Rightarrow> bool" where
  "received_row agentID sessionID i r =
     (ex_id r = i \<and> ex_agent_id r = agentID \<and> ex_session_id r = sessionID \<and>
      (ex_state r = Running \<or> ex_state r = HelperRunning) \<and> ex_phase r = ''result_received'' \<and>
      ex_disposition r = [])"

definition finalize_guard :: "env \<Rightarrow> center \<Rightarrow> string \<Rightarrow> string \<Rightarrow> string \<Rightarrow> execution \<Rightarrow> bool" where
  "finalize_guard e c agentID sessionID i r =
     (received_row agentID sessionID i r \<and> now_stamp e < ex_expires_at r \<and>
      (ex_state r = HelperRunning \<or> session_of c agentID = Some sessionID))"

definition finalize_set :: "env \<Rightarrow> exec_state \<Rightarrow> bool \<Rightarrow> execution \<Rightarrow> execution" where
  "finalize_set e st readonly r =
     r\<lparr>ex_state := st, ex_phase := ''reported'',
       ex_disposition := (if readonly then ''read-only-failure'' else []),
       ex_disposition_note := (if readonly then ''Read-only operation failed without changing node state'' else []),
       ex_disposition_actor := (if readonly then ''system'' else []),
       ex_disposed_at := (if readonly then now_stamp e else NoStamp),
       ex_updated_at := now_stamp e\<rparr>"

definition open_evidence :: "env \<Rightarrow> execution \<Rightarrow> evidence option" where
  "open_evidence e r =
     (case e_open e (result_aad (ex_id r)) (ex_sealed_result r) of
        None \<Rightarrow> None | Some raw \<Rightarrow> e_unmarshal_evidence e raw)"

definition open_task :: "env \<Rightarrow> execution \<Rightarrow> agent_task option" where
  "open_task e r =
     (case e_open e (task_aad (ex_id r)) (ex_sealed_task r) of
        None \<Rightarrow> None | Some raw \<Rightarrow> e_unmarshal_task e raw)"

text \<open>Runs inside the transaction of the business projection.\<close>

definition finalizeExecution :: "env \<Rightarrow> string \<Rightarrow> string \<Rightarrow> string \<Rightarrow> center \<Rightarrow> center_error + center" where
  "finalizeExecution e agentID sessionID i c =
     (case find (received_row agentID sessionID i) (executions c) of
        None \<Rightarrow> Inl ExecutionAuthorization
      | Some r \<Rightarrow>
          (case open_evidence e r of
             None \<Rightarrow> Inl (CenterError ''center: execution result evidence is invalid'')
           | Some ev \<Rightarrow>
               (case open_task e r of
                  None \<Rightarrow> Inl (CenterError ''center: execution task evidence is invalid'')
                | Some task \<Rightarrow>
                    let st = evidence_state ev;
                        readonly = (st = Failed \<and> executionFailureCanReleaseFence e task)
                    in update_one ExecutionAuthorization (finalize_guard e c agentID sessionID i)
                         (finalize_set e st readonly) c)))"

section \<open>Every statement keeps the contract\<close>

lemmas start_defs = start_guard_def start_set_def owned_def
lemmas step_defs = step_guard_def step_set_def owned_def
lemmas renew_defs = renew_guard_def renew_set_def owned_def
lemmas stop_defs = stop_guard_def stop_set_def owned_def
lemmas result_defs = result_guard_def result_set_def
lemmas finalize_defs = finalize_guard_def finalize_set_def received_row_def
lemmas contract_defs = same_identity_def keeps_evidence_def settled_def helper_forward_def in_process_def

interpretation start: execution_writer "start_guard e c a s i d" "start_set e" for e c a s i d
  by unfold_locales (auto simp: start_defs contract_defs)

interpretation step: execution_writer "step_guard e c a s i p" "step_set e p" for e c a s i p
  by unfold_locales (auto simp: step_defs contract_defs)

interpretation renew: execution_writer "renew_guard e c a s i" "renew_set e" for e c a s i
  by unfold_locales (auto simp: renew_defs contract_defs)

interpretation stop: execution_writer "stop_guard c a s i" "stop_set e u m" for c a s i e u m
  by unfold_locales (auto simp: stop_defs contract_defs)

interpretation result: execution_writer "result_guard e c a s i ok h" "result_set e b m" for e c a s i ok h b m
  by unfold_locales (auto simp: result_defs contract_defs)

interpretation finalize: execution_writer "finalize_guard e c a s i" "finalize_set e (evidence_state ev) ro"
  for e c a s i ev ro
  by unfold_locales (auto simp: finalize_defs contract_defs evidence_state_def)

lemma StopExecution_safe [safe_intros]: "safe_step c (fst (StopExecution e a s i u m c))"
  unfolding StopExecution_def by (rule stop.writer_call_safe)

lemma StartExecution_safe [safe_intros]: "safe_step c (fst (StartExecution e t a s i d c))"
  unfolding StartExecution_def
  by (auto split: sum.splits option.splits
      intro: start.writer_one_safe safe_step_trans[OF start.writer_one_safe StopExecution_safe])

lemma CheckExecutionStep_safe [safe_intros]: "safe_step c (fst (CheckExecutionStep e a s i p c))"
  unfolding CheckExecutionStep_def by (auto intro: step.writer_call_safe)

lemma RenewExecution_safe [safe_intros]: "safe_step c (fst (RenewExecution e a s i c))"
  unfolding RenewExecution_def by (rule renew.writer_call_safe)

lemma StoreExecutionResult_safe [safe_intros]:
  "safe_step c (fst (StoreExecutionResult e a s i res ok u m g h c))"
  unfolding StoreExecutionResult_def Let_def
  by (auto split: option.splits intro: result.writer_call_safe)

lemma finalizeExecution_safe [safe_intros]: "finalizeExecution e a s i c = Inr c' \<Longrightarrow> safe_step c c'"
  unfolding finalizeExecution_def Let_def
  by (auto split: option.splits intro: finalize.writer_one_safe)

end
