(* ===== verification/Task_Tables.thy ===== *)
theory Task_Tables
  imports Execution_Model
begin

text \<open>
  The business tables behind the executions: task ids and the revisions they carry
  (landing_proxy_tasks.go, landing_server.go, orchestration.go, node_listeners.go, tunnel.go,
  deployment_tasks.go), and the statements that reset, abandon, reopen, release and renew the row
  of one task attempt (execution_disposition.go, execution_confirmation.go, tasks.go). The SQL
  texts differ only in the table, the key, the states they start from and the columns they write,
  so a statement is a record of these and one function executes it.
\<close>

section \<open>Task ids\<close>

definition landingProxyTaskID :: "string \<Rightarrow> int \<Rightarrow> string" where
  "landingProxyTaskID nodeID revision = ''landing-proxy-'' @ nodeID @ ''-r'' @ int_str revision"

definition landingServerTaskID :: "string \<Rightarrow> int \<Rightarrow> string" where
  "landingServerTaskID nodeID revision = ''landing-server-'' @ nodeID @ ''-r'' @ int_str revision"

definition gatewayRouteTaskID :: "string \<Rightarrow> int \<Rightarrow> string" where
  "gatewayRouteTaskID agentID revision = ''gateway-route-'' @ agentID @ ''-r'' @ int_str revision"

definition nodeListenerTaskID :: "string \<Rightarrow> int \<Rightarrow> string" where
  "nodeListenerTaskID nodeID revision = ''node-listener-'' @ nodeID @ ''-r'' @ int_str revision"

definition tunnelTaskID :: "string \<Rightarrow> int \<Rightarrow> string" where
  "tunnelTaskID agentID revision = ''tunnel-'' @ agentID @ ''-r'' @ int_str revision"

definition gatewayComponentTaskID :: "string \<Rightarrow> int \<Rightarrow> string" where
  "gatewayComponentTaskID agentID generation = ''gateway-component-'' @ agentID @ ''-g'' @ int_str generation"

definition agentDecommissionTaskID :: "string \<Rightarrow> string" where
  "agentDecommissionTaskID agentID = ''agent-decommission-'' @ agentID"

text \<open>
  The common body of the six readers: find the last marker, require the prefix and the least
  marker position \<open>low\<close>, and parse a positive revision after it. \<open>None\<close> is \<^verbatim>\<open>(_, false)\<close>.
\<close>

definition task_revision :: "string \<Rightarrow> string \<Rightarrow> nat \<Rightarrow> string \<Rightarrow> int option" where
  "task_revision prefix marker low i =
     (case last_index i marker of
        None \<Rightarrow> None
      | Some at \<Rightarrow>
          if \<not> has_prefix i prefix \<or> at < low then None
          else (case parse_int64 (drop (at + 2) i) of
                  None \<Rightarrow> None
                | Some r \<Rightarrow> if r > 0 then Some r else None))"

definition landingProxyTaskRevision :: "string \<Rightarrow> int option" where
  "landingProxyTaskRevision i = task_revision ''landing-proxy-'' ''-r'' (length ''landing-proxy-'' + 1) i"

definition landingServerTaskRevision :: "string \<Rightarrow> int option" where
  "landingServerTaskRevision i = task_revision ''landing-server-'' ''-r'' (length ''landing-server-'' + 1) i"

definition gatewayTaskRevision :: "string \<Rightarrow> int option" where
  "gatewayTaskRevision i = task_revision ''gateway-route-'' ''-r'' (length ''gateway-route-'') i"

definition nodeListenerTaskRevision :: "string \<Rightarrow> int option" where
  "nodeListenerTaskRevision i = task_revision ''node-listener-'' ''-r'' (length ''node-listener-'') i"

definition tunnelTaskRevision :: "string \<Rightarrow> int option" where
  "tunnelTaskRevision i = task_revision ''tunnel-'' ''-r'' (length ''tunnel-'' + 1) i"

definition gatewayComponentTaskGeneration :: "string \<Rightarrow> int option" where
  "gatewayComponentTaskGeneration i = task_revision ''gateway-component-'' ''-g'' (length ''gateway-component-'') i"

lemma int_str_no_dash: "0 < r \<Longrightarrow> CHR ''-'' \<notin> set (int_str r)"
  using nat_str_no_sign [of "CHR ''-''" "nat r"] by (auto simp: int_str_def)

lemma task_revision_print:
  assumes "0 < r" "r < 2 ^ 63" "low \<le> length prefix + length node" "m \<noteq> CHR ''-''"
  shows "task_revision prefix [CHR ''-'', m] low (prefix @ node @ [CHR ''-'', m] @ int_str r) = Some r"
proof -
  have "last_index ((prefix @ node) @ CHR ''-'' # m # int_str r) [CHR ''-'', m] = Some (length (prefix @ node))"
    using last_index_last [of "CHR ''-''" m "int_str r" "prefix @ node"] int_str_no_dash assms by simp
  moreover have "has_prefix (prefix @ node @ CHR ''-'' # m # int_str r) prefix"
    by (simp add: has_prefix_iff)
  moreover have "parse_int64 (int_str r) = Some r" using assms by (intro parse_int64_int_str) auto
  ultimately show ?thesis using assms by (simp add: task_revision_def)
qed

section \<open>Statements on one attempt\<close>

datatype row_key = ById | ByRevision | ByAgent

datatype reconciliation = KeepFlags | ClearRequired | ClearBoth

text \<open>Further conditions of a \<^verbatim>\<open>WHERE\<close> clause, on the row and the other tables.\<close>

datatype row_condition = Always | NoBootGrant | NewestOfApplication | NewestMaintenance | CurrentSiteRevision

record statement =
  st_table :: task_table
  st_key :: row_key
  st_from :: "string list"
  st_to :: string
  st_error :: "string option"
  st_flags :: reconciliation
  st_clear_token :: bool
  st_close :: bool                  \<comment> \<open>clears the lease and stamps \<^verbatim>\<open>updated_at\<close>\<close>
  st_condition :: row_condition

definition boot_granted :: "center \<Rightarrow> task_row \<Rightarrow> bool" where
  "boot_granted c r =
     list_ex (\<lambda>x. ex_task_id x = tr_id r \<and> ex_agent_id x = tr_agent r \<and> ex_attempt x = tr_attempt r \<and>
       list_ex (\<lambda>ev. ev_execution_id ev = ex_id x \<and> (ev_phase ev = ''reinstall_armed'' \<or> ev_state ev = HelperRunning))
         (execution_events c)) (executions c)"

definition newer_row :: "center \<Rightarrow> task_table \<Rightarrow> string \<Rightarrow> nat \<Rightarrow> bool" where
  "newer_row c t app n =
     list_ex (\<lambda>x. tr_table x = t \<and> tr_application x = app \<and> n < tr_rowid x) (tasks c)"

fun row_condition_holds :: "center \<Rightarrow> row_condition \<Rightarrow> task_row \<Rightarrow> bool" where
  "row_condition_holds c Always r = True"
| "row_condition_holds c NoBootGrant r =
     ((tr_state r = ''failed'' \<or> tr_state r = ''unknown'' \<and> tr_backup r = [] \<and> tr_network r = []) \<and>
      \<not> boot_granted c r)"
| "row_condition_holds c NewestOfApplication r =
     (\<not> newer_row c (tr_table r) (tr_application r) (tr_rowid r))"
| "row_condition_holds c NewestMaintenance r =
     (\<not> newer_row c (tr_table r) (tr_application r) (tr_rowid r) \<and>
      (case find (\<lambda>x. tr_table x = Deployments \<and> tr_id x = tr_deployment r) (tasks c) of
         None \<Rightarrow> True      \<comment> \<open>the comparison with NULL is never true\<close>
       | Some d \<Rightarrow> \<not> newer_row c Deployments (tr_application r) (tr_rowid d)))"
| "row_condition_holds c CurrentSiteRevision r =
     (case find (\<lambda>x. ns_application_id x = tr_application r) (node_sites c) of
        None \<Rightarrow> False | Some x \<Rightarrow> tr_revision r = ns_revision x)"

definition statement_matches :: "center \<Rightarrow> statement \<Rightarrow> agent_task \<Rightarrow> string \<Rightarrow> task_row \<Rightarrow> bool" where
  "statement_matches c st task agentID r =
     (tr_table r = st_table st \<and> tr_agent r = agentID \<and> tr_attempt r = at_attempt task \<and>
      tr_state r \<in> set (st_from st) \<and>
      (case st_key st of ById \<Rightarrow> tr_id r = at_id task | ByRevision \<Rightarrow> tr_revision r = at_revision task | ByAgent \<Rightarrow> True) \<and>
      row_condition_holds c (st_condition st) r)"

definition statement_row :: "stamp \<Rightarrow> statement \<Rightarrow> task_row \<Rightarrow> task_row" where
  "statement_row now st r =
     r\<lparr>tr_state := st_to st,
       tr_error := (case st_error st of None \<Rightarrow> tr_error r | Some m \<Rightarrow> m),
       tr_reconciliation_required := (if st_flags st = KeepFlags then tr_reconciliation_required r else False),
       tr_reconciliation_requested := (if st_flags st = ClearBoth then False else tr_reconciliation_requested r),
       tr_token_hash := (if st_clear_token st then [] else tr_token_hash r),
       tr_lease_expires_at := (if st_close st then NoStamp else tr_lease_expires_at r),
       tr_updated_at := (if st_close st then now else tr_updated_at r)\<rparr>"

definition statement_rows :: "center \<Rightarrow> statement \<Rightarrow> agent_task \<Rightarrow> string \<Rightarrow> nat" where
  "statement_rows c st task agentID = rows_affected (statement_matches c st task agentID) (tasks c)"

definition run_statement :: "stamp \<Rightarrow> statement \<Rightarrow> agent_task \<Rightarrow> string \<Rightarrow> center \<Rightarrow> center" where
  "run_statement now st task agentID c =
     update_task_rows (statement_matches c st task agentID) (statement_row now st) c"

definition diagnostic_kinds :: "string list" where
  "diagnostic_kinds =
     [''node.network-quality'', ''node.return-route'', ''node.international-bandwidth'',
      ''node.host-profile'', ''meridian.link-bandwidth'', ''meridian.link-bandwidth-server'']"

definition by_id :: "task_table \<Rightarrow> string list \<Rightarrow> string \<Rightarrow> string \<Rightarrow> statement" where
  "by_id t from to err =
     \<lparr>st_table = t, st_key = ById, st_from = from, st_to = to, st_error = Some err, st_flags = KeepFlags,
      st_clear_token = False, st_close = True, st_condition = Always\<rparr>"

definition by_revision :: "task_table \<Rightarrow> string list \<Rightarrow> string \<Rightarrow> statement" where
  "by_revision t from to =
     \<lparr>st_table = t, st_key = ByRevision, st_from = from, st_to = to, st_error = None, st_flags = KeepFlags,
      st_clear_token = False, st_close = True, st_condition = Always\<rparr>"

abbreviation open_states :: "string list" where
  "open_states \<equiv> [''running'', ''failed'', ''pending'']"

abbreviation applying_states :: "string list" where
  "applying_states \<equiv> [''applying'', ''failed'', ''pending'']"

text \<open>The tables whose rows hold a desired revision, by task kind.\<close>

definition revision_table :: "string \<Rightarrow> task_table option" where
  "revision_table kind =
     (if kind = ''landing.proxy.apply'' then Some LandingProxyStates
      else if kind = ''landing.server.apply'' then Some LandingServerStates
      else if kind = ''gateway.routes.apply'' then Some GatewayStates
      else if kind = ''gateway.component.apply'' then Some GatewayComponents
      else if kind = ''node.listener.apply'' then Some NodeListenerStates
      else if kind = ''tunnel.state.apply'' then Some CloudflareTunnels
      else None)"

definition executionAbandonStatement :: "agent_task \<Rightarrow> center_error + statement" where
  "executionAbandonStatement task =
     (let k = at_kind task in
      if k = ''node.os-reinstall'' then
        Inr ((by_id OSReinstallTasks [''failed'', ''unknown''] ''cancelled'' [])\<lparr>st_error := None, st_condition := NoBootGrant\<rparr>)
      else if k = ''tailscale.update'' then
        Inr (by_id TailscaleUpdateTasks open_states ''abandoned'' ''abandoned after operator review'')
      else if k = ''node.site.certificate'' then
        Inr (by_id NodeSiteTasks open_states ''failed'' ''Abandoned; inspect recovered website state'')
      else if k = ''node.security'' then
        Inr (by_id NodeSecurityTasks open_states ''failed'' ''abandoned; inspect host rollback state'')
      else if k = ''node.ip-quality'' then Inr (by_id IPQualityChecks open_states ''failed'' ''abandoned'')
      else if k \<in> set diagnostic_kinds then Inr (by_id NodeDiagnosticChecks open_states ''failed'' ''abandoned'')
      else if xray_recovery_kind k then
        Inr (by_id XrayConfigurationRecoveries open_states ''failed'' ''abandoned'')
      else if k = ''application.apply'' then
        Inr ((by_id Deployments open_states ''failed'' ''Abandoned by operator'')\<lparr>st_flags := ClearBoth\<rparr>)
      else if k = ''application.adopt'' then
        Inr (by_id ApplicationAdoptions open_states ''failed'' ''Abandoned by operator'')
      else if k = ''application.maintenance'' then
        Inr ((by_id ApplicationMaintenance open_states ''failed''
               ''Abandoned by operator; retained instance evidence requires verification'')\<lparr>st_flags := ClearRequired\<rparr>)
      else if k = ''application.command'' then
        Inr ((by_id ApplicationCommands open_states ''failed'' ''Abandoned by operator'')\<lparr>st_flags := ClearBoth\<rparr>)
      else (case revision_table k of
              Some t \<Rightarrow> Inr (by_revision t applying_states ''failed'')
            | None \<Rightarrow> Inl (CenterError ''center: this execution requires its dedicated resolution workflow'')))"

definition executionRequeueStatement :: "agent_task \<Rightarrow> center_error + statement" where
  "executionRequeueStatement task =
     (let k = at_kind task in
      if k = ''node.site.certificate'' then
        Inl (CenterError ''center: inspect the restored website after abandoning the uncertain execution; request a fresh revision'')
      else if k = ''tailscale.update'' then
        Inl (CenterError ''center: inspect the Tailscale update before issuing a fresh operation'')
      else if k = ''node.security'' then
        Inl (CenterError ''center: inspect the host security checkpoint before issuing a fresh operation'')
      else if k = ''application.maintenance'' then
        Inl (CenterError ''center: uncertain package maintenance cannot be replayed; inspect retained resource and backup evidence'')
      else if k = ''node.ip-quality'' then Inr (by_id IPQualityChecks open_states ''pending'' [])
      else if k \<in> set diagnostic_kinds then Inr (by_id NodeDiagnosticChecks open_states ''pending'' [])
      else if xray_recovery_kind k then Inr (by_id XrayConfigurationRecoveries open_states ''pending'' [])
      else if k = ''application.apply'' then
        Inr ((by_id Deployments open_states ''pending'' [])\<lparr>st_flags := ClearBoth\<rparr>)
      else if k = ''application.adopt'' then Inr (by_id ApplicationAdoptions open_states ''pending'' [])
      else if k = ''application.command'' then
        Inr ((by_id ApplicationCommands open_states ''pending'' [])\<lparr>st_flags := ClearBoth\<rparr>)
      else if k = ''agent.update'' then
        Inr (by_id AgentUpdates (open_states @ [''installing'']) ''pending'' [])
      else if k = ''agent.decommission'' then
        Inr ((by_id AgentDecommissions (open_states @ [''cleaning'']) ''pending'' [])\<lparr>st_key := ByAgent, st_clear_token := True\<rparr>)
      else (case revision_table k of
              Some t \<Rightarrow> Inr (by_revision t applying_states ''pending'')
            | None \<Rightarrow> Inl (CenterError ''center: unsupported execution kind'')))"

text \<open>
  Reopening an attempt so that its retained result can be projected. Only the state column is
  written; a newer row of the same application forbids it.
\<close>

definition reopen :: "task_table \<Rightarrow> row_condition \<Rightarrow> statement" where
  "reopen t cond =
     \<lparr>st_table = t, st_key = ById, st_from = [''running'', ''failed''], st_to = ''running'', st_error = None,
      st_flags = KeepFlags, st_clear_token = False, st_close = False, st_condition = cond\<rparr>"

definition reopen_revision :: "task_table \<Rightarrow> statement" where
  "reopen_revision t =
     (reopen t Always)\<lparr>st_key := ByRevision, st_from := [''applying'', ''failed''], st_to := ''applying''\<rparr>"

definition revision_task_id :: "string \<Rightarrow> string \<Rightarrow> int \<Rightarrow> string" where
  "revision_task_id kind agentID revision =
     (if kind = ''landing.server.apply'' then landingServerTaskID agentID revision
      else if kind = ''landing.proxy.apply'' then landingProxyTaskID agentID revision
      else if kind = ''gateway.routes.apply'' then gatewayRouteTaskID agentID revision
      else if kind = ''gateway.component.apply'' then gatewayComponentTaskID agentID revision
      else if kind = ''node.listener.apply'' then nodeListenerTaskID agentID revision
      else tunnelTaskID agentID revision)"

definition executionConfirmationStatement :: "agent_task \<Rightarrow> string \<Rightarrow> center_error + statement" where
  "executionConfirmationStatement task agentID =
     (let k = at_kind task in
      if k = ''node.site.certificate'' then Inr (reopen NodeSiteTasks CurrentSiteRevision)
      else if k = ''application.maintenance'' then Inr (reopen ApplicationMaintenance NewestMaintenance)
      else if k = ''application.adopt'' then Inr (reopen ApplicationAdoptions Always)
      else if k = ''application.command'' then Inr (reopen ApplicationCommands NewestOfApplication)
      else if k = ''application.apply'' then Inr (reopen Deployments NewestOfApplication)
      else (case revision_table k of
              None \<Rightarrow> Inl (CenterError ''center: this execution requires its dedicated resolution workflow'')
            | Some t \<Rightarrow>
                if at_revision task \<le> 0 \<or> at_id task \<noteq> revision_task_id k agentID (at_revision task)
                then Inl ExecutionAuthorization
                else Inr (reopen_revision t)))"

section \<open>The business outcome an execution may claim\<close>

text \<open>\<^verbatim>\<open>validateExecutionProjection\<close>: the columns it reads, by task kind.\<close>

definition projection_table :: "string \<Rightarrow> (task_table \<times> row_key) option" where
  "projection_table kind =
     (if kind = ''tailscale.update'' then Some (TailscaleUpdateTasks, ById)
      else if kind = ''node.site.certificate'' then Some (NodeSiteTasks, ById)
      else if kind = ''node.os-reinstall'' then Some (OSReinstallTasks, ById)
      else if kind = ''node.security'' then Some (NodeSecurityTasks, ById)
      else if kind = ''node.ip-quality'' then Some (IPQualityChecks, ById)
      else if kind \<in> set diagnostic_kinds then Some (NodeDiagnosticChecks, ById)
      else if xray_recovery_kind kind then Some (XrayConfigurationRecoveries, ById)
      else if kind = ''application.apply'' then Some (Deployments, ById)
      else if kind = ''application.adopt'' then Some (ApplicationAdoptions, ById)
      else if kind = ''application.maintenance'' then Some (ApplicationMaintenance, ById)
      else if kind = ''application.command'' then Some (ApplicationCommands, ById)
      else if kind = ''agent.update'' then Some (AgentUpdates, ById)
      else if kind = ''agent.decommission'' then Some (AgentDecommissions, ByAgent)
      else map_option (\<lambda>t. (t, ByAgent)) (revision_table kind))"

definition projection_row :: "center \<Rightarrow> execution \<Rightarrow> task_table \<Rightarrow> row_key \<Rightarrow> task_row option" where
  "projection_row c x t key =
     find (\<lambda>r. tr_table r = t \<and> tr_agent r = ex_agent_id x \<and> tr_attempt r = ex_attempt x \<and>
       (key = ById \<longrightarrow> tr_id r = ex_task_id x)) (tasks c)"

definition no_rows :: center_error where
  "no_rows = CenterError ''sql: no rows in result set''"

definition landing_revision :: "string \<Rightarrow> string \<Rightarrow> center_error + int" where
  "landing_revision kind taskID =
     (if kind = ''landing.proxy.apply''
      then (case landingProxyTaskRevision taskID of
              None \<Rightarrow> Inl (CenterError ''center: invalid landing proxy task revision'') | Some r \<Rightarrow> Inr r)
      else (case landingServerTaskRevision taskID of
              None \<Rightarrow> Inl (CenterError ''center: invalid landing server task revision'') | Some r \<Rightarrow> Inr r))"

definition projection_state :: "center \<Rightarrow> execution \<Rightarrow> bool \<Rightarrow> center_error + string" where
  "projection_state c x succeeded =
     (case projection_table (ex_kind x) of
        None \<Rightarrow> Inl (CenterError ''center: unsupported execution projection'')
      | Some (t, key) \<Rightarrow>
          (let landing = (succeeded \<and> (t = LandingProxyStates \<or> t = LandingServerStates)) in
           case (if landing then landing_revision (ex_kind x) (ex_task_id x) else Inr 0) of
             Inl err \<Rightarrow> Inl err
           | Inr revision \<Rightarrow>
               (case projection_row c x t key of
                  None \<Rightarrow> Inl no_rows
                | Some r \<Rightarrow>
                    Inr (if landing \<and> revision \<le> tr_applied_revision r then ''ready'' else tr_state r))))"

definition LegacyExportKind :: string where
  "LegacyExportKind = ''meridian.legacy.export''"

definition validateExecutionProjection :: "center \<Rightarrow> string \<Rightarrow> bool \<Rightarrow> center_error option" where
  "validateExecutionProjection c i succeeded =
     (case find (\<lambda>x. ex_id x = i) (executions c) of
        None \<Rightarrow> Some no_rows
      | Some x \<Rightarrow>
          (case projection_state c x succeeded of
             Inl err \<Rightarrow> Some err
           | Inr state \<Rightarrow>
               if succeeded \<and> state \<in> {''succeeded'', ''awaiting_decision'', ''ready'', ''stopped''} \<or>
                  \<not> succeeded \<and> state = ''failed'' then None
               else if \<not> succeeded \<and> ex_kind x = ''node.os-reinstall'' \<and> state = ''unknown'' then None
               else if succeeded \<and> ex_kind x = ''application.command'' \<and> state = ''failed'' \<and>
                  (case projection_row c x ApplicationCommands ById of
                     None \<Rightarrow> False
                   | Some r \<Rightarrow>
                       tr_kind r = LegacyExportKind \<and>
                       (has_prefix (tr_error r) ''center: Meridian import failed:'' \<or>
                        tr_error r = ''center: Agent returned an invalid Meridian legacy export'')) then None
               else Some (CenterError ''center: execution result does not match the business projection'')))"

end
