(* ===== verification/Task_Leases.thy ===== *)
theory Task_Leases
  imports Task_Tables
begin

text \<open>
  The leases of claimed tasks, from src/internal/center/tasks.go: giving a claim back
  (\<^verbatim>\<open>releaseClaimedTask\<close>), extending it (\<^verbatim>\<open>RenewTaskLease\<close>) and failing the tasks whose lease ran
  out (\<^verbatim>\<open>recoverExpiredTasks\<close>).
\<close>

section \<open>Releasing a claim\<close>

definition release_by_id :: "task_table \<Rightarrow> statement" where
  "release_by_id t = (by_id t [''running''] ''pending'' [])\<lparr>st_error := None\<rparr>"

definition release_statement :: "agent_task \<Rightarrow> center_error + statement" where
  "release_statement task =
     (let k = at_kind task in
      if k = ''tailscale.update'' then Inr (release_by_id TailscaleUpdateTasks)
      else if k = ''node.site.certificate'' then Inr (release_by_id NodeSiteTasks)
      else if k = ''node.os-reinstall'' then Inr (release_by_id OSReinstallTasks)
      else if k = ''node.security'' then Inr (release_by_id NodeSecurityTasks)
      else if k = ''node.ip-quality'' then Inr (release_by_id IPQualityChecks)
      else if k \<in> set diagnostic_kinds then Inr (release_by_id NodeDiagnosticChecks)
      else if xray_recovery_kind k then Inr (release_by_id XrayConfigurationRecoveries)
      else if k = ''application.command'' then Inr (release_by_id ApplicationCommands)
      else if k = ''agent.decommission'' then
        Inr ((release_by_id AgentDecommissions)\<lparr>st_key := ByAgent, st_clear_token := True\<rparr>)
      else if k = ''agent.update'' then Inr (release_by_id AgentUpdates)
      else if k = ''application.apply'' then Inr (release_by_id Deployments)
      else if k = ''application.adopt'' then Inr (release_by_id ApplicationAdoptions)
      else if k = ''application.maintenance'' then Inr (release_by_id ApplicationMaintenance)
      else (case revision_table k of
              Some t \<Rightarrow> Inr (by_revision t [''applying''] ''pending'')
            | None \<Rightarrow> Inl (CenterError ''center: cannot release unsupported claimed task kind'')))"

text \<open>
  The attempt of a reinstallation is one-use: its claim is matched with the literal attempt 1 and
  reset to 0.
\<close>

definition release_rows :: "center \<Rightarrow> stamp \<Rightarrow> agent_task \<Rightarrow> string \<Rightarrow> statement \<Rightarrow> (task_row \<Rightarrow> bool) \<times> (task_row \<Rightarrow> task_row)" where
  "release_rows c now task agentID st =
     (if at_kind task = ''node.os-reinstall''
      then (statement_matches c st (task\<lparr>at_attempt := 1\<rparr>) agentID, \<lambda>r. (statement_row now st r)\<lparr>tr_attempt := 0\<rparr>)
      else (statement_matches c st task agentID, statement_row now st))"

definition update_mirrors :: "(mirror_row \<Rightarrow> bool) \<Rightarrow> (mirror_row \<Rightarrow> mirror_row) \<Rightarrow> center \<Rightarrow> center" where
  "update_mirrors P f c = c\<lparr>mirrors := sql_update P f (mirrors c)\<rparr>"

definition update_applications :: "(application_row \<Rightarrow> bool) \<Rightarrow> (application_row \<Rightarrow> application_row) \<Rightarrow> center \<Rightarrow> center" where
  "update_applications P f c = c\<lparr>applications := sql_update P f (applications c)\<rparr>"

definition release_mirrors :: "stamp \<Rightarrow> agent_task \<Rightarrow> string \<Rightarrow> center \<Rightarrow> center" where
  "release_mirrors now task agentID c =
     (let pending = (\<lambda>r. r\<lparr>mr_status := ''pending'', mr_updated_at := now\<rparr>) in
      if at_kind task = ''application.command'' then
        (case at_node_worker task of
           None \<Rightarrow> c
         | Some w \<Rightarrow> update_mirrors (\<lambda>r. mr_table r = ThreeXUINodes \<and> mr_key r = w \<and> mr_status r = ''applying'') pending c)
      else if at_kind task = ''gateway.routes.apply'' then
        update_mirrors (\<lambda>r. mr_table r = Routes \<and> mr_key r = agentID \<and> mr_desired_revision r = at_revision task \<and>
          mr_status r = ''applying'') pending c
      else if at_kind task = ''application.apply'' then
        update_applications (\<lambda>r. ap_id r = at_application_id task \<and> ap_status r = ''deploying'')
          (\<lambda>r. r\<lparr>ap_status := ''pending'', ap_updated_at := now\<rparr>) c
      else c)"

definition releaseClaimedTask :: "env \<Rightarrow> string \<Rightarrow> agent_task \<Rightarrow> center \<Rightarrow> outcome" where
  "releaseClaimedTask e agentID task c =
     (if trim_space agentID = [] \<or> trim_space (at_id task) = [] \<or> at_attempt task \<le> 0
      then (c, Some (CenterError ''center: claimed task identity is invalid''))
      else transact c
        (case release_statement task of
           Inl err \<Rightarrow> Inl err
         | Inr st \<Rightarrow>
             (let (P, f) = release_rows c (now_stamp e) task agentID st in
              if rows_affected P (tasks c) \<noteq> 1
              then Inl (CenterError ''center: claimed task changed before its lease could be released'')
              else recordTaskEvent e (at_id task) agentID (at_kind task) (at_revision task) ''released''
                     ''task encryption failed before delivery''
                     (release_mirrors (now_stamp e) task agentID (update_task_rows P f c)))))"

section \<open>Extending a lease\<close>

text \<open>The table, the key and the states a task id is renewed in; \<open>None\<close> is a foreign landing id.\<close>

definition lease_target :: "string \<Rightarrow> string \<Rightarrow> (task_table \<times> row_key \<times> int \<times> string list) option" where
  "lease_target agentID taskID =
     (let running = [''running'']; applying = [''applying''];
          byid = (\<lambda>t. Some (t, ById, 0, running)); byrev = (\<lambda>t r. Some (t, ByRevision, r, applying)) in
      if has_prefix taskID ''node-site-'' then byid NodeSiteTasks
      else if has_prefix taskID ''os-reinstall-'' then Some (OSReinstallTasks, ById, 0, [''running'', ''backup_ready''])
      else if has_prefix taskID ''node-security-'' then byid NodeSecurityTasks
      else if has_prefix taskID ''application-maintenance-'' then byid ApplicationMaintenance
      else if has_prefix taskID ''application-adopt-'' then byid ApplicationAdoptions
      else if has_prefix taskID ''ip-quality-'' then byid IPQualityChecks
      else if has_prefix taskID ''node-diagnostic-'' then byid NodeDiagnosticChecks
      else if has_prefix taskID ''xray-recovery-'' then byid XrayConfigurationRecoveries
      else case landingProxyTaskRevision taskID of
        Some r \<Rightarrow> if taskID \<noteq> landingProxyTaskID agentID r then None else byrev LandingProxyStates r
      | None \<Rightarrow> case landingServerTaskRevision taskID of
        Some r \<Rightarrow> if taskID \<noteq> landingServerTaskID agentID r then None else byrev LandingServerStates r
      | None \<Rightarrow>
          if has_prefix taskID ''application-command-'' then byid ApplicationCommands
          else if taskID = agentDecommissionTaskID agentID then Some (AgentDecommissions, ByAgent, 0, running)
          else if has_prefix taskID ''tailscale-update-'' then byid TailscaleUpdateTasks
          else if has_prefix taskID ''agent-update-'' then byid AgentUpdates
          else case gatewayTaskRevision taskID of Some r \<Rightarrow> byrev GatewayStates r
      | None \<Rightarrow> case nodeListenerTaskRevision taskID of Some r \<Rightarrow> byrev NodeListenerStates r
      | None \<Rightarrow> case tunnelTaskRevision taskID of Some r \<Rightarrow> byrev CloudflareTunnels r
      | None \<Rightarrow> case gatewayComponentTaskGeneration taskID of Some r \<Rightarrow> byrev GatewayComponents r
      | None \<Rightarrow> byid Deployments)"

definition lease_guard :: "env \<Rightarrow> string \<Rightarrow> string \<Rightarrow> int \<Rightarrow> task_table \<times> row_key \<times> int \<times> string list \<Rightarrow> task_row \<Rightarrow> bool" where
  "lease_guard e agentID taskID attempt target r =
     (case target of (t, key, revision, states) \<Rightarrow>
        tr_table r = t \<and> tr_agent r = agentID \<and> tr_attempt r = attempt \<and> tr_state r \<in> set states \<and>
        (case key of ById \<Rightarrow> tr_id r = taskID | ByRevision \<Rightarrow> tr_revision r = revision | ByAgent \<Rightarrow> True) \<and>
        now_stamp e < tr_lease_expires_at r)"

definition lease_set :: "env \<Rightarrow> task_row \<Rightarrow> task_row" where
  "lease_set e r = r\<lparr>tr_lease_expires_at := stamp_of (e_now e + taskLeaseDuration), tr_updated_at := now_stamp e\<rparr>"

definition RenewTaskLease :: "env \<Rightarrow> string \<Rightarrow> string \<Rightarrow> string \<Rightarrow> int \<Rightarrow> center \<Rightarrow> outcome" where
  "RenewTaskLease e agentID credential taskID expectedAttempt c =
     (if expectedAttempt \<le> 0 \<or> trim_space taskID = [] then (c, Some StaleTaskLease)
      else case authenticateAgentInQuery e c agentID credential of
        Some err \<Rightarrow> (c, Some err)
      | None \<Rightarrow>
          (case lease_target agentID taskID of
             None \<Rightarrow> (c, Some StaleTaskLease)
           | Some target \<Rightarrow>
               transact c (update_one_task StaleTaskLease (lease_guard e agentID taskID expectedAttempt target) (lease_set e) c)))"

section \<open>Expired leases\<close>

definition lease_expired :: "stamp \<Rightarrow> string \<Rightarrow> task_table \<Rightarrow> string list \<Rightarrow> task_row \<Rightarrow> bool" where
  "lease_expired now agentID t states r =
     (tr_table r = t \<and> tr_agent r = agentID \<and> tr_state r \<in> set states \<and>
      tr_lease_expires_at r \<noteq> NoStamp \<and> tr_lease_expires_at r \<le> now)"

text \<open>
  The queries of \<^verbatim>\<open>recoverExpiredTasks\<close> in their order: the table, the states, a further filter on
  \<^verbatim>\<open>kind\<close> or \<^verbatim>\<open>action\<close>, the task id and revision of a row, and the task kind.
\<close>

record expiry_query =
  eq_table :: task_table
  eq_states :: "string list"
  eq_filter :: "task_row \<Rightarrow> bool"
  eq_task_id :: "task_row \<Rightarrow> string"
  eq_revision :: "task_row \<Rightarrow> int"
  eq_kind :: string

definition expiry_by_id :: "task_table \<Rightarrow> (task_row \<Rightarrow> bool) \<Rightarrow> (task_row \<Rightarrow> int) \<Rightarrow> string \<Rightarrow> expiry_query" where
  "expiry_by_id t P n k =
     \<lparr>eq_table = t, eq_states = [''running''], eq_filter = P, eq_task_id = tr_id, eq_revision = n, eq_kind = k\<rparr>"

definition expiry_by_revision :: "task_table \<Rightarrow> (string \<Rightarrow> int \<Rightarrow> string) \<Rightarrow> string \<Rightarrow> expiry_query" where
  "expiry_by_revision t i k =
     \<lparr>eq_table = t, eq_states = [''applying''], eq_filter = (\<lambda>_. True),
      eq_task_id = (\<lambda>r. i (tr_agent r) (tr_revision r)), eq_revision = tr_revision, eq_kind = k\<rparr>"

definition expiry_queries :: "expiry_query list" where
  "expiry_queries =
     (let any = (\<lambda>_. True); one = (\<lambda>_. 1) in
      [expiry_by_id TailscaleUpdateTasks any one ''tailscale.update'',
       expiry_by_id NodeSiteTasks any tr_revision ''node.site.certificate'',
       (expiry_by_id OSReinstallTasks any one ''node.os-reinstall'')\<lparr>eq_states := [''running'', ''backup_ready'']\<rparr>,
       expiry_by_id NodeSecurityTasks any one ''node.security'',
       expiry_by_id IPQualityChecks any one ''node.ip-quality''] @
      map (\<lambda>k. expiry_by_id NodeDiagnosticChecks (\<lambda>r. tr_kind r = k) tr_revision k) diagnostic_kinds @
      [expiry_by_id XrayConfigurationRecoveries (\<lambda>r. tr_kind r = ''inspect'') one ''xray.configuration.inspect'',
       expiry_by_id XrayConfigurationRecoveries (\<lambda>r. tr_kind r \<noteq> ''inspect'') one ''xray.configuration.apply'',
       expiry_by_id Deployments any one ''application.apply'',
       expiry_by_id ApplicationAdoptions any one ''application.adopt'',
       expiry_by_id ApplicationMaintenance any one ''application.maintenance'',
       expiry_by_revision LandingProxyStates landingProxyTaskID ''landing.proxy.apply'',
       expiry_by_revision LandingServerStates landingServerTaskID ''landing.server.apply'',
       expiry_by_id ApplicationCommands any one ''application.command'',
       expiry_by_revision GatewayComponents gatewayComponentTaskID ''gateway.component.apply'',
       expiry_by_revision GatewayStates gatewayRouteTaskID ''gateway.routes.apply'',
       expiry_by_revision NodeListenerStates nodeListenerTaskID ''node.listener.apply'',
       expiry_by_revision CloudflareTunnels tunnelTaskID ''tunnel.state.apply'',
       (expiry_by_id AgentDecommissions any one ''agent.decommission'')\<lparr>eq_task_id := \<lambda>r. agentDecommissionTaskID (tr_agent r)\<rparr>,
       expiry_by_id AgentUpdates any one ''agent.update''])"

definition expired_of :: "stamp \<Rightarrow> string \<Rightarrow> center \<Rightarrow> expiry_query \<Rightarrow> (string \<times> string \<times> int) list" where
  "expired_of now agentID c q =
     map (\<lambda>r. (eq_task_id q r, eq_kind q, eq_revision q r))
       (filter (\<lambda>r. lease_expired now agentID (eq_table q) (eq_states q) r \<and> eq_filter q r) (tasks c))"

definition expired_tasks :: "stamp \<Rightarrow> string \<Rightarrow> center \<Rightarrow> (string \<times> string \<times> int) list" where
  "expired_tasks now agentID c = concat (map (expired_of now agentID c) expiry_queries)"

definition interrupted :: string where
  "interrupted = ''Execution interrupted; manual verification required''"

definition update_interrupted :: string where
  "update_interrupted = ''Agent update interrupted; manual verification required''"

definition site_interrupted :: string where
  "site_interrupted = ''Interrupted; inspect recovered website state''"

text \<open>What expiry writes into each table: the states it ends, the new state, the error, and whether the row now needs reconciliation.\<close>

definition expiry_write :: "task_table \<Rightarrow> string list \<times> string \<times> string \<times> bool" where
  "expiry_write t =
     (case t of
        ApplicationMaintenance \<Rightarrow> ([''running''], ''failed'', ''Package maintenance interrupted; operator verification required'', True)
      | ApplicationAdoptions \<Rightarrow> ([''running''], ''failed'', ''Resource inspection interrupted; operator verification required'', False)
      | IPQualityChecks \<Rightarrow> ([''running''], ''failed'', ''interrupted'', False)
      | NodeDiagnosticChecks \<Rightarrow> ([''running''], ''failed'', ''interrupted'', False)
      | NodeSiteTasks \<Rightarrow> ([''running''], ''failed'', site_interrupted, False)
      | OSReinstallTasks \<Rightarrow> ([''running'', ''backup_ready''], ''unknown'', ''Reinstall execution interrupted; review required'', False)
      | NodeSecurityTasks \<Rightarrow> ([''running''], ''failed'', ''interrupted; inspect host security checkpoint'', False)
      | XrayConfigurationRecoveries \<Rightarrow> ([''running''], ''failed'', ''interrupted'', False)
      | Deployments \<Rightarrow> ([''running''], ''failed'', interrupted, True)
      | ApplicationCommands \<Rightarrow> ([''running''], ''failed'', interrupted, True)
      | TailscaleUpdateTasks \<Rightarrow> ([''running''], ''failed'', ''Update dispatch interrupted; inspect the host before retrying'', False)
      | AgentDecommissions \<Rightarrow> ([''running''], ''failed'', interrupted, False)
      | AgentUpdates \<Rightarrow> ([''running''], ''failed'', update_interrupted, False)
      | _ \<Rightarrow> ([''applying''], ''failed'', interrupted, False))"

definition expire_row :: "stamp \<Rightarrow> string \<Rightarrow> task_row \<Rightarrow> task_row" where
  "expire_row now agentID r =
     (case expiry_write (tr_table r) of (states, to, err, reconcile) \<Rightarrow>
        if lease_expired now agentID (tr_table r) states r
        then r\<lparr>tr_state := to, tr_error := err, tr_lease_expires_at := NoStamp, tr_updated_at := now,
               tr_reconciliation_required := (reconcile \<or> tr_reconciliation_required r)\<rparr>
        else r)"

definition meridian_apply_kind :: string where
  "meridian_apply_kind = ''meridian.runtime.apply''"

definition interrupted_command :: "string \<Rightarrow> task_row \<Rightarrow> bool" where
  "interrupted_command agentID r =
     (tr_table r = ApplicationCommands \<and> tr_agent r = agentID \<and> tr_kind r = meridian_apply_kind \<and>
      tr_state r = ''failed'' \<and> tr_reconciliation_required r \<and> tr_error r = interrupted)"

definition retiring :: "center \<Rightarrow> bool" where
  "retiring c =
     (case meridian_cutover c of None \<Rightarrow> False
      | Some u \<Rightarrow> cu_state u = ''retire'' \<and> cu_authority u = ''meridian'')"

definition expire_resources :: "stamp \<Rightarrow> string \<Rightarrow> center \<Rightarrow> center" where
  "expire_resources now agentID c =
     (let maintained = (\<lambda>a. list_ex (\<lambda>r. tr_application r = a \<and> tr_action r \<noteq> ''logs'' \<and>
            lease_expired now agentID ApplicationMaintenance [''running''] r) (tasks c));
          adopted = (\<lambda>a. list_ex (\<lambda>r. tr_application r = a \<and>
            lease_expired now agentID ApplicationAdoptions [''running''] r) (tasks c));
          block = (\<lambda>m r. r\<lparr>mr_status := ''blocked'', mr_last_error := m, mr_updated_at := now\<rparr>)
      in update_mirrors (\<lambda>r. mr_table r = ApplicationResources \<and> adopted (mr_key r))
           (block ''Resource inspection interrupted; operator verification required'')
          (update_mirrors (\<lambda>r. mr_table r = ApplicationResources \<and> maintained (mr_key r))
            (block ''Package maintenance interrupted; operator verification required'') c))"

definition mirror_keeps :: "center \<Rightarrow> mirror_row \<Rightarrow> bool" where
  "mirror_keeps c r = (mr_runtime_healthy r \<and> mr_desired_revision r = mr_applied_revision r \<and> retiring c)"

definition expire_meridian :: "stamp \<Rightarrow> string \<Rightarrow> center \<Rightarrow> center" where
  "expire_meridian now agentID c =
     (let cmds = filter (interrupted_command agentID) (tasks c);
          endpoint = (\<lambda>k. k \<in> set (map tr_endpoint cmds));
          c1 = update_mirrors (\<lambda>r. mr_table r = MeridianDeployments \<and> mr_key r \<in> set (map tr_id cmds))
                 (\<lambda>r. r\<lparr>mr_status := ''failed'', mr_last_error := interrupted, mr_updated_at := now\<rparr>) c;
          c2 = update_mirrors (\<lambda>r. mr_table r = MeridianEndpoints \<and> endpoint (mr_key r))
                 (\<lambda>r. r\<lparr>mr_status := (if mirror_keeps c r then mr_status r else ''failed''),
                        mr_runtime_healthy := mirror_keeps c r,
                        mr_last_error := interrupted, mr_updated_at := now\<rparr>) c1;
          c3 = update_mirrors (\<lambda>r. mr_table r = MeridianRouteGrants \<and> endpoint (mr_key r) \<and>
                   \<not> list_ex (\<lambda>x. mr_table x = MeridianEndpoints \<and> mr_key x = mr_key r \<and> mirror_keeps c x) (mirrors c2))
                 (\<lambda>r. r\<lparr>mr_runtime_healthy := False,
                        mr_status := (if mr_status r = ''revoked'' then mr_status r else ''failed''),
                        mr_last_error := interrupted, mr_updated_at := now\<rparr>) c2
      in c3\<lparr>meridian_cutover :=
            (case meridian_cutover c of None \<Rightarrow> None
             | Some u \<Rightarrow> if cu_state u \<in> {''project'', ''verify'', ''retire''} \<and> cmds \<noteq> []
                         then Some (u\<lparr>cu_last_error := interrupted, cu_updated_at := now\<rparr>) else Some u)\<rparr>)"

definition expire_sites :: "stamp \<Rightarrow> string \<Rightarrow> center \<Rightarrow> center" where
  "expire_sites now agentID c =
     c\<lparr>node_sites := sql_update
         (\<lambda>s. list_ex (\<lambda>r. tr_table r = NodeSiteTasks \<and> tr_application r = ns_application_id s \<and> tr_agent r = agentID \<and>
            tr_revision r = ns_revision s \<and> tr_state r = ''failed'' \<and> tr_error r = site_interrupted) (tasks c))
         (\<lambda>s. s\<lparr>ns_state := ''action_required'', ns_error := ''Execution interrupted; inspect recovered website state'',
                ns_updated_at := now\<rparr>) (node_sites c)\<rparr>"

definition expire_applications :: "stamp \<Rightarrow> string \<Rightarrow> center \<Rightarrow> center" where
  "expire_applications now agentID c =
     update_applications
       (\<lambda>a. list_ex (\<lambda>r. tr_table r = Deployments \<and> tr_application r = ap_id a \<and> tr_agent r = agentID \<and>
          tr_state r = ''failed'' \<and> tr_error r = interrupted) (tasks c))
       (\<lambda>a. a\<lparr>ap_status := ''failed'', ap_updated_at := now\<rparr>) c"

definition expire_guard :: "string \<Rightarrow> string \<Rightarrow> execution \<Rightarrow> bool" where
  "expire_guard agentID taskID r =
     (ex_agent_id r = agentID \<and> ex_task_id r = taskID \<and> ex_disposition r = [] \<and>
      (ex_state r = Offered \<or> ex_state r = Running))"

definition expire_set :: "env \<Rightarrow> execution \<Rightarrow> execution" where
  "expire_set e r = r\<lparr>ex_state := Unknown, ex_last_error := interrupted, ex_updated_at := now_stamp e\<rparr>"

fun expire_executions :: "env \<Rightarrow> string \<Rightarrow> (string \<times> string \<times> int) list \<Rightarrow> center \<Rightarrow> center_error + center" where
  "expire_executions e agentID [] c = Inr c"
| "expire_executions e agentID ((taskID, kind, revision) # ts) c =
     and_then
       (recordTaskEvent e taskID agentID kind revision ''lease_expired''
          (if kind = ''agent.update'' then update_interrupted else interrupted)
          (update_executions (expire_guard agentID taskID) (expire_set e) c))
       (expire_executions e agentID ts)"

definition recoverExpiredTasks :: "env \<Rightarrow> string \<Rightarrow> center \<Rightarrow> outcome" where
  "recoverExpiredTasks e agentID c =
     (let now = now_stamp e; expired = expired_tasks now agentID c in
      if expired = [] then (c, None)
      else transact c
        (expire_executions e agentID expired
          (expire_applications now agentID (expire_meridian now agentID (expire_sites now agentID
            (let c1 = expire_resources now agentID c in c1\<lparr>tasks := map (expire_row now agentID) (tasks c1)\<rparr>))))))"

section \<open>What the leases guarantee\<close>

interpretation expire: execution_writer "expire_guard a t" "expire_set e" for a t e
  by unfold_locales (auto simp: expire_guard_def expire_set_def same_identity_def keeps_evidence_def settled_def helper_forward_def)

lemma mirrors_safe [simp]:
  "safe_step c (update_mirrors P f c') = safe_step c c'"
  "safe_step c (update_applications Q g c') = safe_step c c'"
  by (simp_all add: update_mirrors_def update_applications_def)

lemma expire_executions_safe: "expire_executions e a ts c = Inr c' \<Longrightarrow> safe_step c c'"
proof (induction ts arbitrary: c)
  case Nil
  then show ?case by simp
next
  case (Cons t ts)
  obtain i k n where t: "t = (i, k, n)" by (cases t) auto
  from Cons.prems t obtain d where
    d: "recordTaskEvent e i a k n ''lease_expired'' (if k = ''agent.update'' then update_interrupted else interrupted)
          (update_executions (expire_guard a i) (expire_set e) c) = Inr d"
    and rest: "expire_executions e a ts d = Inr c'"
    by (auto simp: and_then_Inr)
  have "safe_step c d"
    using expire.writer_safe recordTaskEvent_safe [OF d] by (rule safe_step_trans)
  then show ?case using Cons.IH [OF rest] by (rule safe_step_trans)
qed

lemma recoverExpiredTasks_safe [safe_intros]: "safe_step c (fst (recoverExpiredTasks e a c))"
proof -
  have "safe_step c c'" if "expire_executions e a ts (expire_applications now a (expire_meridian now a (expire_sites now a
            (let c1 = expire_resources now a c in c1\<lparr>tasks := map (expire_row now a) (tasks c1)\<rparr>)))) = Inr c'" for ts now c'
    using expire_executions_safe [OF that]
    by (rule safe_step_trans [rotated])
      (simp add: expire_applications_def expire_meridian_def expire_sites_def expire_resources_def Let_def)
  then show ?thesis
    unfolding recoverExpiredTasks_def by (auto simp: Let_def intro: transact_safe)
qed

lemma release_mirrors_safe [simp]: "safe_step c (release_mirrors now t a d) = safe_step c d"
  by (simp add: release_mirrors_def Let_def split: option.splits)

lemma releaseClaimedTask_safe [safe_intros]: "safe_step c (fst (releaseClaimedTask e a t c))"
  unfolding releaseClaimedTask_def
  by (auto simp: Let_def intro!: transact_safe split: sum.splits prod.splits if_splits
      elim!: recordTaskEvent_safe_from)

lemma RenewTaskLease_safe [safe_intros]: "safe_step c (fst (RenewTaskLease e a cr t n c))"
  unfolding RenewTaskLease_def
  by (auto split: option.splits intro: update_one_task_call_safe)

end
