(* ===== verification/Execution_Resolution.thy ===== *)
theory Execution_Resolution
  imports Execution_Lifecycle Task_Leases
begin

text \<open>
  How an execution that did not end by itself is resolved: projecting its retained result
  (execution_confirmation.go), re-executing or abandoning it (execution_disposition.go), releasing
  superseded landing failures (execution_superseded.go), disposing a host helper
  (execution_helper_disposition.go), recovering a failed Agent update (agent_update_recovery.go),
  archiving and abandoning legacy receipts (execution_legacy_import.go,
  execution_legacy_disposition.go), and the fences other workflows release
  (xray_configuration_recovery.go, meridian_management.go, agent_reinstall_local_work.go).
\<close>

section \<open>Dispositions\<close>

record disposition_input =
  di_action :: string
  di_execution_stopped :: bool
  di_note :: string

definition attested :: "disposition_input \<Rightarrow> bool" where
  "attested input = (di_execution_stopped input \<and> trim_space (di_note input) \<noteq> [] \<and> length (di_note input) \<le> 1024)"

definition stopped_state :: "execution \<Rightarrow> bool" where
  "stopped_state r = (ex_state r = Failed \<or> ex_state r = Unknown)"

definition dispose_guard :: "string \<Rightarrow> execution \<Rightarrow> bool" where
  "dispose_guard i r = (ex_id r = i \<and> ex_disposition r = [] \<and> stopped_state r)"

definition dispose_set :: "stamp \<Rightarrow> string \<Rightarrow> string \<Rightarrow> string \<Rightarrow> execution \<Rightarrow> execution" where
  "dispose_set now action note actor r =
     r\<lparr>ex_disposition := action, ex_disposition_note := note, ex_disposition_actor := actor,
       ex_disposed_at := now, ex_updated_at := now\<rparr>"

definition admin_required :: center_error where
  "admin_required = CenterError ''center: administrator authorization required''"

section \<open>Retained results\<close>

record resolution =
  rs_admin :: string
  rs_note :: string
  rs_automatic :: bool

definition retainedResultSupportsConfirmation :: "env \<Rightarrow> string \<Rightarrow> evidence \<Rightarrow> bool" where
  "retainedResultSupportsConfirmation e kind ev =
     (if \<not> ee_succeeded ev \<or> ee_unknown ev \<or> \<not> e_json_valid e (ee_result ev) then False
      else if kind = ''application.apply'' then ee_runtime_generation ev \<noteq> None
      else kind \<in> {''node.site.certificate'', ''application.maintenance'', ''application.adopt'',
        ''application.command'', ''landing.server.apply'', ''landing.proxy.apply'', ''gateway.routes.apply'',
        ''gateway.component.apply'', ''node.listener.apply'', ''tunnel.state.apply''})"

definition retained_guard :: "bool \<Rightarrow> string \<Rightarrow> execution \<Rightarrow> bool" where
  "retained_guard automatic i r =
     (ex_id r = i \<and>
      (if automatic then ex_state r = Unknown \<and> ex_phase r = ''result_received'' else stopped_state r) \<and>
      ex_disposition r = [] \<and> ex_identity_retired_at r = NoStamp)"

definition project_guard :: "string \<Rightarrow> execution \<Rightarrow> bool" where
  "project_guard i r =
     (ex_id r = i \<and> ex_disposition r = [] \<and> ex_state r = Unknown \<and> ex_phase r = ''result_received'')"

definition project_set :: "stamp \<Rightarrow> execution \<Rightarrow> execution" where
  "project_set now r =
     r\<lparr>ex_state := Succeeded, ex_phase := ''reported'', ex_last_error := [], ex_updated_at := now\<rparr>"

text \<open>
  \<open>project\<close> stands for the business projections (\<^verbatim>\<open>projectNodeSite\<close>, \<^verbatim>\<open>projectLandingServer\<close>, ...): they
  write business tables only. \<open>Inr None\<close> is a projection that returned without committing.
\<close>

type_synonym projection = "agent_task \<Rightarrow> string \<Rightarrow> evidence \<Rightarrow> center \<Rightarrow> center_error + task_row list option"

definition retained_fail :: "resolution \<Rightarrow> center_error \<Rightarrow> center_error" where
  "retained_fail res err = (if rs_automatic res then RetainedNotRecoverable else err)"

definition retained_commit :: "env \<Rightarrow> resolution \<Rightarrow> string \<Rightarrow> center \<Rightarrow> center_error + center" where
  "retained_commit e res i c =
     (case validateExecutionProjection c i True of
        Some err \<Rightarrow> Inl err
      | None \<Rightarrow>
          if rs_automatic res
          then update_one ExecutionAuthorization (project_guard i) (project_set (now_stamp e)) c
          else update_one ExecutionAuthorization (dispose_guard i)
                 (dispose_set (now_stamp e) ''confirm-completed'' (e_safe_error e (rs_note res)) (rs_admin res)) c)"

definition projectRetainedExecutionResult :: "env \<Rightarrow> projection \<Rightarrow> string \<Rightarrow> resolution \<Rightarrow> center \<Rightarrow> outcome" where
  "projectRetainedExecutionResult e project i res c =
     (if \<not> rs_automatic res \<and> \<not> is_admin c (rs_admin res) then (c, Some admin_required)
      else case find (retained_guard (rs_automatic res) i) (executions c) of
        None \<Rightarrow> (c, Some (retained_fail res ExecutionAuthorization))
      | Some r \<Rightarrow>
          (case e_open e (task_aad i) (ex_sealed_task r) of
             None \<Rightarrow> (c, Some (retained_fail res (CenterError ''center: execution evidence cannot be verified'')))
           | Some taskRaw \<Rightarrow>
          (case e_unmarshal_task e taskRaw of
             None \<Rightarrow> (c, Some (retained_fail res ExecutionAuthorization))
           | Some task \<Rightarrow>
               if at_id task \<noteq> ex_task_id r \<or> at_kind task \<noteq> ex_kind r \<or> at_attempt task \<noteq> ex_attempt r
               then (c, Some (retained_fail res ExecutionAuthorization))
               else (case e_open e (result_aad i) (ex_sealed_result r) of
                  None \<Rightarrow> (c, Some (retained_fail res (CenterError ''center: retained completion evidence is required'')))
                | Some resultRaw \<Rightarrow>
               (case e_unmarshal_evidence e resultRaw of
                  None \<Rightarrow> (c, Some (retained_fail res (CenterError ''center: retained result does not prove completion; verify or replace the missing evidence before confirming'')))
                | Some ev \<Rightarrow>
                    if \<not> retainedResultSupportsConfirmation e (ex_kind r) ev
                    then (c, Some (retained_fail res (CenterError ''center: retained result does not prove completion; verify or replace the missing evidence before confirming'')))
                    else (case executionConfirmationStatement task (ex_agent_id r) of
                       Inl err \<Rightarrow> (c, Some err)
                     | Inr st \<Rightarrow>
                         if statement_rows c st task (ex_agent_id r) \<noteq> 1
                         then (c, Some (CenterError ''center: application task changed; verify its current state''))
                         else let c1 = run_statement (now_stamp e) st task (ex_agent_id r) c in
                           (case project task (ex_agent_id r) ev c1 of
                              Inl err \<Rightarrow> (c, Some err)
                            | Inr None \<Rightarrow> (c, Some ExecutionAuthorization)
                            | Inr (Some rows) \<Rightarrow> transact c (retained_commit e res i (c1\<lparr>tasks := rows\<rparr>)))))))))"

definition confirm_required :: center_error where
  "confirm_required = CenterError ''center: confirm stopped execution and record verification''"

definition ConfirmExecution :: "env \<Rightarrow> projection \<Rightarrow> string \<Rightarrow> string \<Rightarrow> disposition_input \<Rightarrow> center \<Rightarrow> outcome" where
  "ConfirmExecution e project i adminID input c =
     (if di_action input \<noteq> ''confirm-completed'' \<or> \<not> attested input then (c, Some confirm_required)
      else projectRetainedExecutionResult e project i \<lparr>rs_admin = adminID, rs_note = di_note input, rs_automatic = False\<rparr> c)"

section \<open>Re-execution and abandonment\<close>

text \<open>
  \<open>blocked agentID taskID\<close> is \<^verbatim>\<open>reinstallCommandTargetBlocked\<close>, which reads the reinstallation tables.
\<close>

definition find_execution :: "center \<Rightarrow> string \<Rightarrow> execution option" where
  "find_execution c i = find (\<lambda>r. ex_id r = i) (executions c)"

definition dispose_mirrors :: "stamp \<Rightarrow> string \<Rightarrow> string \<Rightarrow> string \<Rightarrow> center \<Rightarrow> center" where
  "dispose_mirrors now kind action taskID c =
     (let owner = (\<lambda>t. map_option tr_application (find (\<lambda>r. tr_table r = t \<and> tr_id r = taskID) (tasks c)));
          c1 = (if kind = ''node.site.certificate'' \<and> action = ''abandon''
                then c\<lparr>node_sites := sql_update (\<lambda>s. owner NodeSiteTasks = Some (ns_application_id s))
                       (\<lambda>s. s\<lparr>ns_state := ''action_required'', ns_error := ''Abandoned; inspect recovered website state'',
                              ns_updated_at := now\<rparr>) (node_sites c)\<rparr>
                else c)
      in if kind = ''application.apply''
         then update_applications (\<lambda>a. owner Deployments = Some (ap_id a))
                (\<lambda>a. a\<lparr>ap_status := (if action = ''abandon'' then ''failed'' else ''pending''), ap_updated_at := now\<rparr>) c1
         else c1)"

definition disposeTaskExecution :: "env \<Rightarrow> (string \<Rightarrow> string \<Rightarrow> bool) \<Rightarrow> string \<Rightarrow> string \<Rightarrow> disposition_input \<Rightarrow> center \<Rightarrow> outcome" where
  "disposeTaskExecution e blocked i adminID input c =
     (if \<not> attested input then
        (c, Some (CenterError ''center: confirm the previous execution stopped and record the verification before reexecution''))
      else if \<not> is_admin c adminID then (c, Some admin_required)
      else case find_execution c i of
        None \<Rightarrow> (c, Some no_rows)
      | Some r \<Rightarrow>
          if \<not> stopped_state r \<or> ex_disposition r \<noteq> []
          then (c, Some (CenterError ''center: execution is not unresolved''))
          else if ex_identity_retired_at r \<noteq> NoStamp \<and> di_action input = ''reexecute''
          then (c, Some (CenterError ''center: previous machine identity was retired; create a new recovery task from reviewed intent''))
          else if ex_kind r = ''application.command'' \<and> di_action input = ''reexecute'' \<and> blocked (ex_agent_id r) (ex_task_id r)
          then (c, Some ExecutionBlocked)
          else (case e_open e (task_aad i) (ex_sealed_task r) of
             None \<Rightarrow> (c, Some (CenterError ''center: execution evidence cannot be verified''))
           | Some raw \<Rightarrow>
          (case e_unmarshal_task e raw of
             None \<Rightarrow> (c, Some (CenterError ''center: execution evidence does not match its identity''))
           | Some task \<Rightarrow>
               if at_id task \<noteq> ex_task_id r \<or> at_kind task \<noteq> ex_kind r \<or> at_attempt task \<noteq> ex_attempt r
               then (c, Some (CenterError ''center: execution evidence does not match its identity''))
               else (case (if di_action input = ''abandon'' then executionAbandonStatement task else executionRequeueStatement task) of
                  Inl err \<Rightarrow> (c, Some err)
                | Inr st \<Rightarrow>
                    let n = statement_rows c st task (ex_agent_id r);
                        missing = (n = 0 \<and> di_action input = ''abandon'' \<and> ex_kind r = ''application.command'' \<and>
                          \<not> sql_exists (\<lambda>x. tr_table x = ApplicationCommands \<and> tr_id x = ex_task_id r) (tasks c))
                    in if n \<noteq> 1 \<and> \<not> missing
                       then (c, Some (CenterError ''center: task changed; verify its current state''))
                       else transact c (update_one ExecutionAuthorization (dispose_guard i)
                              (dispose_set (now_stamp e) (di_action input) (e_safe_error e (di_note input)) adminID)
                              (dispose_mirrors (now_stamp e) (ex_kind r) (di_action input) (ex_task_id r)
                                (run_statement (now_stamp e) st task (ex_agent_id r) c)))))))"

definition ReexecuteExecution :: "env \<Rightarrow> (string \<Rightarrow> string \<Rightarrow> bool) \<Rightarrow> string \<Rightarrow> string \<Rightarrow> disposition_input \<Rightarrow> center \<Rightarrow> outcome" where
  "ReexecuteExecution e blocked i adminID input c =
     (if di_action input \<noteq> ''reexecute'' then (c, Some ExecutionAuthorization)
      else disposeTaskExecution e blocked i adminID input c)"

definition AbandonExecution :: "env \<Rightarrow> (string \<Rightarrow> string \<Rightarrow> bool) \<Rightarrow> string \<Rightarrow> string \<Rightarrow> disposition_input \<Rightarrow> center \<Rightarrow> outcome" where
  "AbandonExecution e blocked i adminID input c =
     (if di_action input \<noteq> ''abandon'' then (c, Some ExecutionAuthorization)
      else disposeTaskExecution e blocked i adminID input c)"

section \<open>Superseded landing failures\<close>

definition superseded_by :: "execution \<Rightarrow> task_row \<Rightarrow> bool" where
  "superseded_by x state =
     (let revision = (if ex_kind x = ''landing.proxy.apply'' then landingProxyTaskRevision (ex_task_id x)
                      else landingServerTaskRevision (ex_task_id x))
      in case revision of
           None \<Rightarrow> False
         | Some r \<Rightarrow>
             ex_task_id x = (if ex_kind x = ''landing.proxy.apply'' then landingProxyTaskID (ex_agent_id x) r
                             else landingServerTaskID (ex_agent_id x) r) \<and>
             \<not> (r > tr_revision state \<or> r = tr_revision state \<and> ex_attempt x \<ge> tr_attempt state))"

text \<open>The rows of the two joins, in query order, for one Agent or (for the empty id) all of them.\<close>

definition superseded_candidates :: "string \<Rightarrow> center \<Rightarrow> (execution \<times> task_row) list" where
  "superseded_candidates agentID c =
     concat (map (\<lambda>(kind, t).
       concat (map (\<lambda>x. map (\<lambda>st. (x, st))
           (filter (\<lambda>st. tr_table st = t \<and> tr_agent st = ex_agent_id x) (tasks c)))
         (filter (\<lambda>x. ex_kind x = kind \<and> ex_disposition x = [] \<and> ex_state x = Failed \<and> ex_phase x = ''reported'' \<and>
            (agentID = [] \<or> ex_agent_id x = agentID)) (executions c))))
       [(''landing.proxy.apply'', LandingProxyStates), (''landing.server.apply'', LandingServerStates)])"

definition superseded_note :: "task_row \<Rightarrow> string" where
  "superseded_note st =
     ''Superseded by landing revision '' @ int_str (tr_revision st) @ '' attempt '' @ int_str (tr_attempt st)"

definition superseded_guard :: "string \<Rightarrow> execution \<Rightarrow> bool" where
  "superseded_guard i r = (ex_id r = i \<and> ex_disposition r = [] \<and> ex_state r = Failed)"

fun dispose_superseded :: "stamp \<Rightarrow> (execution \<times> task_row) list \<Rightarrow> center \<Rightarrow> center_error + center" where
  "dispose_superseded now [] c = Inr c"
| "dispose_superseded now ((x, st) # cs) c =
     (if \<not> superseded_by x st then dispose_superseded now cs c
      else and_then
        (update_one (CenterError ''center: superseded landing execution changed during recovery'') (superseded_guard (ex_id x))
          (dispose_set now ''superseded'' (superseded_note st) ''system'') c)
        (dispose_superseded now cs))"

definition disposeSupersededLandingExecutionFailures :: "stamp \<Rightarrow> string \<Rightarrow> center \<Rightarrow> center_error + center" where
  "disposeSupersededLandingExecutionFailures now agentID c =
     dispose_superseded now (superseded_candidates agentID c) c"

definition recoverSupersededLandingExecutionFailures :: "env \<Rightarrow> center \<Rightarrow> outcome" where
  "recoverSupersededLandingExecutionFailures e c =
     transact c (disposeSupersededLandingExecutionFailures (now_stamp e) [] c)"

section \<open>Host helpers\<close>

text \<open>\<^verbatim>\<open>time.Parse\<close> of \<^verbatim>\<open>last_seen_at\<close> and \<^verbatim>\<open>After(now - agentConnectedMaxAge)\<close>.\<close>

definition seen_recently :: "env \<Rightarrow> stamp \<Rightarrow> bool" where
  "seen_recently e seen =
     (case parse_stamp seen of None \<Rightarrow> False | Some t \<Rightarrow> e_now e - agentConnectedMaxAge < t)"

definition update_row :: "center \<Rightarrow> string \<Rightarrow> string \<Rightarrow> int \<Rightarrow> task_row option" where
  "update_row c taskID agentID attempt =
     find (\<lambda>r. tr_table r = AgentUpdates \<and> tr_id r = taskID \<and> tr_agent r = agentID \<and> tr_attempt r = attempt) (tasks c)"

text \<open>The Agent reports the target of the update and was seen within the last 45 seconds.\<close>

definition target_observed :: "env \<Rightarrow> center \<Rightarrow> task_row \<Rightarrow> bool" where
  "target_observed e c u =
     (case agent_row_of c (tr_agent u) of
        None \<Rightarrow> False
      | Some a \<Rightarrow> ag_version a = tr_target_version u \<and> seen_recently e (ag_last_seen_at a))"

definition helper_statement :: "string \<Rightarrow> string \<Rightarrow> string \<Rightarrow> statement" where
  "helper_statement kind to err =
     (if kind = ''agent.decommission''
      then (by_id AgentDecommissions [''failed'', ''cleaning'', ''running''] to err)\<lparr>st_key := ByAgent, st_clear_token := True\<rparr>
      else by_id AgentUpdates [''failed'', ''installing'', ''running''] to err)"

text \<open>The columns of an execution that identify its attempt, as a task.\<close>

definition attempt_of :: "execution \<Rightarrow> agent_task" where
  "attempt_of r = blank_task\<lparr>at_kind := ex_kind r, at_id := ex_task_id r, at_attempt := ex_attempt r\<rparr>"

definition DisposeHelperExecution :: "env \<Rightarrow> string \<Rightarrow> string \<Rightarrow> disposition_input \<Rightarrow> center \<Rightarrow> outcome" where
  "DisposeHelperExecution e i adminID input c =
     (if (di_action input \<noteq> ''confirm-completed'' \<and> di_action input \<noteq> ''abandon'') \<or> \<not> attested input
      then (c, Some confirm_required)
      else if \<not> is_admin c adminID then (c, Some admin_required)
      else case find (\<lambda>r. dispose_guard i r \<and> ex_kind r \<in> {''agent.update'', ''agent.decommission''}) (executions c) of
        None \<Rightarrow> (c, Some ExecutionAuthorization)
      | Some r \<Rightarrow>
          let confirm = (di_action input = ''confirm-completed''); u = update_row c (ex_task_id r) (ex_agent_id r) (ex_attempt r) in
          if ex_identity_retired_at r \<noteq> NoStamp \<and> confirm
          then (c, Some (CenterError ''center: replacement machine observations cannot confirm the previous machine's helper execution''))
          else if confirm \<and> ex_kind r = ''agent.update'' \<and>
                  (u = None \<or> agent_row_of c (ex_agent_id r) = None)
          then (c, Some ExecutionAuthorization)
          else if confirm \<and> ex_kind r = ''agent.update'' \<and> \<not> target_observed e c (the u)
          then (c, Some (CenterError ''center: target version must be observed online before confirming completion''))
          else let st = helper_statement (ex_kind r) (if confirm then ''succeeded'' else ''failed'')
                          (if confirm then [] else ''Abandoned by operator'')
            in if statement_rows c st (attempt_of r) (ex_agent_id r) \<noteq> 1 then (c, Some ExecutionAuthorization)
               else transact c (update_one ExecutionAuthorization (dispose_guard i)
                 (dispose_set (now_stamp e) (di_action input) (e_safe_error e (di_note input)) adminID)
                 (run_statement (now_stamp e) st (attempt_of r) (ex_agent_id r) c)))"

section \<open>Recovery of a failed Agent update\<close>

record update_recovery =
  ur_failed_update_id :: string
  ur_execution_stopped :: bool
  ur_note :: string
  ur_admin :: string

text \<open>
  \<open>latest\<close> is the newest row of \<^verbatim>\<open>agent_updates\<close> of the Agent (\<^verbatim>\<open>ORDER BY created_at DESC, rowid DESC\<close>,
  rows being inserted in creation order). The settings row the function adds is not modelled.
\<close>

definition latest_update :: "center \<Rightarrow> string \<Rightarrow> task_row option" where
  "latest_update c agentID = find (\<lambda>r. tr_table r = AgentUpdates \<and> tr_agent r = agentID) (rev (tasks c))"

definition recovery_guard :: "string \<Rightarrow> execution \<Rightarrow> bool" where
  "recovery_guard i r = (ex_id r = i \<and> ex_state r = Failed \<and> ex_disposition r = [])"

definition authorizeAgentUpdateRecovery :: "env \<Rightarrow> string \<Rightarrow> update_recovery \<Rightarrow> center \<Rightarrow> center_error + center" where
  "authorizeAgentUpdateRecovery e agentID input c =
     (if \<not> ur_execution_stopped input \<or> trim_space (ur_note input) = [] \<or> length (ur_note input) > 1024
      then Inl (CenterError ''center: confirm the exact failed update is stopped and record recovery verification'')
      else if \<not> is_admin c (ur_admin input) then Inl admin_required
      else case latest_update c agentID of
        None \<Rightarrow> Inl no_rows
      | Some u \<Rightarrow>
          if tr_id u \<noteq> ur_failed_update_id input \<or> tr_state u \<noteq> ''failed''
          then Inl (CenterError ''center: failed update changed; verify its current state'')
          else (case find (\<lambda>r. ex_task_id r = tr_id u \<and> ex_agent_id r = agentID \<and> ex_kind r = ''agent.update'' \<and>
                    ex_attempt r = tr_attempt u) (executions c) of
             None \<Rightarrow> Inr c
           | Some r \<Rightarrow>
               if ex_state r \<noteq> Failed \<or> (ex_disposition r \<noteq> [] \<and> ex_disposition r \<noteq> ''abandon'')
               then Inl (CenterError ''center: failed update execution is not stopped'')
               else (case e_open e (task_aad (ex_id r)) (ex_sealed_task r) of
                  None \<Rightarrow> Inl (CenterError ''center: execution evidence cannot be verified'')
                | Some raw \<Rightarrow>
               (case e_unmarshal_task e raw of
                  None \<Rightarrow> Inl (CenterError ''center: execution evidence does not match its identity'')
                | Some task \<Rightarrow>
                    if at_id task \<noteq> tr_id u \<or> at_kind task \<noteq> ''agent.update'' \<or> at_attempt task \<noteq> tr_attempt u
                    then Inl (CenterError ''center: execution evidence does not match its identity'')
                    else if ex_disposition r \<noteq> [] then Inr c
                    else update_one ExecutionAuthorization (recovery_guard (ex_id r))
                           (dispose_set (now_stamp e) ''abandon'' (e_safe_error e (trim_space (ur_note input))) (ur_admin input)) c))))"

section \<open>Legacy receipts\<close>

record legacy_receipt =
  lr_task_id :: string
  lr_kind :: string
  lr_attempt :: int
  lr_state :: string

text \<open>
  \<^verbatim>\<open>controlplane.EncodeLegacyReceipt\<close> (\<open>None\<close> for an invalid receipt), \<^verbatim>\<open>LegacyReceiptArchiveID\<close> and the
  JSON decoder, as functions of the call.
\<close>

record receipt_codec =
  rc_encode :: "legacy_receipt \<Rightarrow> (string \<times> string) option"
  rc_archive_id :: "string \<Rightarrow> string \<Rightarrow> int \<Rightarrow> string"
  rc_decode :: "string \<Rightarrow> legacy_receipt option"

definition LegacyReceiptMaxPayloadBytes :: nat where
  "LegacyReceiptMaxPayloadBytes = 3 * 1024 * 1024"

definition legacy_row :: "env \<Rightarrow> string \<Rightarrow> string \<Rightarrow> string \<Rightarrow> string \<Rightarrow> string \<Rightarrow> legacy_receipt \<Rightarrow> execution" where
  "legacy_row e i agentID sessionID digest sealed receipt =
     \<lparr>ex_id = i, ex_agent_id = agentID, ex_task_id = i, ex_kind = ''legacy.receipt'', ex_attempt = lr_attempt receipt,
      ex_session_id = sessionID, ex_digest = digest, ex_sealed_task = sealed, ex_sealed_result = [],
      ex_state = (if lr_state receipt = ''acknowledged'' then Succeeded else Unknown),
      ex_phase = ''legacy:'' @ lr_state receipt,
      ex_last_error = (if lr_state receipt = ''acknowledged'' then [] else ''Legacy execution requires operator verification''),
      ex_expires_at = now_stamp e, ex_created_at = now_stamp e, ex_updated_at = now_stamp e,
      ex_disposition = [], ex_disposition_note = [], ex_disposition_actor = [], ex_disposed_at = NoStamp,
      ex_identity_retired_at = NoStamp\<rparr>"

definition ImportLegacyReceipt :: "env \<Rightarrow> receipt_codec \<Rightarrow> string \<Rightarrow> string \<Rightarrow> string \<Rightarrow> string \<Rightarrow> legacy_receipt \<Rightarrow> center \<Rightarrow> outcome" where
  "ImportLegacyReceipt e codec agentID credential sessionID inputDigest receipt c =
     (case authenticateAgentInQuery e c agentID credential of
        Some err \<Rightarrow> (c, Some err)
      | None \<Rightarrow>
     (case rc_encode codec receipt of
        None \<Rightarrow> (c, Some (CenterError ''center: invalid legacy evidence digest''))
      | Some (raw, digest) \<Rightarrow>
          let i = rc_archive_id codec agentID (lr_task_id receipt) (lr_attempt receipt) in
          if digest \<noteq> inputDigest then (c, Some (CenterError ''center: invalid legacy evidence digest''))
          else if sessionID = [] \<or> session_of c agentID \<noteq> Some sessionID then (c, Some ExecutionAuthorization)
          else (case find (\<lambda>r. ex_id r = i \<and> ex_agent_id r = agentID \<and> ex_kind r = ''legacy.receipt'') (executions c) of
             Some r \<Rightarrow>
               if ex_digest r \<noteq> digest \<or> e_open e (task_aad i) (ex_sealed_task r) \<noteq> Some raw
               then (c, Some (CenterError ''center: legacy evidence conflicts with retained archive''))
               else (c, None)
           | None \<Rightarrow>
               (case e_seal e (task_aad i) raw of
                  None \<Rightarrow> (c, Some (CenterError ''secret: seal''))
                | Some sealed \<Rightarrow>
                    if sql_exists (\<lambda>r. ex_agent_id r = agentID \<and> live r) (executions c)
                    then (c, Some ExecutionBlocked)
                    else transact c (insert_execution (legacy_row e i agentID sessionID digest sealed receipt) c)))))"

definition readLegacyReceipt :: "env \<Rightarrow> receipt_codec \<Rightarrow> string \<Rightarrow> center \<Rightarrow> center_error + (legacy_receipt \<times> string)" where
  "readLegacyReceipt e codec i c =
     (case find (\<lambda>r. ex_id r = i \<and> ex_kind r = ''legacy.receipt'') (executions c) of
        None \<Rightarrow> Inl no_rows
      | Some r \<Rightarrow>
          if length (ex_sealed_task r) > LegacyReceiptMaxPayloadBytes + 1024
          then Inl (CenterError ''center: legacy evidence exceeds size limit'')
          else (case e_open e (task_aad i) (ex_sealed_task r) of
             None \<Rightarrow> Inl (CenterError ''center: legacy evidence integrity check failed'')
           | Some raw \<Rightarrow>
          (case rc_decode codec raw of
             None \<Rightarrow> Inl (CenterError ''center: invalid legacy evidence'')
           | Some receipt \<Rightarrow>
               if map_option snd (rc_encode codec receipt) \<noteq> Some (ex_digest r) \<or>
                  rc_archive_id codec (ex_agent_id r) (lr_task_id receipt) (lr_attempt receipt) \<noteq> i
               then Inl (CenterError ''center: legacy evidence identity or digest mismatch'')
               else Inr (receipt, ex_agent_id r))))"

text \<open>
  The task a receipt names: \<open>None\<close> for an identity that does not match, \<open>Some None\<close> for an obsolete
  kind, of which only the archive is retired.
\<close>

definition revision_of_kind :: "string \<Rightarrow> string \<Rightarrow> int option" where
  "revision_of_kind kind taskID =
     (if kind = ''landing.server.apply'' then landingServerTaskRevision taskID
      else if kind = ''landing.proxy.apply'' then landingProxyTaskRevision taskID
      else if kind = ''gateway.routes.apply'' then gatewayTaskRevision taskID
      else if kind = ''gateway.component.apply'' then gatewayComponentTaskGeneration taskID
      else if kind = ''node.listener.apply'' then nodeListenerTaskRevision taskID
      else tunnelTaskRevision taskID)"

definition legacy_task :: "legacy_receipt \<Rightarrow> string \<Rightarrow> agent_task option option" where
  "legacy_task receipt agentID =
     (let k = lr_kind receipt;
          task = blank_task\<lparr>at_kind := k, at_id := lr_task_id receipt, at_attempt := lr_attempt receipt\<rparr>
      in if k = ''application.apply'' \<or> k = ''application.command'' then Some (Some task)
         else if revision_table k = None then Some None
         else (case revision_of_kind k (lr_task_id receipt) of
                 None \<Rightarrow> None
               | Some r \<Rightarrow> if lr_task_id receipt \<noteq> revision_task_id k agentID r then None
                          else Some (Some (task\<lparr>at_revision := r\<rparr>))))"

definition legacy_guard :: "string \<Rightarrow> execution \<Rightarrow> bool" where
  "legacy_guard i r = (ex_id r = i \<and> ex_kind r = ''legacy.receipt'' \<and> ex_state r = Unknown \<and> ex_disposition r = [])"

definition abandon_legacy_task :: "stamp \<Rightarrow> agent_task \<Rightarrow> string \<Rightarrow> center \<Rightarrow> center_error + center" where
  "abandon_legacy_task now task agentID c =
     (case executionAbandonStatement task of
        Inl err \<Rightarrow> Inl err
      | Inr st0 \<Rightarrow>
          let st = (if at_kind task = ''application.apply'' \<or> at_kind task = ''application.command''
                    then st0\<lparr>st_condition := NewestOfApplication\<rparr> else st0);
              c1 = run_statement now st task agentID c
          in Inr (if at_kind task = ''application.apply'' \<and> statement_rows c st task agentID = 1
                  then dispose_mirrors now ''application.apply'' ''abandon'' (at_id task) c1 else c1))"

definition AbandonLegacyReceipt :: "env \<Rightarrow> receipt_codec \<Rightarrow> string \<Rightarrow> string \<Rightarrow> disposition_input \<Rightarrow> center \<Rightarrow> outcome" where
  "AbandonLegacyReceipt e codec i adminID input c =
     (if di_action input \<noteq> ''abandon'' \<or> \<not> attested input then (c, Some confirm_required)
      else if \<not> is_admin c adminID then (c, Some admin_required)
      else if \<not> sql_exists (legacy_guard i) (executions c) then (c, Some ExecutionAuthorization)
      else case readLegacyReceipt e codec i c of
        Inl err \<Rightarrow> (c, Some err)
      | Inr (receipt, agentID) \<Rightarrow>
          (case legacy_task receipt agentID of
             None \<Rightarrow> (c, Some ExecutionAuthorization)
           | Some t \<Rightarrow>
               transact c (and_then
                 (case t of None \<Rightarrow> Inr c | Some task \<Rightarrow> abandon_legacy_task (now_stamp e) task agentID c)
                 (update_one ExecutionAuthorization (legacy_guard i)
                   (dispose_set (now_stamp e) ''abandon'' (e_safe_error e (di_note input)) adminID)))))"

section \<open>Fences released by other workflows\<close>

text \<open>
  A completed Xray configuration recovery releases the earlier executions of the application,
  except its own (\<^verbatim>\<open>completeXrayConfigurationRecovery\<close>).
\<close>

definition owns_task :: "center \<Rightarrow> task_table \<Rightarrow> string \<Rightarrow> string \<Rightarrow> bool" where
  "owns_task c t applicationID taskID =
     sql_exists (\<lambda>r. tr_table r = t \<and> tr_id r = taskID \<and> tr_application r = applicationID) (tasks c)"

definition xray_guard :: "center \<Rightarrow> string \<Rightarrow> string \<Rightarrow> int \<Rightarrow> string \<Rightarrow> execution \<Rightarrow> bool" where
  "xray_guard c agentID recoveryID attempt applicationID r =
     (ex_agent_id r = agentID \<and> \<not> (ex_task_id r = recoveryID \<and> ex_attempt r = attempt) \<and>
      ex_disposition r = [] \<and> ex_state r \<noteq> Succeeded \<and>
      (ex_kind r = ''application.apply'' \<and> owns_task c Deployments applicationID (ex_task_id r) \<or>
       ex_kind r = ''application.command'' \<and> owns_task c ApplicationCommands applicationID (ex_task_id r) \<or>
       xray_recovery_kind (ex_kind r)))"

definition release_recovered_fences :: "env \<Rightarrow> string \<Rightarrow> string \<Rightarrow> int \<Rightarrow> string \<Rightarrow> center \<Rightarrow> center" where
  "release_recovered_fences e agentID recoveryID attempt applicationID c =
     (let now = now_stamp e;
          c1 = update_executions (xray_guard c agentID recoveryID attempt applicationID)
                 (dispose_set now ''configuration-recovered'' ''Explicit Xray configuration recovery completed'' ''system'') c;
          recovered = (\<lambda>t. sql_exists (\<lambda>x. ex_agent_id x = agentID \<and> ex_task_id x = t \<and>
                         ex_disposition x = ''configuration-recovered'') (executions c1));
          c2 = update_task_rows (\<lambda>r. tr_table r = ApplicationCommands \<and> tr_application r = applicationID \<and> tr_agent r = agentID \<and>
                   tr_state r = ''failed'' \<and> tr_reconciliation_required r \<and> recovered (tr_id r))
                 (\<lambda>r. r\<lparr>tr_reconciliation_required := False, tr_reconciliation_requested := False, tr_updated_at := now\<rparr>) c1
      in update_applications (\<lambda>a. ap_id a = applicationID) (\<lambda>a. a\<lparr>ap_status := ''running'', ap_updated_at := now\<rparr>) c2)"

text \<open>
  An operator who selects the Center's Meridian state releases the uncertain execution of the last
  runtime command (meridian_management.go).
\<close>

definition dispose_meridian_recovery :: "env \<Rightarrow> string \<Rightarrow> string \<Rightarrow> string \<Rightarrow> int \<Rightarrow> center \<Rightarrow> center_error + center" where
  "dispose_meridian_recovery e adminID nodeID commandID commandAttempt c =
     (case find (\<lambda>r. ex_agent_id r = nodeID \<and> ex_task_id r = commandID \<and> ex_attempt r = commandAttempt \<and>
          stopped_state r \<and> ex_disposition r = []) (executions c) of
        None \<Rightarrow> Inl (CenterError ''center: Glivela recovery execution evidence is unavailable'')
      | Some r \<Rightarrow>
          and_then
            (update_one (CenterError ''center: Glivela recovery execution changed; inspect again'') (dispose_guard (ex_id r))
              (dispose_set (now_stamp e) ''meridian-center-recovery''
                ''Operator confirmed the previous execution stopped and selected current Center state'' adminID) c)
            (update_one_task (CenterError ''center: Glivela recovery command changed; inspect again'')
              (\<lambda>x. tr_table x = ApplicationCommands \<and> tr_id x = commandID \<and> tr_agent x = nodeID \<and> tr_state x = ''failed'' \<and>
                 tr_reconciliation_required x)
              (\<lambda>x. x\<lparr>tr_reconciliation_required := False, tr_reconciliation_requested := False,
                     tr_lease_expires_at := NoStamp, tr_updated_at := now_stamp e\<rparr>)))"

text \<open>An execution of a machine that was reinstalled is abandoned once it is isolated (agent_reinstall_local_work.go).\<close>

definition local_guard :: "string \<Rightarrow> string \<Rightarrow> execution \<Rightarrow> bool" where
  "local_guard i agentID r =
     (ex_id r = i \<and> ex_agent_id r = agentID \<and> ex_identity_retired_at r \<noteq> NoStamp \<and> stopped_state r \<and> ex_disposition r = [])"

definition settle_local_execution :: "env \<Rightarrow> string \<Rightarrow> string \<Rightarrow> string \<Rightarrow> center \<Rightarrow> center_error + center" where
  "settle_local_execution e adminID i agentID =
     update_one ExecutionAuthorization (local_guard i agentID)
       (dispose_set (now_stamp e) ''abandon'' ''Old-machine local execution isolated by reinstall recovery'' adminID)"

section \<open>Every resolution keeps the contract\<close>

lemmas disposal_defs = dispose_guard_def dispose_set_def stopped_state_def superseded_guard_def
  recovery_guard_def legacy_guard_def xray_guard_def local_guard_def project_guard_def project_set_def contract_defs

interpretation dispose: execution_writer "dispose_guard i" "dispose_set now act nt actor" for i now act nt actor
  by unfold_locales (auto simp: disposal_defs)

interpretation superseded: execution_writer "superseded_guard i" "dispose_set now act nt actor" for i now act nt actor
  by unfold_locales (auto simp: disposal_defs)

interpretation recovery: execution_writer "recovery_guard i" "dispose_set now act nt actor" for i now act nt actor
  by unfold_locales (auto simp: disposal_defs)

interpretation legacy: execution_writer "legacy_guard i" "dispose_set now act nt actor" for i now act nt actor
  by unfold_locales (auto simp: disposal_defs)

interpretation xray: execution_writer "xray_guard c a t n app" "dispose_set now act nt actor" for c a t n app now act nt actor
  by unfold_locales (auto simp: disposal_defs)

interpretation locals: execution_writer "local_guard i a" "dispose_set now act nt actor" for i a now act nt actor
  by unfold_locales (auto simp: disposal_defs)

interpretation projected: execution_writer "project_guard i" "project_set now" for i now
  by unfold_locales (auto simp: disposal_defs)

lemma run_statement_safe [simp]: "safe_step c (run_statement now st t a d) = safe_step c d"
  by (simp add: run_statement_def)

lemma dispose_mirrors_safe [simp]: "safe_step c (dispose_mirrors now k act t d) = safe_step c d"
  by (simp add: dispose_mirrors_def Let_def)

lemma update_one_from:
  assumes "update_one err P f d = Inr c'" "safe_step c d"
    and "\<And>x. safe_step x (update_executions P f x)"
  shows "safe_step c c'"
  using assms by (auto simp: update_one_Inr intro: safe_step_trans)

lemma retained_commit_safe:
  assumes "retained_commit e res i d = Inr c'" "safe_step c d"
  shows "safe_step c c'"
  using assms unfolding retained_commit_def
  by (auto split: option.splits if_splits intro: update_one_from projected.writer_safe dispose.writer_safe)

lemma projectRetainedExecutionResult_safe [safe_intros]:
  "safe_step c (fst (projectRetainedExecutionResult e p i res c))"
  unfolding projectRetainedExecutionResult_def
  by (intro safe_cases; (erule retained_commit_safe)?; simp)

lemma ConfirmExecution_safe [safe_intros]: "safe_step c (fst (ConfirmExecution e p i a inp c))"
  by (simp add: ConfirmExecution_def projectRetainedExecutionResult_safe)

lemma disposeTaskExecution_safe [safe_intros]: "safe_step c (fst (disposeTaskExecution e b i a inp c))"
  unfolding disposeTaskExecution_def
  by (intro safe_cases; erule update_one_from; simp add: dispose.writer_safe)

lemma ReexecuteExecution_safe [safe_intros]: "safe_step c (fst (ReexecuteExecution e b i a inp c))"
  by (simp add: ReexecuteExecution_def disposeTaskExecution_safe)

lemma AbandonExecution_safe [safe_intros]: "safe_step c (fst (AbandonExecution e b i a inp c))"
  by (simp add: AbandonExecution_def disposeTaskExecution_safe)

lemma dispose_superseded_safe: "dispose_superseded now cs d = Inr c' \<Longrightarrow> safe_step d c'"
proof (induction now cs d rule: dispose_superseded.induct)
  case (1 now c)
  then show ?case by simp
next
  case (2 now x st cs c)
  show ?case
  proof (cases "superseded_by x st")
    case True
    with "2.prems" obtain d where
      d: "update_one (CenterError ''center: superseded landing execution changed during recovery'') (superseded_guard (ex_id x))
          (dispose_set now ''superseded'' (superseded_note st) ''system'') c = Inr d"
      and rest: "dispose_superseded now cs d = Inr c'"
      by (auto simp: and_then_Inr)
    show ?thesis
      using superseded.writer_one_safe [OF d] "2.IH"(2) [OF _ rest] True by (blast intro: safe_step_trans)
  next
    case False
    with 2 show ?thesis by simp
  qed
qed

lemma superseded_safe: "disposeSupersededLandingExecutionFailures now a c = Inr c' \<Longrightarrow> safe_step c c'"
  by (simp add: disposeSupersededLandingExecutionFailures_def dispose_superseded_safe)

lemma recoverSuperseded_safe [safe_intros]: "safe_step c (fst (recoverSupersededLandingExecutionFailures e c))"
  by (simp add: recoverSupersededLandingExecutionFailures_def transact_safe superseded_safe)

lemma DisposeHelperExecution_safe [safe_intros]: "safe_step c (fst (DisposeHelperExecution e i a inp c))"
  unfolding DisposeHelperExecution_def
  by (intro safe_cases; erule update_one_from; simp add: dispose.writer_safe)

lemma authorizeAgentUpdateRecovery_safe:
  "authorizeAgentUpdateRecovery e a inp c = Inr c' \<Longrightarrow> safe_step c c'"
  unfolding authorizeAgentUpdateRecovery_def
  by (auto split: option.splits if_splits intro: recovery.writer_one_safe)

lemma ImportLegacyReceipt_safe [safe_intros]: "safe_step c (fst (ImportLegacyReceipt e k a cr s d r c))"
  unfolding ImportLegacyReceipt_def
  by (intro safe_cases; erule insert_execution_safe; simp add: legacy_row_def live_def in_process_def split: if_splits)

lemma abandon_legacy_task_safe: "abandon_legacy_task now t a c = Inr d \<Longrightarrow> safe_step c d"
  by (auto simp: abandon_legacy_task_def Let_def split: sum.splits if_splits)

lemma AbandonLegacyReceipt_safe [safe_intros]: "safe_step c (fst (AbandonLegacyReceipt e k i a inp c))"
  unfolding AbandonLegacyReceipt_def
  by (intro safe_cases; erule and_then_safe; auto split: option.splits intro: legacy.writer_one_safe abandon_legacy_task_safe)

lemma release_recovered_fences_safe [safe_intros]: "safe_step c (release_recovered_fences e a t n app c)"
  by (simp add: release_recovered_fences_def Let_def xray.writer_safe)

lemma dispose_meridian_recovery_safe: "dispose_meridian_recovery e ad n t k c = Inr c' \<Longrightarrow> safe_step c c'"
  unfolding dispose_meridian_recovery_def
  by (auto split: option.splits simp: and_then_Inr
      intro: safe_step_trans [OF dispose.writer_one_safe update_one_task_safe])

lemma settle_local_execution_safe: "settle_local_execution e ad i a c = Inr c' \<Longrightarrow> safe_step c c'"
  by (simp add: settle_local_execution_def locals.writer_one_safe)

end
