(* ===== verification/Execution_Helpers.thy ===== *)
theory Execution_Helpers
  imports Execution_Resolution
begin

text \<open>
  Executions that a host helper finishes after the Agent process has handed them over: Agent
  updates (execution_update_handoff.go), decommissioning (execution_decommission_step.go,
  agent_decommission_tasks.go), Tailscale updates (tailscale_update_tasks.go) and operating system
  reinstallation (os_reinstall_backup.go, os_reinstall_reconnect.go); and the retirement of a
  machine identity (agent_reconnect_execution.go, agent_reinstall_work.go).
\<close>

section \<open>Handing an execution to a helper\<close>

text \<open>
  The three handoffs consume a running execution in phase \<open>handoff\<close> once; they differ in the kind
  and the first helper phase.
\<close>

definition handoff_guard :: "env \<Rightarrow> center \<Rightarrow> string \<Rightarrow> string \<Rightarrow> string \<Rightarrow> string \<Rightarrow> string \<Rightarrow> int \<Rightarrow> execution \<Rightarrow> bool" where
  "handoff_guard e c kind agentID sessionID i taskID attempt r =
     (owned c agentID sessionID i r \<and> ex_task_id r = taskID \<and> ex_attempt r = attempt \<and> ex_kind r = kind \<and>
      ex_state r = Running \<and> ex_phase r = ''handoff'' \<and> now_stamp e < ex_expires_at r)"

definition handoff_set :: "env \<Rightarrow> string \<Rightarrow> execution \<Rightarrow> execution" where
  "handoff_set e phase r =
     r\<lparr>ex_state := HelperRunning, ex_phase := phase, ex_updated_at := now_stamp e,
       ex_expires_at := stamp_of (e_now e + 30 * minute)\<rparr>"

definition lease_row_guard :: "env \<Rightarrow> task_table \<Rightarrow> string \<Rightarrow> int \<Rightarrow> task_row \<Rightarrow> bool" where
  "lease_row_guard e t agentID attempt r =
     (tr_table r = t \<and> tr_agent r = agentID \<and> tr_attempt r = attempt \<and> tr_state r = ''running'' \<and>
      now_stamp e < tr_lease_expires_at r)"

definition beginAgentUpdateExecution :: "env \<Rightarrow> string \<Rightarrow> string \<Rightarrow> string \<Rightarrow> int \<Rightarrow> string \<Rightarrow> string \<Rightarrow> center \<Rightarrow> outcome" where
  "beginAgentUpdateExecution e agentID credential taskID attempt executionID sessionID c =
     (case authenticateAgentInQuery e c agentID credential of
        Some err \<Rightarrow> (c, Some err)
      | None \<Rightarrow>
          if executionID = [] \<or> sessionID = [] \<or> attempt \<le> 0 then (c, Some ExecutionAuthorization)
          else transact c (and_then
            (update_one ExecutionAuthorization
              (handoff_guard e c ''agent.update'' agentID sessionID executionID taskID attempt) (handoff_set e ''helper'') c)
            (update_one_task StaleTaskLease (\<lambda>r. lease_row_guard e AgentUpdates agentID attempt r \<and> tr_id r = taskID)
              (\<lambda>r. r\<lparr>tr_state := ''installing'', tr_lease_expires_at := NoStamp, tr_updated_at := now_stamp e\<rparr>))))"

definition beginAgentDecommission :: "env \<Rightarrow> string \<Rightarrow> string \<Rightarrow> string \<Rightarrow> int \<Rightarrow> string \<Rightarrow> string \<Rightarrow> center \<Rightarrow> outcome" where
  "beginAgentDecommission e agentID credential taskID attempt executionID sessionID c =
     (if taskID \<noteq> agentDecommissionTaskID agentID \<or> attempt \<le> 0 then (c, Some StaleTaskLease)
      else case authenticateAgentInQuery e c agentID credential of
        Some err \<Rightarrow> (c, Some err)
      | None \<Rightarrow>
          if executionID = [] \<or> sessionID = [] then (c, Some ExecutionAuthorization)
          else transact c (and_then (and_then
            (update_one ExecutionAuthorization
              (handoff_guard e c ''agent.decommission'' agentID sessionID executionID taskID attempt) (handoff_set e ''cleanup'') c)
            (update_one_task StaleTaskLease (lease_row_guard e AgentDecommissions agentID attempt)
              (\<lambda>r. r\<lparr>tr_state := ''cleaning'', tr_lease_expires_at := NoStamp, tr_updated_at := now_stamp e\<rparr>)))
            (recordTaskEvent e taskID agentID ''agent.decommission'' 1 ''claimed''
              (''persistent host cleanup helper started attempt '' @ int_str attempt))))"

definition beginTailscaleUpdate :: "env \<Rightarrow> string \<Rightarrow> string \<Rightarrow> string \<Rightarrow> string \<Rightarrow> string \<Rightarrow> int \<Rightarrow> center \<Rightarrow> outcome" where
  "beginTailscaleUpdate e agentID credential taskID executionID sessionID attempt c =
     (case authenticateAgentInQuery e c agentID credential of
        Some err \<Rightarrow> (c, Some err)
      | None \<Rightarrow>
          transact c (and_then (and_then
            (update_one ExecutionAuthorization
              (handoff_guard e c ''tailscale.update'' agentID sessionID executionID taskID attempt) (handoff_set e ''start'') c)
            (update_one_task StaleTaskLease (\<lambda>r. lease_row_guard e TailscaleUpdateTasks agentID attempt r \<and> tr_id r = taskID)
              (\<lambda>r. r\<lparr>tr_state := ''awaiting_decision'', tr_lease_expires_at := NoStamp, tr_error := [], tr_updated_at := now_stamp e\<rparr>)))
            (recordTaskEvent e taskID agentID ''tailscale.update'' 1 ''claimed'' ''Waiting for the update service and reconnect'')))"

section \<open>Steps of the update helper\<close>

definition helper_previous :: "string \<Rightarrow> string option" where
  "helper_previous phase =
     map_of [(''stop'', ''helper''), (''backup'', ''stop''), (''preserve'', ''backup''), (''install'', ''preserve''),
             (''start'', ''install'')] phase"

definition helper_guard :: "env \<Rightarrow> string \<Rightarrow> string \<Rightarrow> string \<Rightarrow> string \<Rightarrow> execution \<Rightarrow> bool" where
  "helper_guard e agentID sessionID i previous r =
     (ex_id r = i \<and> ex_agent_id r = agentID \<and> ex_session_id r = sessionID \<and> ex_kind r = ''agent.update'' \<and>
      ex_state r = HelperRunning \<and> ex_phase r = previous \<and> ex_disposition r = [] \<and> now_stamp e < ex_expires_at r)"

definition phase_set :: "env \<Rightarrow> string \<Rightarrow> execution \<Rightarrow> execution" where
  "phase_set e phase r = r\<lparr>ex_phase := phase, ex_updated_at := now_stamp e\<rparr>"

definition CheckUpdateHelperStep :: "env \<Rightarrow> string \<Rightarrow> string \<Rightarrow> string \<Rightarrow> string \<Rightarrow> center \<Rightarrow> outcome" where
  "CheckUpdateHelperStep e agentID sessionID i phase c =
     (case helper_previous phase of
        None \<Rightarrow> (c, Some ExecutionAuthorization)
      | Some previous \<Rightarrow>
          transact c (update_one ExecutionAuthorization (helper_guard e agentID sessionID i previous) (phase_set e phase) c))"

definition UpdateHelperObserved :: "env \<Rightarrow> string \<Rightarrow> string \<Rightarrow> string \<Rightarrow> center \<Rightarrow> center_error + bool" where
  "UpdateHelperObserved e agentID sessionID i c =
     (case find (helper_guard e agentID sessionID i ''start'') (executions c) of
        None \<Rightarrow> Inl ExecutionAuthorization
      | Some r \<Rightarrow>
          (case (update_row c (ex_task_id r) agentID (ex_attempt r), agent_row_of c agentID) of
             (Some u, Some a) \<Rightarrow>
               if tr_state u \<noteq> ''installing'' then Inl ExecutionAuthorization
               else Inr (parse_stamp (ag_last_seen_at a) \<noteq> None \<and> ag_remote_update_supported a \<and>
                         ag_version a = tr_target_version u \<and> seen_recently e (ag_last_seen_at a))
           | _ \<Rightarrow> Inl ExecutionAuthorization))"

section \<open>Steps of the decommissioning helper\<close>

text \<open>SQLite's \<^verbatim>\<open>LIKE\<close> ignores the case of ASCII letters; the patterns are a prefix, and a prefix with a suffix.\<close>

definition like_prefix :: "string \<Rightarrow> string \<Rightarrow> bool" where
  "like_prefix s p = has_prefix (to_lower s) p"

definition cleanup_done :: "string \<Rightarrow> bool" where
  "cleanup_done s =
     (length s \<ge> length ''cleanup:'' + length '':done'' \<and> like_prefix s ''cleanup:'' \<and> has_suffix (to_lower s) '':done'')"

definition cleanup_phase :: "int \<Rightarrow> string \<Rightarrow> string" where
  "cleanup_phase n phase = ''cleanup:'' @ int_str n @ '':'' @ phase"

definition decommission_guard :: "env \<Rightarrow> string \<Rightarrow> string \<Rightarrow> int \<Rightarrow> int \<Rightarrow> execution \<Rightarrow> bool" where
  "decommission_guard e agentID taskID attempt n r =
     (ex_agent_id r = agentID \<and> ex_task_id r = taskID \<and> ex_attempt r = attempt \<and> ex_kind r = ''agent.decommission'' \<and>
      ex_state r = HelperRunning \<and> ex_disposition r = [] \<and> now_stamp e < ex_expires_at r \<and>
      (ex_phase r = (if n = 1 then ''cleanup'' else []) \<or> like_prefix (ex_phase r) (cleanup_phase (n - 1) [])) \<and>
      \<not> cleanup_done (ex_phase r))"

definition decommission_phases :: "string list" where
  "decommission_phases = [''command'', ''runtime'', ''files'', ''cancel-update'', ''done'']"

definition AuthorizeDecommissionStep :: "env \<Rightarrow> string \<Rightarrow> string \<Rightarrow> int \<Rightarrow> int \<Rightarrow> string \<Rightarrow> center \<Rightarrow> outcome" where
  "AuthorizeDecommissionStep e taskID token attempt n phase c =
     (if token = [] \<or> attempt \<le> 0 \<or> n \<le> 0 \<or> n > 1024 \<or> phase \<notin> set decommission_phases
      then (c, Some ExecutionAuthorization)
      else case find (\<lambda>r. tr_table r = AgentDecommissions \<and> agentDecommissionTaskID (tr_agent r) = taskID \<and>
               tr_attempt r = attempt \<and> tr_state r = ''cleaning'') (tasks c) of
        None \<Rightarrow> (c, Some ExecutionAuthorization)
      | Some d \<Rightarrow>
          if tr_token_hash d \<noteq> e_token_hash e token then (c, Some ExecutionAuthorization)
          else transact c (update_one ExecutionAuthorization (decommission_guard e (tr_agent d) taskID attempt n)
                 (phase_set e (cleanup_phase n phase)) c))"

definition cleaning_row :: "env \<Rightarrow> string \<Rightarrow> string \<Rightarrow> int \<Rightarrow> execution \<Rightarrow> bool" where
  "cleaning_row e agentID taskID attempt r =
     (ex_agent_id r = agentID \<and> ex_task_id r = taskID \<and> ex_attempt r = attempt \<and> ex_kind r = ''agent.decommission'' \<and>
      ex_state r = HelperRunning \<and> (ex_phase r = ''cleanup'' \<or> like_prefix (ex_phase r) ''cleanup:'') \<and>
      ex_disposition r = [] \<and> now_stamp e < ex_expires_at r)"

definition cleaned_guard :: "env \<Rightarrow> string \<Rightarrow> string \<Rightarrow> execution \<Rightarrow> bool" where
  "cleaned_guard e i previous r =
     (ex_id r = i \<and> ex_state r = HelperRunning \<and> ex_phase r = previous \<and> ex_disposition r = [] \<and>
      now_stamp e < ex_expires_at r)"

definition cleaned_set :: "env \<Rightarrow> bool \<Rightarrow> string \<Rightarrow> string \<Rightarrow> execution \<Rightarrow> execution" where
  "cleaned_set e ok message sealed r =
     r\<lparr>ex_state := (if ok then Succeeded else Unknown), 
       ex_phase := (if ok then ''completed'' else if message \<noteq> [] then ex_phase r else ''cleanup''),
       ex_last_error := message, ex_sealed_result := sealed, ex_updated_at := now_stamp e\<rparr>"

text \<open>\<open>encode attempt error\<close> is the JSON of the evidence map.\<close>

definition cleanup_invalid :: center_error where
  "cleanup_invalid = CenterError ''center: invalid Agent host cleanup callback''"

definition completeAgentDecommissionCallback :: "env \<Rightarrow> (int \<Rightarrow> string \<Rightarrow> string) \<Rightarrow> string \<Rightarrow> string \<Rightarrow> int \<Rightarrow> string \<Rightarrow> center \<Rightarrow> outcome" where
  "completeAgentDecommissionCallback e encode taskID0 token0 attempt error0 c =
     (let taskID = trim_space taskID0; token = trim_space token0; ok = (error0 = []);
          message = (if ok then [] else e_safe_error e error0) in
      if taskID = [] \<or> token = [] \<or> attempt \<le> 0 then (c, Some cleanup_invalid)
      else case find (\<lambda>r. tr_table r = AgentDecommissions \<and> agentDecommissionTaskID (tr_agent r) = taskID) (tasks c) of
        None \<Rightarrow> (c, Some cleanup_invalid)
      | Some d \<Rightarrow>
          if tr_attempt d \<noteq> attempt \<or> tr_state d \<noteq> ''cleaning'' \<or> tr_token_hash d \<noteq> e_token_hash e token
          then (c, Some cleanup_invalid)
          else (case find (cleaning_row e (tr_agent d) taskID attempt) (executions c) of
             None \<Rightarrow> (c, Some ExecutionAuthorization)
           | Some r \<Rightarrow>
               if message = [] \<and> \<not> has_suffix (ex_phase r) '':done'' then (c, Some ExecutionAuthorization)
               else (case e_seal e (result_aad (ex_id r)) (encode attempt message) of
                  None \<Rightarrow> (c, Some (CenterError ''secret: seal''))
                | Some sealed \<Rightarrow>
                    transact c (and_then (and_then
                      (update_one ExecutionAuthorization (cleaned_guard e (ex_id r) (ex_phase r))
                        (cleaned_set e ok message sealed) c)
                      (update_one_task (CenterError ''center: Agent host cleanup task is stale'')
                        (\<lambda>x. tr_table x = AgentDecommissions \<and> tr_agent x = tr_agent d \<and> tr_state x = ''cleaning'' \<and> tr_attempt x = attempt)
                        (\<lambda>x. x\<lparr>tr_state := (if ok then ''succeeded'' else ''failed''), tr_lease_expires_at := NoStamp,
                               tr_error := message, tr_updated_at := now_stamp e\<rparr>)))
                      (recordTaskEvent e (agentDecommissionTaskID (tr_agent d)) (tr_agent d) ''agent.decommission'' 1
                        (if ok then ''succeeded'' else ''failed'') message)))))"

section \<open>Queueing, claiming and failing a decommission\<close>

definition queueAgentDecommission :: "env \<Rightarrow> nat \<Rightarrow> string \<Rightarrow> center \<Rightarrow> outcome" where
  "queueAgentDecommission e rowid agentID c =
     (let now = now_stamp e;
          mine = (\<lambda>r. tr_table r = AgentDecommissions \<and> tr_agent r = agentID);
          keep = (\<lambda>r. tr_state r \<in> {''cleaning'', ''succeeded''});
          row = \<lparr>tr_table = AgentDecommissions, tr_rowid = rowid, tr_id = [], tr_kind = [], tr_agent = agentID, tr_application = [],
                 tr_deployment = [], tr_action = [], tr_endpoint = [], tr_gateway_node = [], tr_revision = 0,
                 tr_applied_revision = 0, tr_attempt = 0, tr_state = ''pending'', tr_lease_expires_at = NoStamp,
                 tr_error = [], tr_target_version = [], tr_token_hash = [], tr_backup = [], tr_network = [], tr_digest = [],
                 tr_prepared_digest = [], tr_reconciliation_required = False, tr_reconciliation_requested = False,
                 tr_updated_at = now\<rparr>;
          rows = (if sql_exists mine (tasks c)
                  then sql_update mine
                    (\<lambda>r. r\<lparr>tr_state := (if keep r then tr_state r else ''pending''),
                           tr_token_hash := (if keep r then tr_token_hash r else []),
                           tr_lease_expires_at := NoStamp, tr_error := [], tr_updated_at := now\<rparr>) (tasks c)
                  else tasks c @ [row]);
          c1 = c\<lparr>tasks := rows\<rparr>
      in transact c1 (recordTaskEvent e (agentDecommissionTaskID agentID) agentID ''agent.decommission'' 1 ''queued'' ''host cleanup queued'' c1))"

text \<open>\<open>callbackURL\<close> and \<open>token\<close> are the results of \<^verbatim>\<open>agentDecommissionCallbackURL\<close> and \<^verbatim>\<open>randomToken(32)\<close>.\<close>

definition claimAgentDecommission :: "env \<Rightarrow> string option \<Rightarrow> string option \<Rightarrow> string \<Rightarrow> center \<Rightarrow> center_error + (center \<times> agent_task option)" where
  "claimAgentDecommission e callbackURL token agentID c =
     (case find (\<lambda>r. tr_table r = AgentDecommissions \<and> tr_agent r = agentID \<and> tr_state r = ''pending'') (tasks c) of
        None \<Rightarrow> Inr (c, None)
      | Some d \<Rightarrow>
          (case (callbackURL, token) of
             (None, _) \<Rightarrow> Inl (CenterError ''center: resolve public Agent cleanup callback'')
           | (Some _, None) \<Rightarrow> Inl (CenterError ''center: random token'')
           | (Some _, Some callbackToken) \<Rightarrow>
               let P = (\<lambda>r. tr_table r = AgentDecommissions \<and> tr_agent r = agentID \<and> tr_state r = ''pending'' \<and> tr_attempt r = tr_attempt d);
                   task = blank_task\<lparr>at_kind := ''agent.decommission'', at_id := agentDecommissionTaskID agentID,
                      at_attempt := tr_attempt d + 1, at_revision := 1\<rparr>
               in case and_then
                    (update_one_task (CenterError ''center: Agent host cleanup changed while claiming'') P
                      (\<lambda>r. r\<lparr>tr_state := ''running'', tr_attempt := tr_attempt r + 1, tr_token_hash := e_token_hash e callbackToken,
                             tr_lease_expires_at := stamp_of (e_now e + taskLeaseDuration), tr_error := [], tr_updated_at := now_stamp e\<rparr>) c)
                    (recordTaskEvent e (at_id task) agentID ''agent.decommission'' 1 ''claimed'' (''attempt '' @ int_str (at_attempt task))) of
                    Inl err \<Rightarrow> Inl err
                  | Inr c' \<Rightarrow> Inr (c', Some task)))"

definition failAgentDecommissionClaim :: "env \<Rightarrow> (center \<Rightarrow> center_error + center) \<Rightarrow> string \<Rightarrow> int \<Rightarrow> string \<Rightarrow> center \<Rightarrow> outcome" where
  "failAgentDecommissionClaim e commit agentID attempt taskError c =
     (let t = trim_space taskError;
          message = take 1024 (if t = [] then ''Agent could not start its persistent host cleanup helper'' else t);
          P = (\<lambda>r. tr_table r = AgentDecommissions \<and> tr_agent r = agentID \<and> tr_state r = ''running'' \<and> tr_attempt r = attempt)
      in if rows_affected P (tasks c) \<noteq> 1
         then (case find (\<lambda>r. tr_table r = AgentDecommissions \<and> tr_agent r = agentID) (tasks c) of
                 None \<Rightarrow> (c, Some StaleTaskLease)
               | Some d \<Rightarrow> if tr_attempt d \<noteq> attempt \<or> tr_state d \<noteq> ''failed'' then (c, Some StaleTaskLease)
                           else transact c (commit c))
         else transact c (and_then
                (recordTaskEvent e (agentDecommissionTaskID agentID) agentID ''agent.decommission'' 1 ''failed'' message
                  (update_task_rows P (\<lambda>r. r\<lparr>tr_state := ''failed'', tr_token_hash := [], tr_lease_expires_at := NoStamp,
                     tr_error := message, tr_updated_at := now_stamp e\<rparr>) c))
                commit))"

section \<open>Tailscale updates\<close>

record update_observation =
  uo_task_id :: string
  uo_state :: string
  uo_installed_version :: string
  uo_running_version :: string

text \<open>\<^verbatim>\<open>tailscalehost.UpdateUnitName\<close> is empty unless the id has its prefix and at most 128 bytes.\<close>

definition update_unit_valid :: "string \<Rightarrow> bool" where
  "update_unit_valid taskID = (has_prefix taskID ''tailscale-update-'' \<and> length taskID \<le> 128)"

definition tailscale_row :: "env \<Rightarrow> string \<Rightarrow> string \<Rightarrow> execution \<Rightarrow> bool" where
  "tailscale_row e agentID taskID r =
     (ex_agent_id r = agentID \<and> ex_task_id r = taskID \<and> ex_kind r = ''tailscale.update'' \<and> ex_state r = HelperRunning \<and>
      ex_phase r = ''start'' \<and> ex_disposition r = [] \<and> now_stamp e < ex_expires_at r)"

definition observed_guard :: "string \<Rightarrow> string \<Rightarrow> string \<Rightarrow> int \<Rightarrow> execution \<Rightarrow> bool" where
  "observed_guard i agentID taskID attempt r =
     (ex_id r = i \<and> ex_agent_id r = agentID \<and> ex_task_id r = taskID \<and> ex_attempt r = attempt \<and>
      ex_state r = HelperRunning \<and> ex_phase r = ''start'' \<and> ex_disposition r = [])"

definition observed_state :: "update_observation \<Rightarrow> string \<Rightarrow> string" where
  "observed_state ob target =
     (if uo_state ob = ''failed'' then ''failed''
      else if uo_state ob = ''succeeded'' \<and> uo_installed_version ob = target \<and> uo_running_version ob = target
      then ''succeeded'' else [])"

definition reconcileTailscaleUpdate :: "env \<Rightarrow> string \<Rightarrow> update_observation option \<Rightarrow> center \<Rightarrow> center_error + center" where
  "reconcileTailscaleUpdate e agentID observation c =
     (case observation of
        None \<Rightarrow> Inr c
      | Some ob \<Rightarrow>
     (if \<not> update_unit_valid (uo_task_id ob) then Inr c
      else case find (\<lambda>r. tr_table r = TailscaleUpdateTasks \<and> tr_id r = uo_task_id ob \<and> tr_agent r = agentID \<and>
               tr_state r = ''awaiting_decision'') (tasks c) of
        None \<Rightarrow> Inr c
      | Some u \<Rightarrow>
          let st = observed_state ob (tr_target_version u);
              message = (if st = ''failed'' then ''Package update failed; inspect the node before retrying'' else []) in
          if st = [] then Inr c
          else (case find (tailscale_row e agentID (uo_task_id ob)) (executions c) of
             None \<Rightarrow> Inr c
           | Some r \<Rightarrow>
               (case e_seal e (result_aad (ex_id r)) (e_marshal_evidence e
                    \<lparr>ee_result = ''{}'', ee_succeeded = (st = ''succeeded''), ee_unknown = False, ee_runtime_generation = None\<rparr>) of
                  None \<Rightarrow> Inl (CenterError ''secret: seal'')
                | Some sealed \<Rightarrow>
                    and_then (and_then (and_then
                      (update_one ExecutionAuthorization (observed_guard (ex_id r) agentID (uo_task_id ob) (ex_attempt r))
                        (result_set e sealed message) c)
                      (update_one_task StaleTaskLease
                        (\<lambda>x. tr_table x = TailscaleUpdateTasks \<and> tr_id x = uo_task_id ob \<and> tr_agent x = agentID \<and>
                           tr_attempt x = ex_attempt r \<and> tr_state x = ''awaiting_decision'')
                        (\<lambda>x. x\<lparr>tr_state := st, tr_error := message, tr_updated_at := now_stamp e\<rparr>)))
                      (\<lambda>d. case validateExecutionProjection d (ex_id r) (st = ''succeeded'') of
                             Some err \<Rightarrow> Inl err
                           | None \<Rightarrow> finalizeExecution e agentID (ex_session_id r) (ex_id r) d))
                      (recordTaskEvent e (uo_task_id ob) agentID ''tailscale.update'' 1 st message)))))"

definition ack_guard :: "string \<Rightarrow> string \<Rightarrow> execution \<Rightarrow> bool" where
  "ack_guard agentID taskID r =
     (ex_task_id r = taskID \<and> ex_agent_id r = agentID \<and> ex_kind r = ''tailscale.update'' \<and> ex_disposition r = [] \<and>
      (ex_state r = Failed \<or> ex_state r = Unknown \<or> ex_state r = HelperRunning))"

definition ack_set :: "stamp \<Rightarrow> string \<Rightarrow> string \<Rightarrow> execution \<Rightarrow> execution" where
  "ack_set now note actor r =
     (dispose_set now ''abandon'' note actor r)\<lparr>ex_state := (if ex_state r = HelperRunning then Unknown else ex_state r)\<rparr>"

definition AcknowledgeTailscaleUpdate :: "env \<Rightarrow> string \<Rightarrow> string \<Rightarrow> string \<Rightarrow> bool \<Rightarrow> string \<Rightarrow> center \<Rightarrow> outcome" where
  "AcknowledgeTailscaleUpdate e adminID agentID taskID confirmStopped note c =
     (if \<not> confirmStopped \<or> trim_space note = [] \<or> length note > 500
      then (c, Some (CenterError ''center: confirm the update stopped and record the review''))
      else let now = now_stamp e; safe = e_safe_error e (trim_space note) in
        transact c (and_then
          (update_one_task (CenterError ''center: update is not eligible for review'')
            (\<lambda>r. tr_table r = TailscaleUpdateTasks \<and> tr_id r = taskID \<and> tr_agent r = agentID \<and>
               (tr_state r = ''failed'' \<or>
                tr_state r \<in> {''awaiting_decision'', ''pending''} \<and> tr_updated_at r < stamp_of (e_now e - 20 * minute)))
            (\<lambda>r. r\<lparr>tr_state := ''abandoned'', tr_error := ''Reviewed by administrator'', tr_updated_at := now\<rparr>) c)
          (\<lambda>d. recordTaskEvent e taskID agentID ''tailscale.update'' 1 ''failed'' (''Reviewed by administrator: '' @ safe)
             (update_executions (ack_guard agentID taskID) (ack_set now safe adminID) d))))"

section \<open>Operating system reinstallation\<close>

definition reinstall_kind :: string where
  "reinstall_kind = ''node.os-reinstall''"

definition reinstall_guard :: "env \<Rightarrow> center \<Rightarrow> string \<Rightarrow> string \<Rightarrow> string \<Rightarrow> string \<Rightarrow> string \<Rightarrow> execution \<Rightarrow> bool" where
  "reinstall_guard e c phase agentID sessionID i taskID r =
     (owned c agentID sessionID i r \<and> ex_task_id r = taskID \<and> ex_kind r = reinstall_kind \<and> ex_state r = Running \<and>
      ex_phase r = phase \<and> now_stamp e < ex_expires_at r)"

definition reinstall_task_guard :: "env \<Rightarrow> string \<Rightarrow> string \<Rightarrow> string \<Rightarrow> task_row \<Rightarrow> bool" where
  "reinstall_task_guard e st agentID taskID r =
     (tr_table r = OSReinstallTasks \<and> tr_id r = taskID \<and> tr_agent r = agentID \<and> tr_state r = st \<and> tr_attempt r = 1 \<and>
      now_stamp e < tr_lease_expires_at r)"

text \<open>The joined row both calls read: the execution, its task of attempt 1 and an active Agent.\<close>

definition reinstall_task :: "env \<Rightarrow> center \<Rightarrow> string \<Rightarrow> string \<Rightarrow> string \<Rightarrow> string \<Rightarrow> string \<Rightarrow> task_row option" where
  "reinstall_task e c phase st agentID sessionID i =
     (case find (\<lambda>r. reinstall_guard e c phase agentID sessionID i (ex_task_id r) r) (executions c) of
        None \<Rightarrow> None
      | Some r \<Rightarrow>
          (case agent_row_of c agentID of
             None \<Rightarrow> None
           | Some a \<Rightarrow>
               if ag_status a \<noteq> ''active'' \<or> ag_credential_revoked_at a \<noteq> NoStamp then None
               else find (\<lambda>q. reinstall_task_guard e st agentID (ex_task_id r) q \<and> tr_attempt q = ex_attempt r) (tasks c)))"

text \<open>
  Storing the verified backup. \<open>accepted\<close> is the outcome of the artifact checks (decryption,
  \<^verbatim>\<open>recovery.Inspect\<close>, access snapshot, network plan) and \<open>plan\<close> the sealed network plan.
\<close>

record backup_evidence =
  be_ciphertext :: string
  be_digest :: string

definition StoreOSReinstallBackup :: "env \<Rightarrow> (task_row \<Rightarrow> bool) \<Rightarrow> (task_row \<Rightarrow> string) \<Rightarrow> string \<Rightarrow> string \<Rightarrow> string \<Rightarrow> backup_evidence \<Rightarrow> center \<Rightarrow> outcome" where
  "StoreOSReinstallBackup e accepted plan agentID sessionID i evidence c =
     (case reinstall_task e c ''apply'' ''running'' agentID sessionID i of
        None \<Rightarrow> (c, Some (CenterError ''center: reinstall backup evidence rejected''))
      | Some q \<Rightarrow>
          if \<not> accepted q then (c, Some (CenterError ''center: reinstall backup evidence rejected''))
          else transact c (and_then
            (update_one ExecutionAuthorization (reinstall_guard e c ''apply'' agentID sessionID i (tr_id q)) (phase_set e ''backup_ready'') c)
            (update_one_task ExecutionAuthorization (reinstall_task_guard e ''running'' agentID (tr_id q))
              (\<lambda>r. r\<lparr>tr_state := ''backup_ready'', tr_backup := be_ciphertext evidence, tr_digest := be_digest evidence,
                     tr_network := plan q, tr_updated_at := now_stamp e\<rparr>))))"

definition is_hex_lower :: "char \<Rightarrow> bool" where
  "is_hex_lower ch = (is_digit ch \<or> CHR ''a'' \<le> ch \<and> ch \<le> CHR ''f'')"

definition is_digest :: "string \<Rightarrow> bool" where
  "is_digest v = (has_prefix v ''sha256:'' \<and> length (drop 7 v) = 64 \<and> list_all is_hex_lower (drop 7 v))"

definition arm_set :: "env \<Rightarrow> execution \<Rightarrow> execution" where
  "arm_set e r =
     r\<lparr>ex_state := HelperRunning, ex_phase := ''reinstall_armed'', ex_expires_at := stamp_of (e_now e + 45 * minute),
       ex_updated_at := now_stamp e\<rparr>"

text \<open>
  \<open>digest\<close> is \<^verbatim>\<open>recovery.Digest\<close>; \<open>opens\<close> says that the stored plan, password and access snapshot
  open and render.
\<close>

definition arm_rejected :: center_error where
  "arm_rejected = CenterError ''center: reinstall arming evidence rejected''"

definition ArmOSReinstall :: "env \<Rightarrow> (string \<Rightarrow> string) \<Rightarrow> (task_row \<Rightarrow> bool) \<Rightarrow> string \<Rightarrow> string \<Rightarrow> string \<Rightarrow> string \<Rightarrow> string \<Rightarrow> center \<Rightarrow> outcome" where
  "ArmOSReinstall e digest opens agentID sessionID i backupDigest preparedDigest c =
     (if agentID = [] \<or> sessionID = [] \<or> i = [] \<or> \<not> is_digest backupDigest \<or> \<not> is_digest preparedDigest
      then (c, Some arm_rejected)
      else case reinstall_task e c ''backup_ready'' ''backup_ready'' agentID sessionID i of
        None \<Rightarrow> (c, Some arm_rejected)
      | Some q \<Rightarrow>
          if tr_digest q \<noteq> backupDigest \<or> digest (tr_backup q) \<noteq> tr_digest q \<or> \<not> opens q then (c, Some arm_rejected)
          else transact c (and_then
            (update_one ExecutionAuthorization (reinstall_guard e c ''backup_ready'' agentID sessionID i (tr_id q)) (arm_set e) c)
            (update_one_task ExecutionAuthorization
              (\<lambda>r. reinstall_task_guard e ''backup_ready'' agentID (tr_id q) r \<and> tr_digest r = backupDigest)
              (\<lambda>r. r\<lparr>tr_state := ''armed'', tr_prepared_digest := preparedDigest, tr_lease_expires_at := NoStamp,
                     tr_updated_at := now_stamp e\<rparr>))))"

definition armed_row :: "env \<Rightarrow> string \<Rightarrow> string \<Rightarrow> string \<Rightarrow> string \<Rightarrow> execution \<Rightarrow> bool" where
  "armed_row e agentID sessionID i taskID r =
     (ex_id r = i \<and> ex_agent_id r = agentID \<and> ex_task_id r = taskID \<and> ex_attempt r = 1 \<and> ex_kind r = reinstall_kind \<and>
      (ex_state r = HelperRunning \<and> ex_phase r = ''reinstall_armed'' \<and> ex_expires_at r \<noteq> NoStamp \<or>
       ex_state r = Unknown \<and> ex_phase r = ''reinstall_armed'' \<and> ex_expires_at r \<noteq> NoStamp \<and> ex_expires_at r \<le> now_stamp e \<or>
       ex_state r = Succeeded \<and> ex_phase r = ''reinstall_verified'') \<and>
      ex_disposition r = [] \<and> ex_identity_retired_at r = NoStamp \<and> ex_session_id r \<noteq> sessionID)"

definition verified_guard :: "env \<Rightarrow> string \<Rightarrow> string \<Rightarrow> string \<Rightarrow> string \<Rightarrow> execution \<Rightarrow> bool" where
  "verified_guard e agentID oldSession i taskID r =
     (ex_id r = i \<and> ex_agent_id r = agentID \<and> ex_task_id r = taskID \<and> ex_session_id r = oldSession \<and>
      (ex_state r = HelperRunning \<or> ex_state r = Unknown) \<and> ex_phase r = ''reinstall_armed'' \<and> ex_disposition r = [] \<and>
      ex_identity_retired_at r = NoStamp \<and> ex_expires_at r \<noteq> NoStamp \<and>
      (ex_state r = HelperRunning \<or> ex_expires_at r \<le> now_stamp e))"

definition verified_set :: "env \<Rightarrow> execution \<Rightarrow> execution" where
  "verified_set e r =
     r\<lparr>ex_state := Succeeded, ex_phase := ''reinstall_verified'', ex_last_error := [], ex_updated_at := now_stamp e\<rparr>"

definition reconnect_rejected :: center_error where
  "reconnect_rejected = CenterError ''center: reinstall reconnect evidence rejected''"

text \<open>\<open>verify\<close> is the identity, key and network comparison (\<^verbatim>\<open>osreinstall.VerifyReconnect\<close> and its inputs).\<close>

definition CompleteOSReinstall :: "env \<Rightarrow> (task_row \<Rightarrow> bool) \<Rightarrow> string \<Rightarrow> string \<Rightarrow> string \<Rightarrow> string \<Rightarrow> string \<Rightarrow> center \<Rightarrow> outcome" where
  "CompleteOSReinstall e verify agentID credential sessionID i taskID c =
     (if agentID = [] \<or> credential = [] \<or> sessionID = [] \<or> i = [] \<or> taskID = [] then (c, Some reconnect_rejected)
      else if authenticateAgentInQuery e c agentID credential \<noteq> None \<or> session_of c agentID \<noteq> Some sessionID
      then (c, Some reconnect_rejected)
      else case (find (\<lambda>q. tr_table q = OSReinstallTasks \<and> tr_id q = taskID \<and> tr_agent q = agentID \<and>
                   tr_state q \<in> {''armed'', ''succeeded''} \<and> tr_attempt q = 1) (tasks c),
                 find (armed_row e agentID sessionID i taskID) (executions c)) of
        (Some q, Some r) \<Rightarrow>
          if \<not> verify q then (c, Some reconnect_rejected)
          else if tr_state q = ''succeeded'' \<and> ex_state r = Succeeded then (c, None)
          else if tr_state q \<noteq> ''armed'' \<or> (ex_state r \<noteq> HelperRunning \<and> ex_state r \<noteq> Unknown) then (c, Some reconnect_rejected)
          else transact c (and_then (and_then
            (update_one_task reconnect_rejected
              (\<lambda>x. tr_table x = OSReinstallTasks \<and> tr_id x = taskID \<and> tr_agent x = agentID \<and> tr_state x = ''armed'' \<and> tr_attempt x = 1)
              (\<lambda>x. x\<lparr>tr_state := ''succeeded'', tr_error := [], tr_updated_at := now_stamp e\<rparr>) c)
            (update_one reconnect_rejected (verified_guard e agentID (ex_session_id r) i taskID) (verified_set e)))
            (recordTaskEvent e taskID agentID reinstall_kind 1 ''succeeded'' ''Debian 13 and original network verified''))
      | _ \<Rightarrow> (c, Some reconnect_rejected))"

section \<open>Retiring a machine identity\<close>

definition live_state :: "exec_state \<Rightarrow> bool" where
  "live_state st = (st = Offered \<or> st = Running \<or> st = HelperRunning)"

definition retire_guard :: "string \<Rightarrow> execution \<Rightarrow> bool" where
  "retire_guard agentID r =
     (ex_agent_id r = agentID \<and> ex_disposition r = [] \<and> ex_state r \<noteq> Succeeded \<and> ex_identity_retired_at r = NoStamp)"

definition retire_set :: "stamp \<Rightarrow> execution \<Rightarrow> execution" where
  "retire_set now r =
     r\<lparr>ex_identity_retired_at := now, ex_updated_at := now,
       ex_state := (if live_state (ex_state r) then Unknown else ex_state r),
       ex_last_error := (if live_state (ex_state r) \<and> ex_last_error r = []
                         then ''Agent identity replaced; inspect the previous machine execution'' else ex_last_error r)\<rparr>"

definition retireAgentExecutionIdentity :: "stamp \<Rightarrow> string \<Rightarrow> center \<Rightarrow> center" where
  "retireAgentExecutionIdentity now agentID c =
     update_executions (retire_guard agentID) (retire_set now)
       (c\<lparr>sessions := filter (\<lambda>(a, _). a \<noteq> agentID) (sessions c)\<rparr>)"

definition pause_guard :: "center \<Rightarrow> string \<Rightarrow> execution \<Rightarrow> bool" where
  "pause_guard c agentID r =
     (ex_agent_id r \<noteq> agentID \<and> ex_kind r = ''application.command'' \<and> ex_disposition r = [] \<and> live_state (ex_state r) \<and>
      sql_exists (\<lambda>x. tr_table x = ApplicationCommands \<and> tr_id x = ex_task_id r \<and> tr_agent x = ex_agent_id r \<and>
        tr_gateway_node x = agentID) (tasks c))"

definition pause_set :: "stamp \<Rightarrow> execution \<Rightarrow> execution" where
  "pause_set now r =
     r\<lparr>ex_state := Unknown, ex_expires_at := now, ex_updated_at := now,
       ex_last_error := (if ex_last_error r = [] then ''Command target is being reinstalled; inspect the remote outcome''
                         else ex_last_error r)\<rparr>"

definition pauseReinstallRelatedCommands :: "stamp \<Rightarrow> string \<Rightarrow> center \<Rightarrow> center" where
  "pauseReinstallRelatedCommands now agentID c = update_executions (pause_guard c agentID) (pause_set now) c"

section \<open>Every helper step keeps the contract\<close>

lemmas helper_defs = handoff_guard_def handoff_set_def helper_guard_def phase_set_def decommission_guard_def
  cleaned_guard_def cleaned_set_def observed_guard_def result_set_def ack_guard_def ack_set_def dispose_set_def
  reinstall_guard_def arm_set_def verified_guard_def verified_set_def retire_guard_def retire_set_def
  pause_guard_def pause_set_def live_state_def owned_def

interpretation handoff: execution_writer "handoff_guard e c k a s i t n" "handoff_set e p" for e c k a s i t n p
  by unfold_locales (auto simp: helper_defs contract_defs)

text \<open>A step that names the phase it consumes is a writer when it goes forward from a phase without a result.\<close>

interpretation helper: execution_writer
  "\<lambda>r. helper_guard e a s i q r \<and> q \<noteq> ''result_received'' \<and> helper_rank q \<le> helper_rank p" "phase_set e p" for e a s i q p
  by unfold_locales (auto simp: helper_defs contract_defs)

interpretation cleaned: execution_writer "\<lambda>r. cleaned_guard e i q r \<and> helper_rank q = 0" "cleaned_set e ok m b" for e i q ok m b
  by unfold_locales (auto simp: helper_defs contract_defs)

lemma cleanup_not_result: "\<not> like_prefix ''result_received'' (cleanup_phase n p)" "\<not> like_prefix ''result_received'' ''cleanup:''"
  by (simp_all add: like_prefix_def cleanup_phase_def to_lower_def lower_char_def less_eq_char_def)

lemma cleanup_rank0: "helper_rank ''cleanup'' = 0"
  by (simp add: helper_rank_def)

definition ranked_phases :: "string list" where
  "ranked_phases = [''stop'', ''backup'', ''preserve'', ''install'', ''start'', ''result_received'', ''reported'']"

lemma ranked_phases_iff: "helper_rank p \<noteq> 0 \<Longrightarrow> p \<in> set ranked_phases"
  by (simp add: helper_rank_def ranked_phases_def split: if_splits)

lemma ranked_not_cleanup: "list_all (\<lambda>p. hd (to_lower p) \<noteq> CHR ''c'') ranked_phases"
  by code_simp

lemma cleanup_rank: "like_prefix p ''cleanup:'' \<Longrightarrow> helper_rank p = 0"
  using ranked_phases_iff [of p] ranked_not_cleanup
  by (cases "to_lower p"; cases "helper_rank p = 0") (auto simp: list_all_iff like_prefix_def)

interpretation decommission: execution_writer "decommission_guard e a t n k" "phase_set e p" for e a t n k p
  by unfold_locales (auto simp: decommission_guard_def phase_set_def contract_defs cleanup_not_result split: if_splits)

interpretation observed: execution_writer "observed_guard i a t n" "result_set e b m" for i a t n e b m
  by unfold_locales (auto simp: helper_defs contract_defs)

interpretation ack: execution_writer "ack_guard a t" "ack_set now m actor" for a t now m actor
  by unfold_locales (auto simp: helper_defs contract_defs)

interpretation backup: execution_writer "reinstall_guard e c ''apply'' a s i t" "phase_set e p" for e c a s i t p
  by unfold_locales (auto simp: helper_defs contract_defs)

interpretation arm: execution_writer "reinstall_guard e c ''backup_ready'' a s i t" "arm_set e" for e c a s i t
  by unfold_locales (auto simp: helper_defs contract_defs)

interpretation verified: execution_writer "verified_guard e a s i t" "verified_set e" for e a s i t
  by unfold_locales (auto simp: helper_defs contract_defs)

interpretation retire: execution_writer "retire_guard a" "retire_set now" for a now
  by unfold_locales (auto simp: helper_defs contract_defs split: if_splits)

interpretation pause: execution_writer "pause_guard c a" "pause_set now" for c a now
  by unfold_locales (auto simp: helper_defs contract_defs)

text \<open>A transaction that writes an execution, then its task row, then an event.\<close>

lemma two_writes_safe:
  assumes "and_then r k = Inr c'" "\<And>d. r = Inr d \<Longrightarrow> safe_step c d" "\<And>d d'. k d = Inr d' \<Longrightarrow> safe_step d d'"
  shows "safe_step c c'"
  using assms by (auto simp: and_then_Inr intro: safe_step_trans)

lemma event_after_safe:
  assumes "and_then r (recordTaskEvent e i a k n ev m) = Inr c'" "\<And>d. r = Inr d \<Longrightarrow> safe_step c d"
  shows "safe_step c c'"
  using assms by (auto simp: and_then_Inr intro: safe_step_trans recordTaskEvent_safe)

lemma task_after_safe:
  assumes "and_then r (update_one_task err P f) = Inr c'" "\<And>d. r = Inr d \<Longrightarrow> safe_step c d"
  shows "safe_step c c'"
  using assms by (auto simp: and_then_Inr intro: safe_step_trans update_one_task_safe)

lemma beginAgentUpdateExecution_safe [safe_intros]: "safe_step c (fst (beginAgentUpdateExecution e a cr t n i s c))"
  unfolding beginAgentUpdateExecution_def
  by (intro safe_cases; erule task_after_safe; erule handoff.writer_one_safe)

lemma beginAgentDecommission_safe [safe_intros]: "safe_step c (fst (beginAgentDecommission e a cr t n i s c))"
  unfolding beginAgentDecommission_def
  by (intro safe_cases; erule event_after_safe; erule task_after_safe; erule handoff.writer_one_safe)

lemma beginTailscaleUpdate_safe [safe_intros]: "safe_step c (fst (beginTailscaleUpdate e a cr t i s n c))"
  unfolding beginTailscaleUpdate_def
  by (intro safe_cases; erule event_after_safe; erule task_after_safe; erule handoff.writer_one_safe)

lemma helper_previous_rank:
  "helper_previous p = Some q \<Longrightarrow> q \<noteq> ''result_received'' \<and> helper_rank p = Suc (helper_rank q)"
  by (auto simp: helper_previous_def helper_rank_def split: if_splits)

lemma CheckUpdateHelperStep_safe [safe_intros]: "safe_step c (fst (CheckUpdateHelperStep e a s i p c))"
proof (cases "helper_previous p")
  case None
  then show ?thesis by (simp add: CheckUpdateHelperStep_def)
next
  case (Some q)
  then have "(\<lambda>r. helper_guard e a s i q r \<and> q \<noteq> ''result_received'' \<and> helper_rank q \<le> helper_rank p) = helper_guard e a s i q"
    using helper_previous_rank by auto
  then show ?thesis using Some helper.writer_call_safe [of c ExecutionAuthorization e a s i q p]
    by (simp add: CheckUpdateHelperStep_def)
qed

lemma AuthorizeDecommissionStep_safe [safe_intros]: "safe_step c (fst (AuthorizeDecommissionStep e t k n m p c))"
  unfolding AuthorizeDecommissionStep_def
  by (intro safe_cases; erule decommission.writer_one_safe)

lemma cleaned_one_safe:
  assumes "find (cleaning_row e a t n) rs = Some r" "update_one err (cleaned_guard e i (ex_phase r)) (cleaned_set e ok m b) c = Inr c'"
  shows "safe_step c c'"
proof -
  have "cleaning_row e a t n r" using assms(1) by (metis find_Some_iff)
  then have "helper_rank (ex_phase r) = 0" using cleanup_rank [of "ex_phase r"] cleanup_rank0 by (auto simp: cleaning_row_def)
  then have "(\<lambda>x. cleaned_guard e i (ex_phase r) x \<and> helper_rank (ex_phase r) = 0) = cleaned_guard e i (ex_phase r)" by auto
  then show ?thesis using assms(2) cleaned.writer_one_safe [of err e i "ex_phase r" ok m b c c'] by simp
qed

lemma completeAgentDecommissionCallback_safe [safe_intros]:
  "safe_step c (fst (completeAgentDecommissionCallback e enc t k n m c))"
  unfolding completeAgentDecommissionCallback_def
  by (intro safe_cases; erule event_after_safe; erule task_after_safe; erule (1) cleaned_one_safe)

lemma queueAgentDecommission_safe [safe_intros]: "safe_step c (fst (queueAgentDecommission e n a c))"
  unfolding queueAgentDecommission_def Let_def recordTaskEvent_def transact_def
  by (auto split: option.splits)

lemma claimAgentDecommission_safe: "claimAgentDecommission e u k a c = Inr (c', t) \<Longrightarrow> safe_step c c'"
  unfolding claimAgentDecommission_def Let_def
  by (auto split: option.splits sum.splits simp: and_then_Inr
      intro: safe_step_trans [OF update_one_task_safe recordTaskEvent_safe])

lemma failAgentDecommissionClaim_safe:
  assumes "\<And>d d'. commit d = Inr d' \<Longrightarrow> safe_step d d'"
  shows "safe_step c (fst (failAgentDecommissionClaim e commit a n m c))"
  unfolding failAgentDecommissionClaim_def
  by (intro safe_cases; (erule assms)?; erule two_writes_safe;
      (erule assms | erule recordTaskEvent_safe_from, rule update_task_rows_safe))

lemma reconcileTailscaleUpdate_safe: "reconcileTailscaleUpdate e a ob c = Inr c' \<Longrightarrow> safe_step c c'"
  unfolding reconcileTailscaleUpdate_def Let_def
  by (auto split: option.splits if_splits simp: and_then_Inr elim!: recordTaskEvent_safe_from
      intro: safe_step_trans [OF safe_step_trans [OF observed.writer_one_safe update_one_task_safe] finalizeExecution_safe])

lemma AcknowledgeTailscaleUpdate_safe [safe_intros]: "safe_step c (fst (AcknowledgeTailscaleUpdate e ad a t ok m c))"
  unfolding AcknowledgeTailscaleUpdate_def
  by (intro safe_cases; erule two_writes_safe;
      (erule update_one_task_safe | erule recordTaskEvent_safe_from, rule ack.writer_safe))

lemma StoreOSReinstallBackup_safe [safe_intros]: "safe_step c (fst (StoreOSReinstallBackup e acc pl a s i ev c))"
  unfolding StoreOSReinstallBackup_def
  by (intro safe_cases; erule task_after_safe; erule backup.writer_one_safe)

lemma ArmOSReinstall_safe [safe_intros]: "safe_step c (fst (ArmOSReinstall e dg op a s i b p c))"
  unfolding ArmOSReinstall_def
  by (intro safe_cases; erule task_after_safe; erule arm.writer_one_safe)

lemma CompleteOSReinstall_safe [safe_intros]: "safe_step c (fst (CompleteOSReinstall e v a cr s i t c))"
  unfolding CompleteOSReinstall_def
  by (intro safe_cases; erule event_after_safe; erule two_writes_safe;
      (erule update_one_task_safe | erule verified.writer_one_safe))

lemma map_of_filter_other: "b \<noteq> a \<Longrightarrow> map_of (filter (\<lambda>(x, _). x \<noteq> a) xs) b = map_of xs b"
  by (induction xs) auto

lemma map_of_filter_self: "map_of (filter (\<lambda>(x, _). x \<noteq> a) xs) a = None"
  by (induction xs) auto

lemma session_of_retire:
  "session_of (retireAgentExecutionIdentity now a c) b = (if b = a then None else session_of c b)"
  by (simp add: retireAgentExecutionIdentity_def session_of_def map_of_filter_other map_of_filter_self)

lemma retireAgentExecutionIdentity_safe [safe_intros]: "safe_step c (retireAgentExecutionIdentity now a c)"
proof -
  let ?d = "update_executions (retire_guard a) (retire_set now) c"
  have "safe_step c ?d" by (rule retire.writer_safe)
  moreover have "current_sessions (retireAgentExecutionIdentity now a c)" if "current_sessions c"
    using that unfolding current_sessions_def session_of_retire
    by (fastforce simp: retireAgentExecutionIdentity_def update_executions_def sql_update_def retire_guard_def retire_set_def
        live_state_def in_process_def split: if_splits)
  moreover have "session_step c (retireAgentExecutionIdentity now a c)"
    unfolding session_step_def sessions_recorded_def session_of_retire
    by (auto simp: retireAgentExecutionIdentity_def session_seen_def split: if_splits)
  ultimately show ?thesis
    by (simp add: safe_step_def center_inv_def audit_complete_def retireAgentExecutionIdentity_def update_executions_def)
qed

lemma pauseReinstallRelatedCommands_safe [safe_intros]: "safe_step c (pauseReinstallRelatedCommands now a c)"
  by (simp add: pauseReinstallRelatedCommands_def pause.writer_safe)

end
