(* ===== verification/Execution_Claim.thy ===== *)
theory Execution_Claim
  imports Execution_Helpers
begin

text \<open>
  Granting an execution: the pause switch (execution_claim_control.go), the version rules that
  decide which unresolved executions still fence an Agent (agent_update_tasks.go,
  agent_update_scope.go), and the claim itself (\<^verbatim>\<open>executionClaimAllowed\<close>,
  \<^verbatim>\<open>persistExecutionAuthorization\<close> in execution.go, \<^verbatim>\<open>claimExecutionTask\<close> in execution_claim.go).
\<close>

section \<open>The pause switch\<close>

definition executionClaimsPaused :: "center \<Rightarrow> bool" where
  "executionClaimsPaused c =
     (case claim_setting c of
        None \<Rightarrow> False
      | Some s \<Rightarrow> \<not> cc_json_valid s \<or> cc_paused s \<noteq> Some False)"

definition invalid_control :: center_error where
  "invalid_control = CenterError ''center: invalid execution claim control''"

definition migration_owned :: "claim_control \<Rightarrow> bool" where
  "migration_owned s = has_prefix (trim_space (cc_actor s)) ''migration:''"

definition agentUpdateRolloutPaused :: "center \<Rightarrow> center_error + bool" where
  "agentUpdateRolloutPaused c =
     (case claim_setting c of
        None \<Rightarrow> Inr False
      | Some s \<Rightarrow>
          (case cc_paused s of
             None \<Rightarrow> Inl invalid_control
           | Some paused \<Rightarrow> if \<not> cc_decodes s then Inl invalid_control else Inr (paused \<and> \<not> migration_owned s)))"

definition control_value :: "bool \<Rightarrow> string \<Rightarrow> stamp \<Rightarrow> claim_control" where
  "control_value paused actor now =
     \<lparr>cc_json_valid = True, cc_paused = Some paused, cc_decodes = True, cc_actor = actor, cc_updated_at = now\<rparr>"

definition releaseMigrationExecutionPause :: "env \<Rightarrow> center \<Rightarrow> outcome" where
  "releaseMigrationExecutionPause e c =
     (case claim_setting c of
        None \<Rightarrow> (c, None)
      | Some s \<Rightarrow>
          (case cc_paused s of
             None \<Rightarrow> (c, Some invalid_control)
           | Some paused \<Rightarrow>
               if \<not> cc_decodes s then (c, Some invalid_control)
               else if \<not> paused \<or> \<not> migration_owned s then (c, None)
               else (c\<lparr>claim_setting := Some (control_value False ''system:agent-rollout'' (now_stamp e)),
                      claim_events := claim_events c @ [(False, ''system:agent-rollout'', now_stamp e)]\<rparr>, None)))"

definition ExecutionClaimControl :: "center \<Rightarrow> center_error + (bool \<times> string \<times> stamp)" where
  "ExecutionClaimControl c =
     (case claim_setting c of
        None \<Rightarrow> Inr (False, [], NoStamp)
      | Some s \<Rightarrow>
          (case cc_paused s of
             None \<Rightarrow> Inl invalid_control
           | Some paused \<Rightarrow> if \<not> cc_decodes s then Inl invalid_control else Inr (paused, cc_actor s, cc_updated_at s)))"

definition SetExecutionClaimControl :: "env \<Rightarrow> string \<Rightarrow> bool \<Rightarrow> center \<Rightarrow> outcome" where
  "SetExecutionClaimControl e adminID paused c =
     (if \<not> is_admin c adminID then (c, Some admin_required)
      else (c\<lparr>claim_setting := Some (control_value paused adminID (now_stamp e)),
             claim_events := claim_events c @ [(paused, adminID, now_stamp e)]\<rparr>, None))"

section \<open>Which unresolved executions block\<close>

definition version_tag :: "string \<Rightarrow> string" where
  "version_tag v = ''v'' @ trim_prefix (trim_space v) ''v''"

definition agentUpdateFailureSuperseded :: "env \<Rightarrow> string \<Rightarrow> string \<Rightarrow> bool" where
  "agentUpdateFailureSuperseded e currentVersion failedTarget =
     (e_semver_valid e (version_tag currentVersion) \<and> e_semver_valid e (version_tag failedTarget) \<and>
      e_semver_compare e (version_tag currentVersion) (version_tag failedTarget) \<ge> 0)"

definition agentVersionBehindTarget :: "env \<Rightarrow> string \<Rightarrow> string \<Rightarrow> bool" where
  "agentVersionBehindTarget e currentVersion targetVersion =
     (e_semver_valid e (version_tag currentVersion) \<and> e_semver_valid e (version_tag targetVersion) \<and>
      e_semver_compare e (version_tag currentVersion) (version_tag targetVersion) < 0)"

definition isAgentUpdateTaskID :: "string \<Rightarrow> bool" where
  "isAgentUpdateTaskID v = has_prefix v ''agent-update-''"

text \<open>The target of the update an execution belongs to, empty for other kinds.\<close>

definition update_target :: "center \<Rightarrow> execution \<Rightarrow> string" where
  "update_target c x =
     (if ex_kind x \<noteq> ''agent.update'' then []
      else case find (\<lambda>r. tr_table r = AgentUpdates \<and> tr_id r = ex_task_id x \<and> tr_agent r = ex_agent_id x) (tasks c) of
        None \<Rightarrow> [] | Some r \<Rightarrow> tr_target_version r)"

definition blocks_update :: "env \<Rightarrow> center \<Rightarrow> string \<Rightarrow> execution \<Rightarrow> bool" where
  "blocks_update e c version x =
     (live_state (ex_state x) \<or> ex_kind x = ''agent.decommission'' \<or>
      ex_kind x = ''agent.update'' \<and> \<not> agentUpdateFailureSuperseded e version (update_target c x))"

definition unresolvedExecutionBlocksAgentUpdate :: "env \<Rightarrow> center \<Rightarrow> string \<Rightarrow> string \<Rightarrow> bool" where
  "unresolvedExecutionBlocksAgentUpdate e c agentID version =
     sql_exists (\<lambda>x. ex_agent_id x = agentID \<and> unresolved x \<and> blocks_update e c version x) (executions c)"

definition blocks_work :: "env \<Rightarrow> center \<Rightarrow> string \<Rightarrow> execution \<Rightarrow> bool" where
  "blocks_work e c version x =
     (\<not> (ex_kind x = ''agent.update'' \<and> \<not> live_state (ex_state x) \<and>
         agentUpdateFailureSuperseded e version (update_target c x)))"

definition unresolvedExecutionBlocksAgentWork :: "env \<Rightarrow> center \<Rightarrow> string \<Rightarrow> string \<Rightarrow> bool" where
  "unresolvedExecutionBlocksAgentWork e c agentID version =
     sql_exists (\<lambda>x. ex_agent_id x = agentID \<and> unresolved x \<and> blocks_work e c version x) (executions c)"

text \<open>\<^verbatim>\<open>agentUpdateScope\<close>: \<open>None\<close> when the host has no scope file.\<close>

definition agentUpdateAllowed :: "string list option \<Rightarrow> string \<Rightarrow> bool" where
  "agentUpdateAllowed scope agentID = (case scope of None \<Rightarrow> True | Some ids \<Rightarrow> agentID \<in> set ids)"

definition unclaimedAgentUpdateSuperseded :: "env \<Rightarrow> string \<Rightarrow> string \<Rightarrow> string \<Rightarrow> string \<Rightarrow> int \<Rightarrow> bool \<Rightarrow> bool" where
  "unclaimedAgentUpdateSuperseded e currentVersion targetVersion st lastError attempt hasExecution =
     (st = ''failed'' \<and> attempt = 0 \<and> \<not> hasExecution \<and>
      lastError = ''Superseded before claim: Agent already reports target version '' @ targetVersion \<and>
      agentUpdateFailureSuperseded e currentVersion targetVersion)"

definition retireInstalledUnclaimedAgentUpdate :: "env \<Rightarrow> string \<Rightarrow> string \<Rightarrow> center \<Rightarrow> center_error + center" where
  "retireInstalledUnclaimedAgentUpdate e agentID version c =
     (let executed = (\<lambda>i. sql_exists (\<lambda>x. ex_task_id x = i) (executions c));
          P = (\<lambda>r. tr_table r = AgentUpdates \<and> tr_agent r = agentID \<and> tr_state r = ''pending'' \<and> tr_attempt r = 0 \<and> \<not> executed (tr_id r))
      in case find P (tasks c) of
           None \<Rightarrow> Inr c
         | Some u \<Rightarrow>
             if \<not> agentUpdateFailureSuperseded e version (tr_target_version u) then Inr c
             else let message = ''Superseded before claim: Agent already reports target version '' @ tr_target_version u in
               and_then
                 (update_one_task (CenterError ''center: queued Agent update changed before supersession'')
                   (\<lambda>r. P r \<and> tr_id r = tr_id u)
                   (\<lambda>r. r\<lparr>tr_state := ''failed'', tr_error := message, tr_updated_at := now_stamp e\<rparr>) c)
                 (recordTaskEvent e (tr_id u) agentID ''agent.update'' 1 ''failed'' message))"

section \<open>The reinstallation workflow, as the claim sees it\<close>

text \<open>
  The answers of the functions that validate recovery work of a machine being reinstalled
  (agent_reinstall files): whether the Agent is under reinstallation, the task it may run, and the
  exact task or payload the plan expects (\<open>None\<close>, or an empty option, when the task is not part of one).
\<close>

record reinstall_view =
  rv_blocked :: "string \<Rightarrow> bool"
  rv_pending_task :: "string \<Rightarrow> center_error + string"
  rv_target_blocked :: "string \<Rightarrow> string \<Rightarrow> bool"
  rv_acceptance :: "string \<Rightarrow> string \<Rightarrow> center_error + string"
  rv_reporting :: "string \<Rightarrow> string \<Rightarrow> center_error + string"
  rv_rotation :: "string \<Rightarrow> string \<Rightarrow> center_error + string"
  rv_inspection :: "string \<Rightarrow> string \<Rightarrow> center_error + string"
  rv_preparation :: "string \<Rightarrow> string \<Rightarrow> center_error + bool"
  rv_preparation_json :: "string \<Rightarrow> center_error + string"
  rv_monitor_restore :: "string \<Rightarrow> string \<Rightarrow> center_error + agent_task option"
  rv_current_restore :: "string \<Rightarrow> string \<Rightarrow> center_error + agent_task option"
  rv_runtime :: "string \<Rightarrow> string \<Rightarrow> center_error + agent_task option"
  rv_listener :: "string \<Rightarrow> string \<Rightarrow> center_error + agent_task option"

section \<open>May the Agent claim?\<close>

definition claim_expiry_guard :: "env \<Rightarrow> string \<Rightarrow> execution \<Rightarrow> bool" where
  "claim_expiry_guard e agentID r =
     (ex_agent_id r = agentID \<and> ex_disposition r = [] \<and> live_state (ex_state r) \<and> ex_expires_at r \<le> now_stamp e)"

definition claim_expiry_set :: "env \<Rightarrow> execution \<Rightarrow> execution" where
  "claim_expiry_set e r =
     r\<lparr>ex_state := Unknown, ex_last_error := ''Execution authorization expired; manual verification required'',
       ex_updated_at := now_stamp e\<rparr>"

definition err_of :: "(center_error + 'a) \<Rightarrow> center_error option" where
  "err_of r = (case r of Inl x \<Rightarrow> Some x | Inr _ \<Rightarrow> None)"

definition reinstall_claim_error :: "env \<Rightarrow> reinstall_view \<Rightarrow> string \<Rightarrow> center \<Rightarrow> center_error option" where
  "reinstall_claim_error e rv agentID c =
     (case rv_pending_task rv agentID of
        Inl err \<Rightarrow> Some err
      | Inr i \<Rightarrow>
          (case agent_row_of c agentID of
             None \<Rightarrow> Some no_rows
           | Some a \<Rightarrow>
               (case (if has_prefix i ''node-listener-'' then err_of (rv_listener rv agentID i)
                      else if has_prefix i ''reinstall-runtime-'' then err_of (rv_runtime rv agentID i)
                      else if has_prefix i ''reinstall-current-'' then err_of (rv_current_restore rv agentID i)
                      else err_of (rv_preparation rv agentID i)) of
                  Some err \<Rightarrow> Some err
                | None \<Rightarrow> if unresolvedExecutionBlocksAgentWork e c agentID (ag_version a) then Some ExecutionBlocked else None)))"

definition has_task :: "center \<Rightarrow> task_table \<Rightarrow> string \<Rightarrow> string \<Rightarrow> bool" where
  "has_task c t agentID st = sql_exists (\<lambda>r. tr_table r = t \<and> tr_agent r = agentID \<and> tr_state r = st) (tasks c)"

definition claim_verdict :: "env \<Rightarrow> string \<Rightarrow> string \<Rightarrow> center \<Rightarrow> center_error option" where
  "claim_verdict e agentID version c =
     (let ordinaryWorkBlocked = unresolvedExecutionBlocksAgentWork e c agentID version;
          explicitRecovery = has_task c XrayConfigurationRecoveries agentID ''pending'';
          independentAgentUpdate = (ordinaryWorkBlocked \<and> \<not> explicitRecovery \<and> has_task c AgentUpdates agentID ''pending'' \<and>
            \<not> unresolvedExecutionBlocksAgentUpdate e c agentID version)
      in if ordinaryWorkBlocked \<and> \<not> explicitRecovery \<and> \<not> independentAgentUpdate then Some ExecutionBlocked else None)"

definition executionClaimAllowed :: "env \<Rightarrow> reinstall_view \<Rightarrow> string \<Rightarrow> string \<Rightarrow> center \<Rightarrow> outcome" where
  "executionClaimAllowed e rv agentID sessionID c =
     (if executionClaimsPaused c then (c, Some ExecutionBlocked)
      else if session_of c agentID \<noteq> Some sessionID then (c, Some ExecutionAuthorization)
      else if has_task c TailscaleUpdateTasks agentID ''awaiting_decision'' then (c, None)
      else if rv_blocked rv agentID then (c, reinstall_claim_error e rv agentID c)
      else case disposeSupersededLandingExecutionFailures (now_stamp e) agentID
                  (update_executions (claim_expiry_guard e agentID) (claim_expiry_set e) c) of
        Inl err \<Rightarrow> (c, Some err)
      | Inr c2 \<Rightarrow>
          if \<not> sql_exists (\<lambda>x. ex_agent_id x = agentID \<and> unresolved x) (executions c2) then (c2, None)
          else (case agent_row_of c2 agentID of
                  None \<Rightarrow> (c, Some no_rows)
                | Some a \<Rightarrow> (c2, claim_verdict e agentID (ag_version a) c2)))"

section \<open>The authorization\<close>

record authorization =
  au_id :: string
  au_protocol :: int
  au_digest :: string

text \<open>
  A command of a recovery plan must be the recorded command, with the exact payload the plan
  expects; \<open>once\<close> is set where a second attempt or a reconciliation is refused.
\<close>

definition plan_command :: "center \<Rightarrow> string \<Rightarrow> agent_task \<Rightarrow> string \<Rightarrow> bool" where
  "plan_command c agentID task kind =
     (at_kind task = ''application.command'' \<and>
      sql_exists (\<lambda>r. tr_table r = ApplicationCommands \<and> tr_id r = at_id task \<and> tr_agent r = agentID \<and> tr_kind r = kind) (tasks c))"

definition plan_command_error ::
  "center \<Rightarrow> string \<Rightarrow> agent_task \<Rightarrow> bool \<Rightarrow> string \<Rightarrow> string option \<Rightarrow> (center_error + string) \<Rightarrow> center_error option" where
  "plan_command_error c agentID task once kind payload expected =
     (let recorded = plan_command c agentID task kind in
      if \<not> recorded \<and> payload = None then None
      else if \<not> recorded \<or> payload = None \<or> once \<and> (at_attempt task \<noteq> 1 \<or> at_reconcile task) then Some ExecutionAuthorization
      else case expected of
        Inl err \<Rightarrow> Some err
      | Inr x \<Rightarrow> if Some x \<noteq> payload then Some ExecutionAuthorization else None)"

definition command_errors :: "reinstall_view \<Rightarrow> center \<Rightarrow> string \<Rightarrow> agent_task \<Rightarrow> center_error option list" where
  "command_errors rv c agentID task =
     [if at_kind task = ''application.command'' \<and> rv_target_blocked rv agentID (at_id task) then Some ExecutionBlocked else None,
      plan_command_error c agentID task True ''meridian.recovery.acceptance'' (at_acceptance task) (rv_acceptance rv agentID (at_id task)),
      plan_command_error c agentID task True ''pulse.node.reporting'' (at_reporting task) (rv_reporting rv agentID (at_id task)),
      plan_command_error c agentID task True ''pulse.node.rotate'' (at_rotation task) (rv_rotation rv agentID (at_id task)),
      plan_command_error c agentID task False ''pulse.enrollment.inspect'' (at_inspection task) (rv_inspection rv agentID (at_id task))]"

fun first_error :: "center_error option list \<Rightarrow> center_error option" where
  "first_error [] = None"
| "first_error (None # es) = first_error es"
| "first_error (Some x # es) = Some x"

definition same_task :: "env \<Rightarrow> agent_task option \<Rightarrow> agent_task \<Rightarrow> bool" where
  "same_task e expected task =
     (case expected of None \<Rightarrow> True | Some t \<Rightarrow> e_marshal_task e t = e_marshal_task e task)"

text \<open>
  The exact tasks of a recovery plan. The result says whether the task is one of them, which
  exempts it from the fence of a machine under reinstallation.
\<close>

definition plan_task :: "env \<Rightarrow> reinstall_view \<Rightarrow> string \<Rightarrow> agent_task \<Rightarrow> center_error + bool" where
  "plan_task e rv agentID task =
     (case rv_preparation rv agentID (at_id task) of Inl err \<Rightarrow> Inl err | Inr preparation \<Rightarrow>
     (case (if preparation then rv_preparation_json rv (at_id task) else Inr (e_marshal_task e task)) of Inl err \<Rightarrow> Inl err | Inr expected \<Rightarrow>
      if e_marshal_task e task \<noteq> expected then Inl ExecutionAuthorization
      else case rv_monitor_restore rv agentID (at_id task) of Inl err \<Rightarrow> Inl err | Inr restoredMonitor \<Rightarrow>
     (case rv_current_restore rv agentID (at_id task) of Inl err \<Rightarrow> Inl err | Inr currentRestore \<Rightarrow>
      if \<not> same_task e currentRestore task then Inl ExecutionAuthorization
      else if (restoredMonitor \<noteq> None \<or> at_restore task \<noteq> None \<and> currentRestore = None) \<and>
              (restoredMonitor = None \<or> at_restore task = None \<or> \<not> same_task e restoredMonitor task)
      then Inl ExecutionAuthorization
      else case rv_runtime rv agentID (at_id task) of Inl err \<Rightarrow> Inl err | Inr runtime \<Rightarrow>
      if \<not> same_task e runtime task then Inl ExecutionAuthorization
      else case rv_listener rv agentID (at_id task) of Inl err \<Rightarrow> Inl err | Inr listener \<Rightarrow>
      if \<not> same_task e listener task then Inl ExecutionAuthorization
      else Inr (preparation \<or> runtime \<noteq> None \<or> listener \<noteq> None \<or> restoredMonitor \<noteq> None \<or> currentRestore \<noteq> None))))"

definition fence_error :: "env \<Rightarrow> string list option \<Rightarrow> string \<Rightarrow> agent_task \<Rightarrow> center \<Rightarrow> center_error option" where
  "fence_error e scope agentID task c =
     (if xray_recovery_kind (at_kind task) then None
      else if at_kind task = ''agent.update'' \<and> \<not> agentUpdateAllowed scope agentID then Some ExecutionBlocked
      else case agent_row_of c agentID of
        None \<Rightarrow> Some no_rows
      | Some a \<Rightarrow>
          if at_kind task = ''agent.update''
          then (if unresolvedExecutionBlocksAgentUpdate e c agentID (ag_version a) then Some ExecutionBlocked else None)
          else (if unresolvedExecutionBlocksAgentWork e c agentID (ag_version a) then Some ExecutionBlocked else None))"

definition offered_row :: "env \<Rightarrow> string \<Rightarrow> string \<Rightarrow> string \<Rightarrow> string \<Rightarrow> string \<Rightarrow> agent_task \<Rightarrow> execution" where
  "offered_row e i agentID sessionID digest sealed task =
     \<lparr>ex_id = i, ex_agent_id = agentID, ex_task_id = at_id task, ex_kind = at_kind task, ex_attempt = at_attempt task,
      ex_session_id = sessionID, ex_digest = digest, ex_sealed_task = sealed, ex_sealed_result = [],
      ex_state = Offered, ex_phase = ''authorized'', ex_last_error = [],
      ex_expires_at = stamp_of (e_now e + taskLeaseDuration), ex_created_at = now_stamp e, ex_updated_at = now_stamp e,
      ex_disposition = [], ex_disposition_note = [], ex_disposition_actor = [], ex_disposed_at = NoStamp,
      ex_identity_retired_at = NoStamp\<rparr>"

definition grant :: "env \<Rightarrow> string \<Rightarrow> string \<Rightarrow> string \<Rightarrow> string \<Rightarrow> string \<Rightarrow> agent_task \<Rightarrow> center \<Rightarrow> center_error + (center \<times> authorization)" where
  "grant e i agentID sessionID digest sealed task c =
     (if session_of c agentID \<noteq> Some sessionID then Inl ExecutionBlocked
      else case insert_execution (offered_row e i agentID sessionID digest sealed task) c of
        Inl err \<Rightarrow> Inl err
      | Inr c' \<Rightarrow> Inr (c', \<lparr>au_id = i, au_protocol = ExecutionProtocol, au_digest = digest\<rparr>))"

definition persistExecutionAuthorization ::
  "env \<Rightarrow> reinstall_view \<Rightarrow> string list option \<Rightarrow> string \<Rightarrow> string \<Rightarrow> agent_task \<Rightarrow> center \<Rightarrow> center_error + (center \<times> authorization)" where
  "persistExecutionAuthorization e rv scope agentID sessionID task c =
     (if at_id task = [] \<or> at_attempt task \<le> 0 then Inl ExecutionAuthorization
      else case first_error (command_errors rv c agentID task) of Some err \<Rightarrow> Inl err | None \<Rightarrow>
     (case plan_task e rv agentID task of Inl err \<Rightarrow> Inl err | Inr planned \<Rightarrow>
     (case e_token e of None \<Rightarrow> Inl (CenterError ''center: random token'') | Some i \<Rightarrow>
      let payload = e_marshal_task e task; digest = e_sha256_hex e payload in
      case e_seal e (task_aad i) payload of None \<Rightarrow> Inl (CenterError ''secret: seal'') | Some sealed \<Rightarrow>
      if rv_blocked rv agentID \<and> \<not> planned then Inl ExecutionBlocked
      else if executionClaimsPaused c then Inl ExecutionBlocked
      else case fence_error e scope agentID task c of Some err \<Rightarrow> Inl err | None \<Rightarrow>
      grant e i agentID sessionID digest sealed task c)))"

text \<open>
  \<open>select\<close> stands for \<^verbatim>\<open>waitAndClaimTask\<close> and \<^verbatim>\<open>attachPackageRecovery\<close>: it picks a task and writes the
  business tables. Its writes and the authorization are one transaction.
\<close>

definition claimExecutionTask ::
  "env \<Rightarrow> reinstall_view \<Rightarrow> string list option \<Rightarrow> (center \<Rightarrow> center_error + (task_row list \<times> agent_task option)) \<Rightarrow>
   string \<Rightarrow> string \<Rightarrow> center \<Rightarrow> outcome \<times> (agent_task \<times> authorization) option" where
  "claimExecutionTask e rv scope select agentID sessionID c =
     (case executionClaimAllowed e rv agentID sessionID c of
        (c1, Some err) \<Rightarrow> ((c1, Some err), None)
      | (c1, None) \<Rightarrow>
          (case select c1 of
             Inl err \<Rightarrow> ((c1, Some err), None)
           | Inr (rows, None) \<Rightarrow> ((c1\<lparr>tasks := rows\<rparr>, None), None)
           | Inr (rows, Some task) \<Rightarrow>
               (case persistExecutionAuthorization e rv scope agentID sessionID task (c1\<lparr>tasks := rows\<rparr>) of
                  Inl err \<Rightarrow> ((c1, Some err), None)
                | Inr (c2, auth) \<Rightarrow> ((c2, None), Some (task, auth)))))"

section \<open>Claims keep the contract\<close>

interpretation claim_expiry: execution_writer "claim_expiry_guard e a" "claim_expiry_set e" for e a
  by unfold_locales (auto simp: claim_expiry_guard_def claim_expiry_set_def live_state_def contract_defs)

lemma executionClaimAllowed_safe [safe_intros]: "safe_step c (fst (executionClaimAllowed e rv a s c))"
  unfolding executionClaimAllowed_def
  by (auto split: sum.splits option.splits
      intro: safe_step_trans [OF claim_expiry.writer_safe superseded_safe])

lemma live_unresolved: "live x \<Longrightarrow> unresolved x \<and> live_state (ex_state x)"
  by (auto simp: live_def unresolved_def live_state_def)

text \<open>A grant that passes the fence finds no live execution of its Agent, recoveries apart.\<close>

lemma fence_error_None:
  assumes "fence_error e scope a task c = None" "\<not> xray_recovery_kind (at_kind task)"
    and "x \<in> set (executions c)" "ex_agent_id x = a"
  shows "\<not> live x"
  using assms live_unresolved [of x]
  by (auto simp: fence_error_def unresolvedExecutionBlocksAgentUpdate_def unresolvedExecutionBlocksAgentWork_def
      blocks_update_def blocks_work_def sql_exists_iff split: option.splits if_splits)

lemma persist_Inr:
  assumes "persistExecutionAuthorization e rv scope a s task c = Inr (c', auth)"
  obtains i sealed where "e_token e = Some i"
    and "e_seal e (task_aad i) (e_marshal_task e task) = Some sealed"
    and "at_id task \<noteq> []" "0 < at_attempt task"
    and "\<not> executionClaimsPaused c"
    and "fence_error e scope a task c = None"
    and "session_of c a = Some s"
    and "insert_execution (offered_row e i a s (e_sha256_hex e (e_marshal_task e task)) sealed task) c = Inr c'"
    and "auth = \<lparr>au_id = i, au_protocol = ExecutionProtocol, au_digest = e_sha256_hex e (e_marshal_task e task)\<rparr>"
    and "rv_blocked rv a \<longrightarrow> plan_task e rv a task = Inr True"
  using assms unfolding persistExecutionAuthorization_def Let_def grant_def
  by (auto split: option.splits sum.splits if_splits)

lemma persist_safe:
  assumes "persistExecutionAuthorization e rv scope a s task c = Inr (c', auth)"
  shows "safe_step c c'"
  using assms
proof (rule persist_Inr)
  fix i sealed
  assume fence: "fence_error e scope a task c = None" and session: "session_of c a = Some s"
    and ins: "insert_execution (offered_row e i a s (e_sha256_hex e (e_marshal_task e task)) sealed task) c = Inr c'"
  show "safe_step c c'"
    using ins
  proof (rule insert_execution_safe)
    assume "\<not> xray_recovery_kind (ex_kind (offered_row e i a s (e_sha256_hex e (e_marshal_task e task)) sealed task))"
    then show "\<forall>x \<in> set (executions c). ex_agent_id x = ex_agent_id (offered_row e i a s (e_sha256_hex e (e_marshal_task e task)) sealed task) \<longrightarrow>
        \<not> live x \<or> xray_recovery_kind (ex_kind x)"
      using fence_error_None [OF fence] by (auto simp: offered_row_def)
  qed (simp add: session offered_row_def)
qed

lemma claimExecutionTask_safe [safe_intros]: "safe_step c (fst (fst (claimExecutionTask e rv scope sel a s c)))"
proof -
  obtain c1 err where c1: "executionClaimAllowed e rv a s c = (c1, err)" by (cases "executionClaimAllowed e rv a s c")
  have "safe_step c c1" using executionClaimAllowed_safe [of c e rv a s] c1 by simp
  then show ?thesis
    using c1 unfolding claimExecutionTask_def
    by (auto split: option.splits sum.splits prod.splits dest!: persist_safe
        intro: safe_step_trans [of c "c1\<lparr>tasks := x\<rparr>" for x])
qed

lemma SetExecutionClaimControl_safe [safe_intros]: "safe_step c (fst (SetExecutionClaimControl e a p c))"
  by (simp add: SetExecutionClaimControl_def)

lemma releaseMigrationExecutionPause_safe [safe_intros]: "safe_step c (fst (releaseMigrationExecutionPause e c))"
  by (auto simp: releaseMigrationExecutionPause_def split: option.splits)

lemma retireInstalledUnclaimedAgentUpdate_safe: "retireInstalledUnclaimedAgentUpdate e a v c = Inr c' \<Longrightarrow> safe_step c c'"
  unfolding retireInstalledUnclaimedAgentUpdate_def Let_def
  by (auto split: option.splits if_splits simp: and_then_Inr
      intro: safe_step_trans [OF update_one_task_safe recordTaskEvent_safe])

end
