(* ===== verification/Execution_Sessions.thy ===== *)
theory Execution_Sessions
  imports Execution_Claim
begin

text \<open>
  Agent processes as sessions (\<^verbatim>\<open>RegisterExecutionSession\<close> in execution.go), and the recovery of results
  that reached the Center before the reporting process or the Center itself stopped
  (\<^verbatim>\<open>recoverReceivedExecutionResults\<close>, \<^verbatim>\<open>recoverExpiredReceivedExecutionResults\<close>).
\<close>

section \<open>Recovering received results\<close>

definition automatic :: resolution where
  "automatic = \<lparr>rs_admin = [], rs_note = [], rs_automatic = True\<rparr>"

text \<open>\<^verbatim>\<open>SELECT id ... ORDER BY created_at, id\<close>.\<close>

definition ordered_ids :: "(execution \<Rightarrow> bool) \<Rightarrow> center \<Rightarrow> string list" where
  "ordered_ids P c = map ex_id (sort_key (\<lambda>r. (ex_created_at r, ex_id r)) (filter P (executions c)))"

text \<open>Errors of one projection are logged and the loop goes on.\<close>

fun project_all :: "env \<Rightarrow> projection \<Rightarrow> string list \<Rightarrow> center \<Rightarrow> center" where
  "project_all e p [] c = c"
| "project_all e p (i # is) c = project_all e p is (fst (projectRetainedExecutionResult e p i automatic c))"

definition received_unknown :: "string \<Rightarrow> execution \<Rightarrow> bool" where
  "received_unknown agentID r =
     (ex_agent_id r = agentID \<and> ex_state r = Unknown \<and> ex_phase r = ''result_received'' \<and> ex_disposition r = [] \<and>
      ex_identity_retired_at r = NoStamp)"

definition recoverReceivedExecutionResults :: "env \<Rightarrow> projection \<Rightarrow> string \<Rightarrow> center \<Rightarrow> center" where
  "recoverReceivedExecutionResults e p agentID c = project_all e p (ordered_ids (received_unknown agentID) c) c"

definition expired_received :: "env \<Rightarrow> execution \<Rightarrow> bool" where
  "expired_received e r =
     (ex_disposition r = [] \<and> ex_identity_retired_at r = NoStamp \<and>
      (ex_state r = Running \<or> ex_state r = HelperRunning \<or> ex_state r = Unknown) \<and> ex_phase r = ''result_received'' \<and>
      ex_expires_at r \<noteq> NoStamp \<and> ex_expires_at r \<le> now_stamp e)"

definition expired_received_set :: "env \<Rightarrow> execution \<Rightarrow> execution" where
  "expired_received_set e r =
     r\<lparr>ex_state := Unknown, ex_last_error := ''Execution authorization expired; retained result pending recovery'',
       ex_updated_at := now_stamp e\<rparr>"

text \<open>
  The query and the update run without a transaction around them; another call may run between
  them, so the number of rows is compared. \<open>between\<close> is what other calls did.
\<close>

definition recoverExpiredReceivedExecutionResults :: "env \<Rightarrow> projection \<Rightarrow> (center \<Rightarrow> center) \<Rightarrow> center \<Rightarrow> outcome" where
  "recoverExpiredReceivedExecutionResults e p between c =
     (let ids = ordered_ids (expired_received e) c in
      if ids = [] then (c, None)
      else let c1 = between c;
               c2 = update_executions (expired_received e) (expired_received_set e) c1
           in if rows_affected (expired_received e) (executions c1) \<noteq> length ids
              then (c2, Some (CenterError ''center: expired execution set changed during startup recovery''))
              else (project_all e p ids c2, None))"

section \<open>Registering a session\<close>

definition session_id_valid :: "int \<Rightarrow> string \<Rightarrow> bool" where
  "session_id_valid protocol sessionID =
     (protocol = ExecutionProtocol \<and> 24 \<le> length sessionID \<and> length sessionID \<le> 128 \<and>
      \<not> contains_any sessionID [CHR '' '', CHR 0x0D, CHR 0x0A, CHR 0x09])"

definition fence_guard :: "string \<Rightarrow> string \<Rightarrow> execution \<Rightarrow> bool" where
  "fence_guard agentID sessionID r =
     (ex_agent_id r = agentID \<and> ex_session_id r \<noteq> sessionID \<and> ex_disposition r = [] \<and>
      (ex_state r = Offered \<or> ex_state r = Running))"

definition fence_set :: "env \<Rightarrow> execution \<Rightarrow> execution" where
  "fence_set e r =
     r\<lparr>ex_state := Unknown, ex_last_error := ''Agent process changed; verify the previous execution'',
       ex_updated_at := now_stamp e\<rparr>"

definition replace_session :: "env \<Rightarrow> string \<Rightarrow> string \<Rightarrow> center \<Rightarrow> center" where
  "replace_session e agentID sessionID c =
     (update_executions (fence_guard agentID sessionID) (fence_set e)
       (c\<lparr>session_history := session_history c @ [(agentID, sessionID, now_stamp e)]\<rparr>))
       \<lparr>sessions := (agentID, sessionID, now_stamp e) # filter (\<lambda>(a, _). a \<noteq> agentID) (sessions c)\<rparr>"

definition RegisterExecutionSession :: "env \<Rightarrow> projection \<Rightarrow> string \<Rightarrow> string \<Rightarrow> string \<Rightarrow> int \<Rightarrow> center \<Rightarrow> outcome" where
  "RegisterExecutionSession e p agentID credential sessionID protocol c =
     (if \<not> session_id_valid protocol sessionID then (c, Some ExecutionAuthorization)
      else case authenticateAgentInQuery e c agentID credential of
        Some err \<Rightarrow> (c, Some err)
      | None \<Rightarrow>
          if session_of c agentID = Some sessionID
          then (recoverReceivedExecutionResults e p agentID c, None)
          else if session_seen c agentID sessionID then (c, Some ExecutionAuthorization)
          else (recoverReceivedExecutionResults e p agentID (replace_session e agentID sessionID c), None))"

section \<open>Sessions keep the contract\<close>

interpretation fence: execution_writer "fence_guard a s" "fence_set e" for a s e
  by unfold_locales (auto simp: fence_guard_def fence_set_def contract_defs)

interpretation expired_result: execution_writer "expired_received e" "expired_received_set e" for e
  by unfold_locales (auto simp: expired_received_def expired_received_set_def contract_defs)

lemma project_all_safe: "safe_step c (project_all e p is c)"
proof (induction "is" arbitrary: c)
  case Nil
  then show ?case by simp
next
  case (Cons i js)
  show ?case
    using projectRetainedExecutionResult_safe Cons.IH by (simp, rule safe_step_trans)
qed

lemma recoverReceivedExecutionResults_safe [safe_intros]: "safe_step c (recoverReceivedExecutionResults e p a c)"
  by (simp add: recoverReceivedExecutionResults_def project_all_safe)

lemma recoverExpiredReceivedExecutionResults_safe:
  assumes "safe_step c (between c)"
  shows "safe_step c (fst (recoverExpiredReceivedExecutionResults e p between c))"
proof -
  have "safe_step c (update_executions (expired_received e) (expired_received_set e) (between c))"
    using assms expired_result.writer_safe by (rule safe_step_trans)
  then show ?thesis
    by (auto simp: recoverExpiredReceivedExecutionResults_def Let_def intro: safe_step_trans [OF _ project_all_safe])
qed

lemma session_of_replace:
  "session_of (replace_session e a s c) b = (if b = a then Some s else session_of c b)"
  by (simp add: replace_session_def session_of_def map_of_filter_other)

lemma session_seen_replace:
  "session_seen (replace_session e a s c) b t = (session_seen c b t \<or> b = a \<and> t = s)"
  by (auto simp: replace_session_def session_seen_def)

text \<open>Replacing the session is two field updates around the fence, so it is the fence for the tables.\<close>

lemma replace_session_in_process:
  "x \<in> set (executions (replace_session e a s c)) \<Longrightarrow> in_process x \<Longrightarrow>
    x \<in> set (executions c) \<and> (ex_agent_id x = a \<longrightarrow> ex_session_id x = s)"
  by (auto simp: replace_session_def update_executions_def sql_update_def fence_guard_def fence_set_def in_process_def split: if_splits)

lemma replace_session_safe:
  assumes "\<not> session_seen c a s"
  shows "safe_step c (replace_session e a s c)"
proof -
  let ?d = "update_executions (fence_guard a s) (fence_set e) c"
  have "safe_step c ?d" by (rule fence.writer_safe)
  moreover have "current_sessions (replace_session e a s c)" if "current_sessions c"
    unfolding current_sessions_def session_of_replace
  proof (intro ballI impI)
    fix r
    assume "r \<in> set (executions (replace_session e a s c))" "in_process r"
    note kept = replace_session_in_process [OF this] this(2)
    then show "(if ex_agent_id r = a then Some s else session_of c (ex_agent_id r)) = Some (ex_session_id r) \<and>
        ex_identity_retired_at r = NoStamp"
      using that by (simp add: current_sessions_def)
  qed
  moreover have "session_step c (replace_session e a s c)"
    using assms unfolding session_step_def sessions_recorded_def session_of_replace session_seen_replace
    by (auto simp: replace_session_def split: if_splits)
  ultimately show ?thesis
    by (simp add: safe_step_def center_inv_def audit_complete_def replace_session_def update_executions_def)
qed

lemma RegisterExecutionSession_safe [safe_intros]: "safe_step c (fst (RegisterExecutionSession e p a cr s v c))"
  unfolding RegisterExecutionSession_def
  by (auto split: option.splits intro: recoverReceivedExecutionResults_safe
      safe_step_trans [OF replace_session_safe recoverReceivedExecutionResults_safe])

end
