(* ===== verification/Execution_System.thy ===== *)
theory Execution_System
  imports Execution_Sessions
begin

text \<open>
  The Center as a transition system: the calls of Agents, administrators and background recovery,
  in any order and any number, interleaved with code that writes other tables. The database runs
  one transaction at a time, so a step is one call. The properties that hold along every run are
  proved from the contract of the writers.
\<close>

section \<open>Steps\<close>

datatype action = Started string | HelperStep string string | Acted

text \<open>\<open>Started i\<close> is a call that consumed the offer of execution \<open>i\<close>; \<open>HelperStep i p\<close> granted step \<open>p\<close> of its update helper.\<close>

inductive center_step :: "center \<Rightarrow> action \<Rightarrow> center \<Rightarrow> bool" where
  start: "StartExecution e tunnel a s i d c = (c', err) \<Longrightarrow> err \<noteq> Some ExecutionAuthorization \<Longrightarrow> center_step c (Started i) c'"
| start_refused: "StartExecution e tunnel a s i d c = (c', Some ExecutionAuthorization) \<Longrightarrow> center_step c Acted c'"
| helper: "CheckUpdateHelperStep e a s i p c = (c', None) \<Longrightarrow> center_step c (HelperStep i p) c'"
| helper_refused: "CheckUpdateHelperStep e a s i p c = (c', Some err) \<Longrightarrow> center_step c Acted c'"
| check: "center_step c Acted (fst (CheckExecutionStep e a s i p c))"
| renew: "center_step c Acted (fst (RenewExecution e a s i c))"
| stop: "center_step c Acted (fst (StopExecution e a s i u m c))"
| result: "center_step c Acted (fst (StoreExecutionResult e a s i res ok u m g h c))"
| finalize: "finalizeExecution e a s i (c\<lparr>tasks := rows\<rparr>) = Inr c' \<Longrightarrow> center_step c Acted c'"
| claim: "center_step c Acted (fst (fst (claimExecutionTask e rv scope sel a s c)))"
| register: "center_step c Acted (fst (RegisterExecutionSession e proj a cr s v c))"
| recover_expired_results: "center_step c Acted (fst (recoverExpiredReceivedExecutionResults e proj id c))"
| recover_expired_tasks: "center_step c Acted (fst (recoverExpiredTasks e a c))"
| recover_superseded: "center_step c Acted (fst (recoverSupersededLandingExecutionFailures e c))"
| release: "center_step c Acted (fst (releaseClaimedTask e a t c))"
| renew_lease: "center_step c Acted (fst (RenewTaskLease e a cr i n c))"
| confirm: "center_step c Acted (fst (ConfirmExecution e proj i adm inp c))"
| reexecute: "center_step c Acted (fst (ReexecuteExecution e blk i adm inp c))"
| abandon: "center_step c Acted (fst (AbandonExecution e blk i adm inp c))"
| dispose_helper: "center_step c Acted (fst (DisposeHelperExecution e i adm inp c))"
| update_recovery: "authorizeAgentUpdateRecovery e a ri c = Inr c' \<Longrightarrow> center_step c Acted c'"
| import_legacy: "center_step c Acted (fst (ImportLegacyReceipt e codec a cr s d rcpt c))"
| abandon_legacy: "center_step c Acted (fst (AbandonLegacyReceipt e codec i adm inp c))"
| xray_recovered: "center_step c Acted (release_recovered_fences e a i n app c)"
| meridian_recovery: "dispose_meridian_recovery e adm a i n c = Inr c' \<Longrightarrow> center_step c Acted c'"
| local_reinstall: "settle_local_execution e adm i a c = Inr c' \<Longrightarrow> center_step c Acted c'"
| begin_update: "center_step c Acted (fst (beginAgentUpdateExecution e a cr t n i s c))"
| begin_decommission: "center_step c Acted (fst (beginAgentDecommission e a cr t n i s c))"
| decommission_step: "center_step c Acted (fst (AuthorizeDecommissionStep e t tok n m p c))"
| decommission_done: "center_step c Acted (fst (completeAgentDecommissionCallback e enc t tok n m c))"
| begin_tailscale: "center_step c Acted (fst (beginTailscaleUpdate e a cr t i s n c))"
| tailscale_observed: "reconcileTailscaleUpdate e a ob c = Inr c' \<Longrightarrow> center_step c Acted c'"
| tailscale_reviewed: "center_step c Acted (fst (AcknowledgeTailscaleUpdate e adm a t ok m c))"
| backup_stored: "center_step c Acted (fst (StoreOSReinstallBackup e acc pl a s i ev c))"
| reinstall_armed: "center_step c Acted (fst (ArmOSReinstall e dg op a s i b p c))"
| reinstall_done: "center_step c Acted (fst (CompleteOSReinstall e vf a cr s i t c))"
| identity_retired: "center_step c Acted (retireAgentExecutionIdentity now a c)"
| related_paused: "center_step c Acted (pauseReinstallRelatedCommands now a c)"
| claim_control: "center_step c Acted (fst (SetExecutionClaimControl e adm pz c))"
| migration_pause: "center_step c Acted (fst (releaseMigrationExecutionPause e c))"
| business: "executions c' = executions c \<Longrightarrow> execution_events c' = execution_events c \<Longrightarrow> sessions c' = sessions c \<Longrightarrow>
    session_history c' = session_history c \<Longrightarrow> center_step c Acted c'"

inductive_cases started_elim: "center_step c (Started i) c'"
inductive_cases helper_step_elim: "center_step c (HelperStep i p) c'"

inductive run :: "center \<Rightarrow> action list \<Rightarrow> center \<Rightarrow> bool" where
  run_nil: "run c [] c"
| run_cons: "center_step c x d \<Longrightarrow> run d xs e \<Longrightarrow> run c (x # xs) e"

inductive_cases run_consE: "run c (x # xs) e"
inductive_cases run_nilE: "run c [] e"

definition initial :: "center \<Rightarrow> bool" where
  "initial c = (executions c = [] \<and> execution_events c = [] \<and> sessions c = [] \<and> session_history c = [])"

lemma fst_eq_safe: "f c = (c', err) \<Longrightarrow> safe_step c (fst (f c)) \<Longrightarrow> safe_step c c'"
  by simp

theorem center_step_safe: "center_step c x c' \<Longrightarrow> safe_step c c'"
proof (induction rule: center_step.induct)
  case (start e tunnel a s i d c c' err)
  then show ?case using StartExecution_safe [of c e tunnel a s i d] by simp
next
  case (start_refused e tunnel a s i d c c')
  then show ?case using StartExecution_safe [of c e tunnel a s i d] by simp
next
  case (helper e a s i p c c')
  then show ?case using CheckUpdateHelperStep_safe [of c e a s i p] by simp
next
  case (helper_refused e a s i p c c' err)
  then show ?case using CheckUpdateHelperStep_safe [of c e a s i p] by simp
next
  case (finalize e a s i rows c c')
  then show ?case
    using finalizeExecution_safe [of e a s i "c\<lparr>tasks := rows\<rparr>" c'] safe_step_trans [of c "c\<lparr>tasks := rows\<rparr>" c'] by simp
next
  case (recover_expired_results c e proj)
  then show ?case by (rule recoverExpiredReceivedExecutionResults_safe) simp
next
  case (business c' c)
  then show ?case by (simp add: safe_step_other session_step_same)
qed (rule safe_intros authorizeAgentUpdateRecovery_safe dispose_meridian_recovery_safe settle_local_execution_safe
      reconcileTailscaleUpdate_safe; assumption?)+

lemma run_safe: "run c xs c' \<Longrightarrow> safe_step c c'"
  by (induction rule: run.induct) (auto intro: safe_step_trans center_step_safe)

lemma initial_inv: "initial c \<Longrightarrow> center_inv c \<and> sessions_recorded c"
  by (simp add: initial_def center_inv_def keys_unique_def exclusive_def audit_complete_def current_sessions_def sessions_recorded_def session_of_def)

lemma run_inv: "run c xs c' \<Longrightarrow> center_inv c \<Longrightarrow> center_inv c'"
  using run_safe by (auto simp: safe_step_def)

section \<open>An offer is consumed once\<close>

lemma safe_step_row: "safe_step c c' \<Longrightarrow> r \<in> set (executions c) \<Longrightarrow> \<exists>r' \<in> set (executions c'). progress r r'"
  using evolves_row by (auto simp: safe_step_def)

definition consumed :: "string \<Rightarrow> center \<Rightarrow> bool" where
  "consumed i c = (\<exists>r \<in> set (executions c). ex_id r = i \<and> ex_state r \<noteq> Offered)"

lemma progress_consumed: "progress r r' \<Longrightarrow> ex_state r \<noteq> Offered \<Longrightarrow> ex_state r' \<noteq> Offered"
  by (cases "ex_state r") (auto simp: progress_def)

lemma consumed_safe: "safe_step c c' \<Longrightarrow> consumed i c \<Longrightarrow> consumed i c'"
  unfolding consumed_def using safe_step_row [of c c'] progress_consumed progress_id by metis

lemma start_consumes:
  assumes "center_step c (Started i) c'"
  shows "(\<exists>r \<in> set (executions c). ex_id r = i \<and> ex_state r = Offered) \<and> consumed i c'"
  using assms
proof (rule started_elim)
  fix e tunnel a s d err
  assume call: "StartExecution e tunnel a s i d c = (c', err)" and ok: "err \<noteq> Some ExecutionAuthorization"
  then obtain c1 where c1: "update_one ExecutionAuthorization (start_guard e c a s i d) (start_set e) c = Inr c1"
    by (auto simp: StartExecution_def update_one_def split: if_splits)
  then obtain r where r: "r \<in> set (executions c)" "start_guard e c a s i d r" "start_set e r \<in> set (executions c1)"
    using update_one_row [OF c1] by blast
  have "ex_id (start_set e r) = i \<and> ex_state (start_set e r) \<noteq> Offered" using r(2) by (simp add: start_defs)
  then have "consumed i c1" using r(3) unfolding consumed_def by blast
  moreover have "safe_step c1 c'"
    using call c1 StopExecution_safe by (auto simp: StartExecution_def split: option.splits)
  ultimately show ?thesis using r consumed_safe by (auto simp: start_defs)
qed

lemma run_started_count:
  "run c xs c' \<Longrightarrow> center_inv c \<Longrightarrow>
   count_list xs (Started i) \<le> 1 \<and> (consumed i c \<longrightarrow> count_list xs (Started i) = 0)"
proof (induction rule: run.induct)
  case (run_nil c)
  then show ?case by simp
next
  case (run_cons c x d xs e)
  have inv: "center_inv d" using run_cons center_step_safe by (auto simp: safe_step_def)
  note IH = run_cons.IH [OF inv]
  have carry: "consumed i c \<longrightarrow> consumed i d" using consumed_safe [OF center_step_safe [OF run_cons.hyps(1)]] by blast
  show ?case
  proof (cases "x = Started i")
    case True
    then have "(\<exists>r \<in> set (executions c). ex_id r = i \<and> ex_state r = Offered)" "consumed i d"
      using start_consumes run_cons.hyps(1) by auto
    moreover then have "\<not> consumed i c"
      using keys_unique_eq [of "executions c"] run_cons.prems by (auto simp: consumed_def center_inv_def)
    ultimately show ?thesis using IH True by auto
  next
    case False
    then show ?thesis using IH carry by auto
  qed
qed

section \<open>A helper step is granted once\<close>

definition helper_past :: "string \<Rightarrow> nat \<Rightarrow> center \<Rightarrow> bool" where
  "helper_past i n c =
     (\<exists>r \<in> set (executions c). ex_id r = i \<and> ex_kind r = ''agent.update'' \<and> ex_state r \<notin> {Offered, Running} \<and>
        (ex_state r = HelperRunning \<longrightarrow> n \<le> helper_rank (ex_phase r)))"

lemma progress_helper_past:
  assumes "progress r r'" "ex_kind r = ''agent.update''" "ex_state r \<notin> {Offered, Running}"
    "ex_state r = HelperRunning \<longrightarrow> n \<le> helper_rank (ex_phase r)"
  shows "ex_kind r' = ''agent.update'' \<and> ex_state r' \<notin> {Offered, Running} \<and>
    (ex_state r' = HelperRunning \<longrightarrow> n \<le> helper_rank (ex_phase r'))"
  using assms by (cases "ex_state r") (auto simp: progress_def same_identity_def helper_forward_def)

lemma helper_past_safe: "safe_step c c' \<Longrightarrow> helper_past i n c \<Longrightarrow> helper_past i n c'"
proof -
  assume safe: "safe_step c c'" and "helper_past i n c"
  then obtain r where r: "r \<in> set (executions c)" "ex_id r = i" "ex_kind r = ''agent.update''" "ex_state r \<notin> {Offered, Running}"
    "ex_state r = HelperRunning \<longrightarrow> n \<le> helper_rank (ex_phase r)"
    by (auto simp: helper_past_def)
  obtain r' where r': "r' \<in> set (executions c')" "progress r r'" using safe_step_row [OF safe r(1)] by blast
  show "helper_past i n c'"
    unfolding helper_past_def using r'(1) progress_helper_past [OF r'(2) r(3-5)] progress_id [OF r'(2)] r(2) by blast
qed

lemma helper_step_grants:
  assumes "center_step c (HelperStep i p) c'"
  shows "helper_past i (helper_rank p) c' \<and>
    (\<exists>r \<in> set (executions c). ex_id r = i \<and> ex_state r = HelperRunning \<and> helper_rank (ex_phase r) < helper_rank p)"
  using assms
proof (rule helper_step_elim)
  fix e a s
  assume call: "CheckUpdateHelperStep e a s i p c = (c', None)"
  then obtain q where q: "helper_previous p = Some q"
    and upd: "update_one ExecutionAuthorization (helper_guard e a s i q) (phase_set e p) c = Inr c'"
    by (auto simp: CheckUpdateHelperStep_def transact_def split: option.splits sum.splits)
  obtain r where r: "r \<in> set (executions c)" "helper_guard e a s i q r" "phase_set e p r \<in> set (executions c')"
    using update_one_row [OF upd] by blast
  have "ex_id (phase_set e p r) = i \<and> ex_kind (phase_set e p r) = ''agent.update'' \<and>
      ex_state (phase_set e p r) = HelperRunning \<and> ex_phase (phase_set e p r) = p"
    using r(2) by (simp add: helper_guard_def phase_set_def)
  then have "helper_past i (helper_rank p) c'" using r(3) unfolding helper_past_def by force
  then show ?thesis using r(1,2) helper_previous_rank [OF q] by (auto simp: helper_guard_def)
qed

lemma run_helper_count:
  "run c xs c' \<Longrightarrow> center_inv c \<Longrightarrow>
   count_list xs (HelperStep i p) \<le> 1 \<and> (helper_past i (helper_rank p) c \<longrightarrow> count_list xs (HelperStep i p) = 0)"
proof (induction rule: run.induct)
  case (run_nil c)
  then show ?case by simp
next
  case (run_cons c x d xs e)
  have inv: "center_inv d" using run_cons center_step_safe by (auto simp: safe_step_def)
  note IH = run_cons.IH [OF inv]
  have carry: "helper_past i (helper_rank p) c \<longrightarrow> helper_past i (helper_rank p) d"
    using helper_past_safe [OF center_step_safe [OF run_cons.hyps(1)]] by blast
  show ?case
  proof (cases "x = HelperStep i p")
    case True
    then have g: "helper_past i (helper_rank p) d"
      "\<exists>r \<in> set (executions c). ex_id r = i \<and> ex_state r = HelperRunning \<and> helper_rank (ex_phase r) < helper_rank p"
      using helper_step_grants run_cons.hyps(1) by auto
    have "\<not> helper_past i (helper_rank p) c"
    proof
      assume "helper_past i (helper_rank p) c"
      then obtain u where u: "u \<in> set (executions c)" "ex_id u = i" "ex_state u = HelperRunning \<longrightarrow> helper_rank p \<le> helper_rank (ex_phase u)"
        by (auto simp: helper_past_def)
      obtain r where r: "r \<in> set (executions c)" "ex_id r = i" "ex_state r = HelperRunning" "helper_rank (ex_phase r) < helper_rank p"
        using g(2) by blast
      have "u = r" using keys_unique_eq [OF _ u(1) r(1)] u(2) r(2) run_cons.prems by (simp add: center_inv_def)
      then show False using u(3) r(3,4) by simp
    qed
    then show ?thesis using IH True g by auto
  next
    case False
    then show ?thesis using IH carry by auto
  qed
qed

end
