(* ===== verification/Execution_Samples.thy ===== *)
theory Execution_Samples
  imports Execution_System
begin

text \<open>
  A small concrete Center: one Agent, its current session, one administrator and one offered
  execution, and an environment in which sealing prefixes the associated data. The witnesses of
  the execution properties evaluate the operations on it.
\<close>

definition s_agent :: string where "s_agent = ''node-a''"
definition s_session :: string where "s_session = ''session-0123456789abcdefgh''"
definition s_next_session :: string where "s_next_session = ''session-9876543210abcdefgh''"
definition s_admin :: string where "s_admin = ''admin''"

definition s_task :: agent_task where
  "s_task = blank_task\<lparr>at_kind := ''node.ip-quality'', at_id := ''ip-quality-1'', at_attempt := 1\<rparr>"

text \<open>\<open>marshal\<close> and \<open>unmarshal\<close> agree on the sample values, which is all the witnesses use.\<close>

definition s_marshal_evidence :: "evidence \<Rightarrow> string" where
  "s_marshal_evidence ev =
     (if ee_succeeded ev then CHR ''s'' else CHR ''f'') # (if ee_unknown ev then CHR ''u'' else CHR ''k'') # ee_result ev"

definition s_unmarshal_evidence :: "string \<Rightarrow> evidence option" where
  "s_unmarshal_evidence x =
     (case x of
        s # u # res \<Rightarrow> Some \<lparr>ee_result = res, ee_succeeded = (s = CHR ''s''), ee_unknown = (u = CHR ''u''), ee_runtime_generation = None\<rparr>
      | _ \<Rightarrow> None)"

definition s_env :: "gotime \<Rightarrow> env" where
  "s_env t =
     \<lparr>e_now = t, e_token = Some ''exec-2'',
      e_seal = (\<lambda>aad x. Some (aad @ ''|'' @ x)),
      e_open = (\<lambda>aad x. if has_prefix x (aad @ ''|'') then Some (drop (Suc (length aad)) x) else None),
      e_marshal_task = at_id,
      e_unmarshal_task = (\<lambda>x. if x = at_id s_task then Some s_task else None),
      e_marshal_evidence = s_marshal_evidence,
      e_unmarshal_evidence = s_unmarshal_evidence,
      e_json_valid = (\<lambda>x. x \<noteq> []),
      e_sha256_hex = (\<lambda>x. ''h'' @ x), e_token_hash = (\<lambda>x. ''t'' @ x),
      e_semver_valid = (\<lambda>v. v \<noteq> ''v''), e_semver_compare = (\<lambda>a b. int (length a) - int (length b)),
      e_safe_error = id, e_inspection_valid = (\<lambda>_. True)\<rparr>"

definition s_row :: execution where
  "s_row =
     \<lparr>ex_id = ''exec-1'', ex_agent_id = s_agent, ex_task_id = ''ip-quality-1'', ex_kind = ''node.ip-quality'', ex_attempt = 1,
      ex_session_id = s_session, ex_digest = ''hip-quality-1'', ex_sealed_task = ''execution-task:exec-1|ip-quality-1'',
      ex_sealed_result = [], ex_state = Offered, ex_phase = ''authorized'', ex_last_error = [],
      ex_expires_at = stamp_of (300 * second), ex_created_at = stamp_of 0, ex_updated_at = stamp_of 0,
      ex_disposition = [], ex_disposition_note = [], ex_disposition_actor = [], ex_disposed_at = NoStamp,
      ex_identity_retired_at = NoStamp\<rparr>"

definition s_agent_row :: agent_row where
  "s_agent_row =
     \<lparr>ag_id = s_agent, ag_version = ''1.2'', ag_last_seen_at = stamp_of 0, ag_remote_update_supported = True,
      ag_status = ''active'', ag_credential_hash = ''tpw'', ag_credential_revoked_at = NoStamp\<rparr>"

definition s_center :: "execution list \<Rightarrow> center" where
  "s_center rows =
     \<lparr>sessions = [(s_agent, s_session, stamp_of 0)], session_history = [(s_agent, s_session, stamp_of 0)],
      executions = rows, execution_events = map insert_event rows, claim_setting = None, claim_events = [],
      tasks = [], applications = [], node_sites = [], task_events = [], mirrors = [], meridian_cutover = None,
      agents = [s_agent_row], admins = [s_admin]\<rparr>"

lemmas s_defs = s_agent_def s_session_def s_next_session_def s_admin_def s_task_def s_env_def s_row_def s_agent_row_def s_center_def
  blank_task_def s_marshal_evidence_def s_unmarshal_evidence_def

lemma s_center_executions [simp]: "executions (s_center rows) = rows"
  by (simp add: s_center_def)

lemma s_center_inv:
  assumes "ex_agent_id r = s_agent" "ex_session_id r = s_session" "ex_identity_retired_at r = NoStamp"
  shows "center_inv (s_center [r])"
  using assms
  by (simp add: center_inv_def keys_unique_def exclusive_def audit_complete_def records_def last_event_def insert_event_def
      current_sessions_def session_of_def s_center_def)

lemma s_row_inv: "center_inv (s_center [s_row])"
  by (rule s_center_inv) (simp_all add: s_row_def)

lemma s_center_recorded: "sessions_recorded (s_center rows)"
  by (simp add: sessions_recorded_def session_of_def session_seen_def s_center_def)

lemma s_stamps [simp]:
  "stamp_of 0 < stamp_of (300 * second)" "stamp_of second < stamp_of (300 * second)"
  by (simp_all add: stamp_of_less_later second_def)

section \<open>A run from the empty Center\<close>

definition s_empty :: center where
  "s_empty = (s_center [])\<lparr>sessions := [], session_history := []\<rparr>"

definition s_view :: reinstall_view where
  "s_view =
     \<lparr>rv_blocked = (\<lambda>_. False), rv_pending_task = (\<lambda>_. Inr []), rv_target_blocked = (\<lambda>_ _. False),
      rv_acceptance = (\<lambda>_ _. Inr []), rv_reporting = (\<lambda>_ _. Inr []), rv_rotation = (\<lambda>_ _. Inr []), rv_inspection = (\<lambda>_ _. Inr []),
      rv_preparation = (\<lambda>_ _. Inr False), rv_preparation_json = (\<lambda>_. Inr []), rv_monitor_restore = (\<lambda>_ _. Inr None),
      rv_current_restore = (\<lambda>_ _. Inr None), rv_runtime = (\<lambda>_ _. Inr None), rv_listener = (\<lambda>_ _. Inr None)\<rparr>"

definition s_project :: projection where
  "s_project = (\<lambda>_ _ _ c. Inr (Some (tasks c)))"

definition s_registered :: center where
  "s_registered = fst (RegisterExecutionSession (s_env 0) s_project s_agent ''pw'' s_session 2 s_empty)"

definition s_claim :: "center \<Rightarrow> outcome \<times> (agent_task \<times> authorization) option" where
  "s_claim = claimExecutionTask (s_env 0) s_view None (\<lambda>c. Inr (tasks c, Some s_task)) s_agent s_session"

definition s_claimed :: center where
  "s_claimed = fst (fst (s_claim s_registered))"

definition s_offered :: execution where
  "s_offered = offered_row (s_env 0) ''exec-2'' s_agent s_session ''hip-quality-1'' ''execution-task:exec-2|ip-quality-1'' s_task"

lemma s_session_valid: "session_id_valid 2 s_session" "session_id_valid 2 s_next_session"
  by (simp_all add: session_id_valid_def ExecutionProtocol_def contains_any_def s_defs)

lemma s_registered_eq: "s_registered = s_center []"
proof -
  have auth: "authenticateAgentInQuery (s_env 0) s_empty s_agent ''pw'' = None"
    by (simp add: authenticateAgentInQuery_def s_empty_def s_defs)
  show ?thesis
    using auth s_session_valid
    by (simp add: s_registered_def RegisterExecutionSession_def recoverReceivedExecutionResults_def ordered_ids_def
        replace_session_def update_executions_def update_events_def sql_update_def session_of_def session_seen_def s_empty_def s_center_def s_env_def)
qed

lemma s_claimed_eq: "s_claimed = (s_center [s_offered])" "snd (fst (s_claim s_registered)) = None"
  unfolding s_claimed_def s_registered_eq s_claim_def claimExecutionTask_def
  by (simp_all add: executionClaimAllowed_def executionClaimsPaused_def session_of_def has_task_def sql_exists_def
      disposeSupersededLandingExecutionFailures_def superseded_candidates_def update_executions_def update_events_def sql_update_def
      s_view_def s_center_def persistExecutionAuthorization_def command_errors_def plan_command_error_def plan_command_def
      plan_task_def same_task_def fence_error_def xray_recovery_kind_def agent_row_of_def unresolvedExecutionBlocksAgentWork_def
      grant_def insert_execution_def s_offered_def s_env_def s_task_def blank_task_def s_agent_row_def Let_def s_agent_def)

lemma s_initial: "initial s_empty"
  by (simp add: initial_def s_empty_def s_center_def)

lemma s_run_claim: "run s_empty [Acted, Acted] (s_center [s_offered])"
proof -
  have "center_step s_empty Acted s_registered"
    unfolding s_registered_def by (rule center_step.register)
  moreover have "center_step s_registered Acted (s_center [s_offered])"
    using center_step.claim [of s_registered "s_env 0" s_view None "\<lambda>c. Inr (tasks c, Some s_task)" s_agent s_session]
    by (simp flip: s_claimed_eq(1) add: s_claimed_def s_claim_def)
  ultimately show ?thesis by (blast intro: run.intros)
qed

end
