(* ===== verification/Execution_Properties.thy ===== *)
theory Execution_Properties
  imports Execution_Samples
begin

text \<open>
  The properties of the execution protocol: what holds along every run of the Center
  (\<open>Execution_System\<close>), and what each call guarantees on its own.
\<close>

section \<open>Runs\<close>

definition s_start :: "center \<Rightarrow> outcome" where
  "s_start = StartExecution (s_env 0) (\<lambda>_. None) s_agent s_session ''exec-1'' ''hip-quality-1''"

lemma s_start_ok: "snd (s_start (s_center [s_row])) = None"
  by (simp add: s_start_def StartExecution_def update_one_def rows_affected_def start_defs session_of_def s_defs
      stamp_of_less_later taskLeaseDuration_def minute_def second_def)

lemma s_run: "run (s_center [s_row]) [Started ''exec-1''] (fst (s_start (s_center [s_row])))"
  using s_start_ok center_step.start [of "s_env 0" "\<lambda>_. None" s_agent s_session "''exec-1''" "''hip-quality-1''" "s_center [s_row]"
      "fst (s_start (s_center [s_row]))" None]
  by (auto simp: s_start_def prod_eq_iff intro: run.intros)

text \<open>
  C2. The offer of an execution is consumed at most once: in every run of the Center, whatever the
  calls and their order, at most one \<^verbatim>\<open>StartExecution\<close> call for a given execution passes.
\<close>

theorem start_consumes_offer_once:
  assumes "run c xs c'" "center_inv c"
  shows "count_list xs (Started i) \<le> 1"
  using run_started_count [OF assms] by blast

theorem start_consumes_offer_once_witness:
  "run (s_center [s_row]) [Started ''exec-1''] (fst (s_start (s_center [s_row]))) \<and>
   count_list [Started ''exec-1''] (Started ''exec-1'') \<le> 1"
  using s_run start_consumes_offer_once [OF s_run s_row_inv] by blast

text \<open>
  C3. In every state reached from an empty Center, two live (offered, running or helper-owned and
  undisposed) executions of the same Agent are the same row, recoveries of the Xray configuration
  apart: no ordinary work is authorized while other work may still run.
\<close>

theorem one_live_execution_per_agent:
  assumes "run c xs c'" "initial c"
    and "r \<in> set (executions c')" "s \<in> set (executions c')" "live r" "live s" "ex_agent_id r = ex_agent_id s"
    and "\<not> xray_recovery_kind (ex_kind r)" "\<not> xray_recovery_kind (ex_kind s)"
  shows "r = s"
  using run_inv [OF assms(1)] initial_inv [OF assms(2)] assms(3-) by (auto simp: center_inv_def exclusive_def)

theorem one_live_execution_per_agent_witness:
  "run s_empty [Acted, Acted] (s_center [s_offered]) \<and> initial s_empty \<and> live s_offered \<and>
   s_offered \<in> set (executions (s_center [s_offered])) \<and> s_offered = s_offered"
proof -
  have live: "live s_offered" by (simp add: live_def s_offered_def offered_row_def)
  have "s_offered = s_offered"
    by (rule one_live_execution_per_agent [OF s_run_claim s_initial])
      (simp_all add: live, simp_all add: s_offered_def offered_row_def xray_recovery_kind_def s_task_def)
  then show ?thesis using s_run_claim s_initial live by simp
qed

text \<open>
  C4. A resolved execution is immutable: once an execution has succeeded or has been disposed, its
  row is never written again, whatever calls follow.
\<close>

theorem resolved_execution_immutable:
  assumes "run c xs c'" "r \<in> set (executions c)" "ex_state r = Succeeded \<or> ex_disposition r \<noteq> []"
  shows "r \<in> set (executions c')"
  using safe_step_row [OF run_safe [OF assms(1)] assms(2)] assms(3) by (auto simp: progress_def)

definition s_done :: execution where
  "s_done = s_row\<lparr>ex_id := ''exec-0'', ex_state := Succeeded, ex_phase := ''reported'', ex_task_id := ''ip-quality-0''\<rparr>"

lemma s_pair_step: "center_step (s_center [s_done, s_row]) Acted (fst (RenewExecution (s_env 0) s_agent s_session ''exec-1'' (s_center [s_done, s_row])))"
  by (rule center_step.renew)

theorem resolved_execution_immutable_witness:
  "s_done \<in> set (executions (fst (RenewExecution (s_env 0) s_agent s_session ''exec-1'' (s_center [s_done, s_row]))))"
  by (rule resolved_execution_immutable [OF run_cons [OF s_pair_step run_nil]]) (simp_all add: s_done_def s_center_def)


definition s_received :: execution where
  "s_received = s_row\<lparr>ex_state := Running, ex_phase := ''result_received'', ex_sealed_result := ''execution-result:exec-1|sk{}''\<rparr>"




text \<open>
  C20. A process that was replaced never becomes current again: once another session was registered
  for its Agent, or the machine identity was retired, no later call makes the old session current.
\<close>

theorem replaced_session_stays_out:
  assumes "run c xs c'" "session_seen c a s" "session_of c a \<noteq> Some s"
  shows "session_of c' a \<noteq> Some s"
  using run_safe [OF assms(1)] assms(2,3) by (auto simp: safe_step_def session_step_def)

theorem replaced_session_stays_out_witness:
  "session_of (fst (RegisterExecutionSession (s_env 0) s_project s_agent ''pw'' s_session 2 (retireAgentExecutionIdentity (stamp_of 0) s_agent (s_center [s_row])))) s_agent \<noteq> Some s_session"
  by (rule replaced_session_stays_out [OF run_cons [OF center_step.register run_nil]])
    (simp_all add: session_of_retire, simp add: retireAgentExecutionIdentity_def session_seen_def s_center_def)

text \<open>
  C25. Each step of the update helper is granted at most once: in every run, at most one
  \<^verbatim>\<open>CheckUpdateHelperStep\<close> call for a given execution and phase passes, so a lost reply cannot be
  turned into a second stop, replacement or start.
\<close>

theorem helper_step_granted_once:
  assumes "run c xs c'" "center_inv c"
  shows "count_list xs (HelperStep i p) \<le> 1"
  using run_helper_count [OF assms] by blast

definition s_helper :: execution where
  "s_helper = s_row\<lparr>ex_kind := ''agent.update'', ex_state := HelperRunning, ex_phase := ''helper''\<rparr>"

definition s_stop :: "center \<Rightarrow> outcome" where
  "s_stop = CheckUpdateHelperStep (s_env 0) s_agent s_session ''exec-1'' ''stop''"

lemma s_stop_run: "run (s_center [s_helper]) [HelperStep ''exec-1'' ''stop''] (fst (s_stop (s_center [s_helper])))"
proof -
  have "snd (s_stop (s_center [s_helper])) = None"
    by (simp add: s_stop_def CheckUpdateHelperStep_def helper_previous_def transact_def update_one_def rows_affected_def
        helper_guard_def s_helper_def s_defs stamp_of_less_later second_def)
  then show ?thesis
    using center_step.helper [of "s_env 0" s_agent s_session "''exec-1''" "''stop''" "s_center [s_helper]" "fst (s_stop (s_center [s_helper]))"]
    by (auto simp: s_stop_def prod_eq_iff intro: run.intros)
qed

theorem helper_step_granted_once_witness:
  "run (s_center [s_helper]) [HelperStep ''exec-1'' ''stop''] (fst (s_stop (s_center [s_helper]))) \<and>
   count_list [HelperStep ''exec-1'' ''stop''] (HelperStep ''exec-1'' ''stop'') \<le> 1"
  using s_stop_run helper_step_granted_once [OF s_stop_run s_center_inv] by (simp add: s_helper_def s_row_def)

end
