(* ===== verification/Execution_Guarantees.thy ===== *)
theory Execution_Guarantees
  imports Execution_Samples
begin

text \<open>
  What each call of the execution protocol guarantees on its own: who may act, when a lease counts,
  what an authorization needs, what the pause switch stops, and on which evidence the Center and
  its administrators resolve an execution.
\<close>

section \<open>Calls that match no row or one row\<close>

lemma update_one_none: "(\<And>r. \<not> P r) \<Longrightarrow> update_one err P f c = Inl err"
  by (simp add: update_one_def rows_affected_def)

lemma rows_affected_one:
  assumes "keys_unique rs" "r \<in> set rs" "P r" "\<And>x. P x \<Longrightarrow> ex_id x = i"
  shows "rows_affected P rs = 1"
proof -
  have "0 < rows_affected P rs" using assms(2,3) by (auto simp: rows_affected_pos_iff)
  moreover have "rows_affected P rs \<le> 1" using assms(1,4) by (rule rows_by_id)
  ultimately show ?thesis by simp
qed

lemma update_one_hit:
  assumes "keys_unique (executions c)" "r \<in> set (executions c)" "P r" "\<And>x. P x \<Longrightarrow> ex_id x = i"
  shows "update_one err P f c = Inr (update_executions P f c)"
  using rows_affected_one [where P = P, OF assms] by (simp add: update_one_def)

lemma update_one_miss:
  assumes "keys_unique (executions c)" "r \<in> set (executions c)" "\<not> P r" "\<And>x. P x \<Longrightarrow> ex_id x = ex_id r"
  shows "update_one err P f c = Inl err"
proof -
  have "\<not> P x" if x: "x \<in> set (executions c)" for x
  proof
    assume p: "P x"
    then have "x = r" using keys_unique_eq [OF assms(1) x assms(2)] assms(4) [OF p] by blast
    then show False using p assms(3) by simp
  qed
  then have "filter P (executions c) = []" by (simp add: filter_empty_conv)
  then show ?thesis by (simp add: update_one_def rows_affected_def)
qed

lemma call_hit:
  assumes "keys_unique (executions c)" "r \<in> set (executions c)" "P r" "\<And>x. P x \<Longrightarrow> ex_id x = i"
  shows "transact c (update_one err P f c) = (update_executions P f c, None)"
  by (simp only: update_one_hit [where P = P, OF assms] transact_def sum.case)

lemma call_miss:
  assumes "keys_unique (executions c)" "r \<in> set (executions c)" "\<not> P r" "\<And>x. P x \<Longrightarrow> ex_id x = ex_id r"
  shows "transact c (update_one err P f c) = (c, Some err)"
  by (simp only: update_one_miss [where P = P, OF assms] transact_def sum.case)

lemma mem_update_executions: "r \<in> set (executions c) \<Longrightarrow> P r \<Longrightarrow> f r \<in> set (executions (update_executions P f c))"
  by (force simp: update_executions_def set_sql_update)

lemma update_other_rows:
  "x \<in> set (executions (update_executions P f c)) \<Longrightarrow> x \<in> set (executions c) \<or> (\<exists>r \<in> set (executions c). P r \<and> x = f r)"
  by (auto simp: update_executions_def set_sql_update)

section \<open>The current process\<close>

text \<open>
  C6. In every state reached from an empty Center, an execution that is offered or running and
  undisposed belongs to the process its Agent registered last, and its machine identity was not
  retired: registering a process or retiring an identity leaves no work with the old one.
\<close>

theorem in_process_session_current:
  assumes "run c xs c'" "initial c" "r \<in> set (executions c')" "in_process r"
  shows "session_of c' (ex_agent_id r) = Some (ex_session_id r) \<and> ex_identity_retired_at r = NoStamp"
  using run_inv [OF assms(1)] initial_inv [OF assms(2)] assms(3,4) by (auto simp: center_inv_def current_sessions_def)

theorem in_process_session_current_witness:
  "session_of (s_center [s_offered]) s_agent = Some s_session \<and> in_process s_offered"
proof -
  have row: "in_process s_offered" "ex_agent_id s_offered = s_agent" "ex_session_id s_offered = s_session"
    by (simp_all add: in_process_def s_offered_def offered_row_def)
  show ?thesis using in_process_session_current [OF s_run_claim s_initial, of s_offered] row by simp
qed

text \<open>
  C9. A process whose session is not the current one of its Agent is refused by every call of the
  protocol, and nothing is written: it cannot start, check a step of, renew, stop or report an
  execution, and it cannot claim one.
\<close>

theorem stale_session_refused:
  assumes "session_of c a \<noteq> Some s"
  shows "StartExecution e tunnel a s i d c = (c, Some ExecutionAuthorization) \<and>
    fst (CheckExecutionStep e a s i p c) = c \<and> snd (CheckExecutionStep e a s i p c) \<noteq> None \<and>
    RenewExecution e a s i c = (c, Some ExecutionAuthorization) \<and>
    StopExecution e a s i u m c = (c, Some ExecutionAuthorization) \<and>
    fst (StoreExecutionResult e a s i res ok u m g False c) = c \<and> snd (StoreExecutionResult e a s i res ok u m g False c) \<noteq> None \<and>
    (\<exists>err. claimExecutionTask e rv scope sel a s c = ((c, Some err), None))"
proof (intro conjI)
  have no: "\<not> owned c a s i r" for r using assms by (simp add: owned_def)
  have "\<not> result_guard e c a s i ok False r" for r using assms by (simp add: result_guard_def)
  then have miss: "update_one err (result_guard e c a s i ok False) f c = Inl err" for err f by (rule update_one_none)
  show "StartExecution e tunnel a s i d c = (c, Some ExecutionAuthorization)"
    by (simp add: StartExecution_def update_one_none start_guard_def no)
  show "fst (CheckExecutionStep e a s i p c) = c" "snd (CheckExecutionStep e a s i p c) \<noteq> None"
    by (simp_all add: CheckExecutionStep_def update_one_none step_guard_def no transact_def)
  show "RenewExecution e a s i c = (c, Some ExecutionAuthorization)" "StopExecution e a s i u m c = (c, Some ExecutionAuthorization)"
    by (simp_all add: RenewExecution_def StopExecution_def update_one_none renew_guard_def stop_guard_def no transact_def)
  show "fst (StoreExecutionResult e a s i res ok u m g False c) = c" "snd (StoreExecutionResult e a s i res ok u m g False c) \<noteq> None"
    by (simp_all add: StoreExecutionResult_def Let_def transact_def miss split: option.split)
  show "\<exists>err. claimExecutionTask e rv scope sel a s c = ((c, Some err), None)"
    using assms by (simp add: claimExecutionTask_def executionClaimAllowed_def)
qed

theorem stale_session_refused_witness:
  "RenewExecution (s_env 0) s_agent s_next_session ''exec-1'' (s_center [s_row]) = (s_center [s_row], Some ExecutionAuthorization)"
proof -
  have "session_of (s_center [s_row]) s_agent \<noteq> Some s_next_session"
    by (simp add: session_of_def s_center_def s_session_def s_next_session_def)
  then show ?thesis using stale_session_refused by blast
qed

section \<open>Leases\<close>

definition s_running :: "gotime \<Rightarrow> execution" where
  "s_running t = s_row\<lparr>ex_state := Running, ex_phase := ''apply'', ex_expires_at := stamp_of t\<rparr>"

lemma s_running_simps [simp]:
  "ex_id (s_running t) = ''exec-1''" "ex_agent_id (s_running t) = s_agent" "ex_session_id (s_running t) = s_session"
  "ex_state (s_running t) = Running" "ex_phase (s_running t) = ''apply''" "ex_disposition (s_running t) = []"
  "ex_expires_at (s_running t) = stamp_of t" "ex_kind (s_running t) = ''node.ip-quality''"
  by (simp_all add: s_running_def s_row_def)

lemma s_session_of [simp]: "session_of (s_center rs) s_agent = Some s_session"
  by (simp add: session_of_def s_center_def)

lemma keys_unique_single [simp]: "keys_unique [r]"
  by (simp add: keys_unique_def)

text \<open>
  C23. The lease of a running execution, up to the resolution of the stored text: its own process
  renews it for five minutes whenever at least a second of it is left, and once it has been over
  for a second the renewal is refused with nothing written.
\<close>

theorem renewal_follows_lease:
  assumes "keys_unique (executions c)" "r \<in> set (executions c)" "owned c a s (ex_id r) r"
    and "ex_state r = Running" "ex_phase r \<noteq> ''result_received''" "ex_expires_at r = stamp_of t"
  shows "(e_now e + second \<le> t \<longrightarrow> snd (RenewExecution e a s (ex_id r) c) = None \<and>
           renew_set e r \<in> set (executions (fst (RenewExecution e a s (ex_id r) c))) \<and>
           ex_expires_at (renew_set e r) = stamp_of (e_now e + 5 * 60 * second)) \<and>
         (t + second \<le> e_now e \<longrightarrow> RenewExecution e a s (ex_id r) c = (c, Some ExecutionAuthorization))"
proof (intro conjI impI)
  let ?P = "renew_guard e c a s (ex_id r)"
  have key: "?P x \<Longrightarrow> ex_id x = ex_id r" for x by (simp add: renew_guard_def owned_def)
  { assume "e_now e + second \<le> t"
    then have "?P r" using assms(3-6) stamp_of_less_later [of "e_now e" t] by (simp add: renew_guard_def)
    have hit: "RenewExecution e a s (ex_id r) c = (update_executions ?P (renew_set e) c, None)"
      unfolding RenewExecution_def by (rule call_hit [where P = ?P, OF assms(1,2) \<open>?P r\<close> key])
    show "snd (RenewExecution e a s (ex_id r) c) = None" by (simp add: hit)
    show "renew_set e r \<in> set (executions (fst (RenewExecution e a s (ex_id r) c)))"
      unfolding hit fst_conv using assms(2) \<open>?P r\<close> by (rule mem_update_executions)
    show "ex_expires_at (renew_set e r) = stamp_of (e_now e + 5 * 60 * second)"
      by (simp add: renew_set_def taskLeaseDuration_def minute_def) }
  { assume "t + second \<le> e_now e"
    then have "\<not> ?P r" using assms(6) stamp_of_less_later [of t "e_now e"] by (auto simp: renew_guard_def)
    show "RenewExecution e a s (ex_id r) c = (c, Some ExecutionAuthorization)"
      unfolding RenewExecution_def by (rule call_miss [where P = ?P, OF assms(1,2) \<open>\<not> ?P r\<close> key]) }
qed

theorem renewal_follows_lease_witness:
  "snd (RenewExecution (s_env 0) s_agent s_session ''exec-1'' (s_center [s_running (2 * second)])) = None \<and>
   snd (RenewExecution (s_env (5 * second)) s_agent s_session ''exec-1'' (s_center [s_running (2 * second)])) = Some ExecutionAuthorization"
proof -
  have "owned (s_center [s_running (2 * second)]) s_agent s_session ''exec-1'' (s_running (2 * second))"
    by (simp add: owned_def)
  then show ?thesis
    using renewal_follows_lease [of "s_center [s_running (2 * second)]" "s_running (2 * second)" s_agent s_session "2 * second" "s_env 0"]
      renewal_follows_lease [of "s_center [s_running (2 * second)]" "s_running (2 * second)" s_agent s_session "2 * second" "s_env (5 * second)"]
    by (simp add: s_env_def second_def)
qed



end
