(* ===== verification/Execution_Decisions.thy ===== *)
theory Execution_Decisions
  imports Execution_Guarantees
begin

text \<open>
  The decisions of the Center: when it grants an execution, what its pause switch stops, which
  evidence completes an execution, and what a disposition by an administrator needs.
\<close>

section \<open>Granting\<close>

lemma claim_Inr:
  assumes "claimExecutionTask e rv scope sel a s c = ((c', None), Some (task, auth))"
  obtains c1 rows where "executionClaimAllowed e rv a s c = (c1, None)"
    "persistExecutionAuthorization e rv scope a s task (c1\<lparr>tasks := rows\<rparr>) = Inr (c', auth)"
  using assms unfolding claimExecutionTask_def by (auto split: prod.splits option.splits sum.splits)

lemma claim_allowed_gate: "executionClaimAllowed e rv a s c = (c1, None) \<Longrightarrow> \<not> executionClaimsPaused c \<and> session_of c a = Some s"
  by (auto simp: executionClaimAllowed_def split: if_splits)

text \<open>
  C10. A granted claim names the current session of the Agent and was not paused; its offer is in the
  table with the digest of exactly the task that was sent, and unless the task is a recovery of the
  Xray configuration it is the only live execution of its Agent.
\<close>

theorem claim_grants_exclusive_offer:
  assumes "claimExecutionTask e rv scope sel a s c = ((c', None), Some (task, auth))"
  shows "\<not> executionClaimsPaused c \<and> session_of c a = Some s \<and>
    (\<exists>r \<in> set (executions c'). ex_id r = au_id auth \<and> ex_agent_id r = a \<and> ex_session_id r = s \<and> ex_state r = Offered \<and>
       ex_task_id r = at_id task \<and> ex_kind r = at_kind task \<and> ex_attempt r = at_attempt task \<and>
       ex_digest r = au_digest auth \<and> au_digest auth = e_sha256_hex e (e_marshal_task e task) \<and>
       e_seal e (task_aad (au_id auth)) (e_marshal_task e task) = Some (ex_sealed_task r)) \<and>
    (xray_recovery_kind (at_kind task) \<or>
      (\<forall>x \<in> set (executions c'). ex_agent_id x = a \<and> live x \<longrightarrow> ex_id x = au_id auth))"
  using assms
proof (rule claim_Inr)
  fix c1 rows
  assume allowed: "executionClaimAllowed e rv a s c = (c1, None)"
    and "persistExecutionAuthorization e rv scope a s task (c1\<lparr>tasks := rows\<rparr>) = Inr (c', auth)"
  from this(2) show ?thesis
  proof (rule persist_Inr)
    fix i sealed
    let ?r = "offered_row e i a s (e_sha256_hex e (e_marshal_task e task)) sealed task"
    assume seal: "e_seal e (task_aad i) (e_marshal_task e task) = Some sealed"
      and fence: "fence_error e scope a task (c1\<lparr>tasks := rows\<rparr>) = None"
      and ins: "insert_execution ?r (c1\<lparr>tasks := rows\<rparr>) = Inr c'"
      and auth: "auth = \<lparr>au_id = i, au_protocol = ExecutionProtocol, au_digest = e_sha256_hex e (e_marshal_task e task)\<rparr>"
    have rows: "executions c' = executions c1 @ [?r]" using ins by (auto simp: insert_execution_def split: if_splits)
    have offer: "\<exists>r \<in> set (executions c'). ex_id r = au_id auth \<and> ex_agent_id r = a \<and> ex_session_id r = s \<and> ex_state r = Offered \<and>
       ex_task_id r = at_id task \<and> ex_kind r = at_kind task \<and> ex_attempt r = at_attempt task \<and>
       ex_digest r = au_digest auth \<and> au_digest auth = e_sha256_hex e (e_marshal_task e task) \<and>
       e_seal e (task_aad (au_id auth)) (e_marshal_task e task) = Some (ex_sealed_task r)"
      using seal by (intro bexI [of _ ?r]) (simp_all add: rows auth offered_row_def)
    have alone: "ex_id x = au_id auth" if "\<not> xray_recovery_kind (at_kind task)" "x \<in> set (executions c')" "ex_agent_id x = a" "live x" for x
    proof (cases "x = ?r")
      case True
      then show ?thesis by (simp add: auth offered_row_def)
    next
      case False
      then show ?thesis using fence_error_None [OF fence that(1), of x] that(2-) rows by simp
    qed
    show ?thesis using claim_allowed_gate [OF allowed] offer alone by blast
  qed
qed

theorem claim_grants_exclusive_offer_witness:
  "\<exists>r \<in> set (executions (s_center [s_offered])). ex_digest r = ''hip-quality-1'' \<and> ex_state r = Offered"
proof -
  have "s_claim s_registered = ((s_center [s_offered], None), Some (s_task, \<lparr>au_id = ''exec-2'', au_protocol = 2, au_digest = ''hip-quality-1''\<rparr>))"
    unfolding s_registered_eq s_claim_def claimExecutionTask_def
    by (simp add: executionClaimAllowed_def executionClaimsPaused_def session_of_def has_task_def sql_exists_def
      disposeSupersededLandingExecutionFailures_def superseded_candidates_def update_executions_def update_events_def sql_update_def
      s_view_def s_center_def persistExecutionAuthorization_def command_errors_def plan_command_error_def plan_command_def
      plan_task_def same_task_def fence_error_def xray_recovery_kind_def agent_row_of_def unresolvedExecutionBlocksAgentWork_def
      grant_def insert_execution_def s_offered_def s_env_def s_task_def blank_task_def s_agent_row_def Let_def s_agent_def ExecutionProtocol_def)
  then show ?thesis
    using claim_grants_exclusive_offer [of "s_env 0" s_view None "\<lambda>c. Inr (tasks c, Some s_task)" s_agent s_session s_registered]
    unfolding s_claim_def by fastforce
qed

text \<open>
  C16. An unresolved outcome fences its Agent: while an execution of the Agent failed or is of
  unknown outcome and was not disposed, no ordinary task is authorized, unless the execution is an
  Agent update whose target version the Agent already reports.
\<close>

theorem unresolved_outcome_blocks_work:
  assumes "x \<in> set (executions c)" "ex_agent_id x = a" "ex_disposition x = []" "ex_state x \<in> {Failed, Unknown}"
    and "\<forall>ag. ex_kind x = ''agent.update'' \<and> agent_row_of c a = Some ag \<longrightarrow>
      \<not> agentUpdateFailureSuperseded e (ag_version ag) (update_target c x)"
    and "at_kind task \<noteq> ''agent.update''" "\<not> xray_recovery_kind (at_kind task)"
  shows "\<exists>err. persistExecutionAuthorization e rv scope a s task c = Inl err"
proof (cases "persistExecutionAuthorization e rv scope a s task c")
  case (Inr p)
  obtain c' auth where p: "p = (c', auth)" by (cases p)
  from Inr [unfolded p] show ?thesis
  proof (rule persist_Inr)
    assume "fence_error e scope a task c = None"
    then obtain ag :: agent_row where "agent_row_of c a = Some ag" "\<not> unresolvedExecutionBlocksAgentWork e c a (ag_version ag)"
      using assms(6,7) by (auto simp: fence_error_def split: option.splits if_splits)
    moreover have "unresolved x \<and> blocks_work e c (ag_version ag) x"
      using assms(3-5) calculation(1) by (auto simp: unresolved_def blocks_work_def)
    ultimately show ?thesis
      using assms(1,2) by (auto simp: unresolvedExecutionBlocksAgentWork_def sql_exists_iff)
  qed
qed simp

theorem unresolved_outcome_blocks_work_witness:
  "\<exists>err. persistExecutionAuthorization (s_env 0) s_view None s_agent s_session s_task
     (s_center [s_row\<lparr>ex_state := Unknown\<rparr>]) = Inl err"
  by (rule unresolved_outcome_blocks_work [of "s_row\<lparr>ex_state := Unknown\<rparr>"])
    (simp_all add: s_row_def s_task_def xray_recovery_kind_def)

section \<open>The pause switch\<close>

text \<open>
  C29. The pause switch fails closed: a setting that is not a JSON object with a literal false in
  \<^verbatim>\<open>paused\<close> stops every claim before anything is written. An administrator's pause stays until an
  administrator lifts it: the rollout of Agents releases only pauses of a migration.
\<close>

theorem pause_fails_closed:
  assumes "claim_setting c = Some st" "\<not> cc_json_valid st \<or> cc_paused st \<noteq> Some False"
  shows "claimExecutionTask e rv scope sel a s c = ((c, Some ExecutionBlocked), None) \<and>
    (\<forall>adm. is_admin c adm \<and> \<not> has_prefix (trim_space adm) ''migration:'' \<longrightarrow>
      (let d = fst (SetExecutionClaimControl e adm True c) in
        executionClaimsPaused d \<and> releaseMigrationExecutionPause e' d = (d, None) \<and>
        \<not> executionClaimsPaused (fst (SetExecutionClaimControl e adm False d))))"
  using assms
  by (auto simp: claimExecutionTask_def executionClaimAllowed_def executionClaimsPaused_def SetExecutionClaimControl_def
      releaseMigrationExecutionPause_def control_value_def migration_owned_def is_admin_def Let_def)

theorem pause_fails_closed_witness:
  "claimExecutionTask (s_env 0) s_view None (\<lambda>c. Inr (tasks c, Some s_task)) s_agent s_session
     ((s_center [])\<lparr>claim_setting := Some (control_value True s_admin (stamp_of 0))\<rparr>)
   = (((s_center [])\<lparr>claim_setting := Some (control_value True s_admin (stamp_of 0))\<rparr>, Some ExecutionBlocked), None)"
  by (rule pause_fails_closed [of _ "control_value True s_admin (stamp_of 0)", THEN conjunct1]) (simp_all add: control_value_def)

section \<open>Evidence\<close>

text \<open>
  C17. The Center completes an execution on its own only on proof: an automatic projection succeeds
  only for an undisposed execution of unknown outcome whose received, authenticated evidence says
  it succeeded and whose sealed task is the one recorded, and it marks that execution succeeded.
\<close>

theorem automatic_completion_needs_proof:
  assumes "projectRetainedExecutionResult e project i automatic c = (c', None)"
  shows "\<exists>r \<in> set (executions c). retained_guard True i r \<and>
    (\<exists>ev task. open_evidence e r = Some ev \<and> ee_succeeded ev \<and> \<not> ee_unknown ev \<and>
       open_task e r = Some task \<and> at_id task = ex_task_id r \<and> at_kind task = ex_kind r \<and> at_attempt task = ex_attempt r) \<and>
    executions c' = sql_update (project_guard i) (project_set (now_stamp e)) (executions c) \<and>
    project_set (now_stamp e) r \<in> set (executions c')"
proof -
  obtain r where r: "find (retained_guard True i) (executions c) = Some r"
    using assms by (auto simp: projectRetainedExecutionResult_def automatic_def split: option.splits)
  then have mem: "r \<in> set (executions c)" and guard: "retained_guard True i r"
    by (auto simp: find_Some_iff)
  then have id: "ex_id r = i" by (simp add: retained_guard_def)
  obtain traw task rraw ev where
    opened: "e_open e (task_aad i) (ex_sealed_task r) = Some traw" "e_unmarshal_task e traw = Some task"
      "e_open e (result_aad i) (ex_sealed_result r) = Some rraw" "e_unmarshal_evidence e rraw = Some ev"
    and match: "at_id task = ex_task_id r" "at_kind task = ex_kind r" "at_attempt task = ex_attempt r"
    and ok: "retainedResultSupportsConfirmation e (ex_kind r) ev"
    using assms r by (auto simp: projectRetainedExecutionResult_def automatic_def split: option.splits if_splits)
  obtain d where d: "executions d = executions c" "retained_commit e automatic i d = Inr c'"
  proof -
    obtain st rows where "transact c (retained_commit e automatic i
        ((run_statement (now_stamp e) st task (ex_agent_id r) c)\<lparr>tasks := rows\<rparr>)) = (c', None)"
      using assms r opened match ok
      by (auto simp: projectRetainedExecutionResult_def automatic_def Let_def split: option.splits if_splits sum.splits)
    then show thesis
      by (intro that) (auto simp: run_statement_def update_task_rows_def transact_def split: sum.splits)
  qed
  have upd: "update_one ExecutionAuthorization (project_guard i) (project_set (now_stamp e)) d = Inr c'"
    using d(2) by (auto simp: retained_commit_def automatic_def split: option.splits)
  then have rows: "executions c' = sql_update (project_guard i) (project_set (now_stamp e)) (executions c)"
    using d(1) by (simp add: update_one_Inr update_executions_def)
  have "project_guard i r" using guard by (simp add: retained_guard_def project_guard_def)
  then have "project_set (now_stamp e) r \<in> set (executions c')" using mem rows by (force simp: set_sql_update)
  moreover have "open_evidence e r = Some ev" "open_task e r = Some task"
    using opened id by (simp_all add: open_evidence_def open_task_def)
  moreover have "ee_succeeded ev" "\<not> ee_unknown ev" using ok by (auto simp: retainedResultSupportsConfirmation_def split: if_splits)
  ultimately show ?thesis using mem guard match rows by blast
qed

definition s_adopt_env :: env where
  "s_adopt_env = (s_env 0)\<lparr>e_unmarshal_task := \<lambda>_. Some (s_task\<lparr>at_kind := ''application.adopt''\<rparr>)\<rparr>"

definition s_adopt_row :: execution where
  "s_adopt_row = s_row\<lparr>ex_kind := ''application.adopt'', ex_state := Unknown, ex_phase := ''result_received'',
     ex_sealed_result := ''execution-result:exec-1|sk{}''\<rparr>"

definition s_adopt_task :: task_row where
  "s_adopt_task =
     \<lparr>tr_table = ApplicationAdoptions, tr_rowid = 1, tr_id = ''ip-quality-1'', tr_kind = [], tr_agent = s_agent,
      tr_application = ''app'', tr_deployment = [], tr_action = [], tr_endpoint = [], tr_gateway_node = [],
      tr_revision = 0, tr_applied_revision = 0, tr_attempt = 1, tr_state = ''failed'', tr_lease_expires_at = NoStamp,
      tr_error = [], tr_target_version = [], tr_token_hash = [], tr_backup = [], tr_network = [], tr_digest = [],
      tr_prepared_digest = [], tr_reconciliation_required = False, tr_reconciliation_requested = False,
      tr_updated_at = stamp_of 0\<rparr>"

definition s_adopt_center :: center where
  "s_adopt_center = (s_center [s_adopt_row])\<lparr>tasks := [s_adopt_task]\<rparr>"

definition s_adopt_project :: projection where
  "s_adopt_project = (\<lambda>_ _ _ c. Inr (Some (map (\<lambda>r. r\<lparr>tr_state := ''succeeded''\<rparr>) (tasks c))))"

lemmas s_adopt_defs = s_adopt_env_def s_adopt_row_def s_adopt_task_def s_adopt_center_def s_adopt_project_def

lemma s_adopt_project_ok:
  "snd (projectRetainedExecutionResult s_adopt_env s_adopt_project ''exec-1'' automatic s_adopt_center) = None"
  by (simp add: projectRetainedExecutionResult_def automatic_def retained_guard_def retainedResultSupportsConfirmation_def
      executionConfirmationStatement_def reopen_def statement_rows_def rows_affected_def statement_matches_def run_statement_def
      statement_row_def update_task_rows_def sql_update_def retained_commit_def validateExecutionProjection_def
      projection_state_def projection_table_def projection_row_def xray_recovery_kind_def diagnostic_kinds_def
      update_one_def project_guard_def transact_def Let_def s_adopt_defs s_defs)

theorem automatic_completion_needs_proof_witness:
  "\<exists>c'. projectRetainedExecutionResult s_adopt_env s_adopt_project ''exec-1'' automatic s_adopt_center = (c', None) \<and>
     (\<exists>r \<in> set (executions s_adopt_center). retained_guard True ''exec-1'' r \<and> project_set (now_stamp s_adopt_env) r \<in> set (executions c'))"
proof -
  obtain c' where c': "projectRetainedExecutionResult s_adopt_env s_adopt_project ''exec-1'' automatic s_adopt_center = (c', None)"
    using s_adopt_project_ok by (metis prod.collapse)
  then show ?thesis using automatic_completion_needs_proof [OF c'] by blast
qed

section \<open>Dispositions\<close>

text \<open>What the executions look like after an administrator disposed one.\<close>

definition disposed_by :: "env \<Rightarrow> string \<Rightarrow> string \<Rightarrow> disposition_input \<Rightarrow> center \<Rightarrow> center \<Rightarrow> bool" where
  "disposed_by e i adminID input c c' =
     (is_admin c adminID \<and> attested input \<and> rows_affected (dispose_guard i) (executions c) = 1 \<and>
      executions c' = sql_update (dispose_guard i)
        (dispose_set (now_stamp e) (di_action input) (e_safe_error e (di_note input)) adminID) (executions c))"

lemma disposed_by_update:
  assumes "update_one err (dispose_guard i) (dispose_set (now_stamp e) (di_action inp) (e_safe_error e (di_note inp)) adm) d = Inr c'"
    "is_admin c adm" "attested inp" "executions d = executions c"
  shows "disposed_by e i adm inp c c'"
  using assms by (simp add: disposed_by_def update_one_Inr update_executions_def)

lemma executions_run_statement [simp]: "executions (run_statement now st t a c) = executions c"
  by (simp add: run_statement_def update_task_rows_def)

lemma executions_dispose_mirrors [simp]: "executions (dispose_mirrors now k x t c) = executions c"
  by (simp add: dispose_mirrors_def Let_def update_applications_def)

lemma transact_None: "transact c r = (c', None) \<longleftrightarrow> r = Inr c'"
  by (cases r) (auto simp: transact_def)

text \<open>A call that returns an error has written nothing; rules that follow its branches.\<close>

definition atomic_call :: "center \<Rightarrow> outcome \<Rightarrow> bool" where
  "atomic_call c x = (snd x \<noteq> None \<longrightarrow> fst x = c)"

lemma atomic_rules:
  "atomic_call c (c, err)"
  "atomic_call c (transact c r)"
  "(b \<Longrightarrow> atomic_call c x) \<Longrightarrow> (\<not> b \<Longrightarrow> atomic_call c y) \<Longrightarrow> atomic_call c (if b then x else y)"
  "(\<And>v. atomic_call c (f v)) \<Longrightarrow> atomic_call c (let v = u in f v)"
  by (auto simp: atomic_call_def transact_def split: sum.splits)

lemma atomic_option:
  "atomic_call c x \<Longrightarrow> (\<And>v. atomic_call c (f v)) \<Longrightarrow> atomic_call c (case opt of None \<Rightarrow> x | Some v \<Rightarrow> f v)"
  by (cases opt) auto

lemma atomic_sum:
  "(\<And>v. atomic_call c (f v)) \<Longrightarrow> (\<And>v. atomic_call c (g v)) \<Longrightarrow> atomic_call c (case r of Inl v \<Rightarrow> f v | Inr v \<Rightarrow> g v)"
  by (cases r) auto

lemmas atomic_cases = atomic_rules atomic_option atomic_sum

lemma ConfirmExecution_disposed:
  assumes "ConfirmExecution e project i adm inp c = (c', None)"
  shows "disposed_by e i adm inp c c'"
proof -
  let ?res = "\<lparr>rs_admin = adm, rs_note = di_note inp, rs_automatic = False\<rparr>"
  have inp: "di_action inp = ''confirm-completed''" "attested inp"
    and p: "projectRetainedExecutionResult e project i ?res c = (c', None)"
    using assms by (auto simp: ConfirmExecution_def split: if_splits)
  obtain st t a rows where "transact c (retained_commit e ?res i ((run_statement (now_stamp e) st t a c)\<lparr>tasks := rows\<rparr>)) = (c', None)"
    and adm: "is_admin c adm"
    using p by (auto simp: projectRetainedExecutionResult_def Let_def split: option.splits if_splits sum.splits)
  then show ?thesis
    by (auto simp: transact_None retained_commit_def inp(1) [symmetric] split: option.splits
        intro: disposed_by_update [OF _ adm inp(2)])
qed

lemma disposeTaskExecution_disposed:
  assumes "disposeTaskExecution e blk i adm inp c = (c', None)"
  shows "disposed_by e i adm inp c c'"
proof -
  have ok: "attested inp" "is_admin c adm" using assms by (auto simp: disposeTaskExecution_def split: if_splits)
  then obtain k t st u a where "transact c (update_one ExecutionAuthorization (dispose_guard i)
      (dispose_set (now_stamp e) (di_action inp) (e_safe_error e (di_note inp)) adm)
      (dispose_mirrors (now_stamp e) k (di_action inp) t (run_statement (now_stamp e) st u a c))) = (c', None)"
    using assms by (auto simp: disposeTaskExecution_def Let_def split: option.splits if_splits sum.splits)
  then show ?thesis by (auto simp: transact_None intro: disposed_by_update [OF _ ok(2,1)])
qed

lemma DisposeHelperExecution_disposed:
  assumes "DisposeHelperExecution e i adm inp c = (c', None)"
  shows "disposed_by e i adm inp c c'"
proof -
  have ok: "attested inp" "is_admin c adm" using assms by (auto simp: DisposeHelperExecution_def split: if_splits)
  then obtain st u a where "transact c (update_one ExecutionAuthorization (dispose_guard i)
      (dispose_set (now_stamp e) (di_action inp) (e_safe_error e (di_note inp)) adm)
      (run_statement (now_stamp e) st u a c)) = (c', None)"
    using assms by (auto simp: DisposeHelperExecution_def Let_def split: option.splits if_splits)
  then show ?thesis by (auto simp: transact_None intro: disposed_by_update [OF _ ok(2,1)])
qed

lemma disposition_atomic:
  "atomic_call c (ConfirmExecution e project i adm inp c)"
  "atomic_call c (disposeTaskExecution e blk i adm inp c)"
  "atomic_call c (DisposeHelperExecution e i adm inp c)"
  unfolding ConfirmExecution_def projectRetainedExecutionResult_def disposeTaskExecution_def DisposeHelperExecution_def
  by (intro atomic_cases)+


definition s_abandon :: outcome where
  "s_abandon = AbandonExecution s_adopt_env (\<lambda>_ _. False) ''exec-1'' s_admin
     \<lparr>di_action = ''abandon'', di_execution_stopped = True, di_note = ''host inspected''\<rparr> s_adopt_center"

lemma s_note [simp]: "trim_space ''host inspected'' = ''host inspected''"
  by code_simp

lemma s_abandon_ok: "snd s_abandon = None"
  by (simp add: s_abandon_def AbandonExecution_def disposeTaskExecution_def attested_def
      is_admin_def find_execution_def stopped_state_def executionAbandonStatement_def by_id_def statement_rows_def rows_affected_def
      statement_matches_def diagnostic_kinds_def xray_recovery_kind_def update_one_def dispose_guard_def transact_def Let_def s_adopt_defs s_defs)


section \<open>Superseded landing failures\<close>

lemma superseded_cases:
  assumes "dispose_superseded now ((x, st) # cs) c = Inr c'"
  shows "(\<not> superseded_by x st \<and> dispose_superseded now cs c = Inr c') \<or>
    (superseded_by x st \<and> (\<exists>d. update_one (CenterError ''center: superseded landing execution changed during recovery'')
        (superseded_guard (ex_id x)) (dispose_set now ''superseded'' (superseded_note st) ''system'') c = Inr d \<and>
      dispose_superseded now cs d = Inr c'))"
  using assms by (auto simp: and_then_Inr split: if_splits)

lemma superseded_rows:
  assumes "dispose_superseded now cs c = Inr c'" "r' \<in> set (executions c')"
  shows "\<exists>r \<in> set (executions c). r' = r \<or>
    (\<exists>(x, st) \<in> set cs. superseded_by x st \<and> superseded_guard (ex_id x) r \<and>
       r' = dispose_set now ''superseded'' (superseded_note st) ''system'' r)"
  using assms
proof (induction cs arbitrary: c)
  case Nil
  then show ?case by auto
next
  case (Cons p cs)
  obtain x st where p: "p = (x, st)" by (cases p)
  let ?set = "dispose_set now ''superseded'' (superseded_note st) ''system''"
  from superseded_cases [OF Cons.prems(1) [unfolded p]] show ?case
  proof (elim disjE conjE exE)
    assume "dispose_superseded now cs c = Inr c'"
    then show ?thesis using Cons.IH Cons.prems(2) by fastforce
  next
    fix d assume sup: "superseded_by x st"
      and upd: "update_one (CenterError ''center: superseded landing execution changed during recovery'')
        (superseded_guard (ex_id x)) ?set c = Inr d" and rest: "dispose_superseded now cs d = Inr c'"
    obtain s where s: "s \<in> set (executions d)" and step: "r' = s \<or>
      (\<exists>(x, st) \<in> set cs. superseded_by x st \<and> superseded_guard (ex_id x) s \<and>
         r' = dispose_set now ''superseded'' (superseded_note st) ''system'' s)"
      using Cons.IH [OF rest Cons.prems(2)] by blast
    have "s \<in> set (executions c) \<or> (\<exists>r \<in> set (executions c). superseded_guard (ex_id x) r \<and> s = ?set r)"
      using s upd update_other_rows by (auto simp: update_one_Inr)
    then show ?thesis
    proof
      assume "s \<in> set (executions c)"
      then show ?thesis using step p by fastforce
    next
      assume "\<exists>r \<in> set (executions c). superseded_guard (ex_id x) r \<and> s = ?set r"
      then obtain r where r: "r \<in> set (executions c)" "superseded_guard (ex_id x) r" "s = ?set r" by blast
      then have "r' = s" using step by (auto simp: superseded_guard_def dispose_set_def)
      then show ?thesis using r sup p by fastforce
    qed
  qed
qed

lemma superseded_complete:
  assumes "dispose_superseded now cs c = Inr c'" "(x, st) \<in> set cs" "superseded_by x st"
  shows "\<exists>r' \<in> set (executions c'). ex_id r' = ex_id x \<and> ex_disposition r' \<noteq> []"
  using assms
proof (induction cs arbitrary: c)
  case Nil
  then show ?case by simp
next
  case (Cons p cs)
  obtain y su where p: "p = (y, su)" by (cases p)
  from superseded_cases [OF Cons.prems(1) [unfolded p]] show ?case
  proof (elim disjE conjE exE)
    assume "\<not> superseded_by y su" "dispose_superseded now cs c = Inr c'"
    then show ?thesis using Cons.IH Cons.prems(2,3) p by auto
  next
    fix d assume upd: "update_one (CenterError ''center: superseded landing execution changed during recovery'')
        (superseded_guard (ex_id y)) (dispose_set now ''superseded'' (superseded_note su) ''system'') c = Inr d"
      and rest: "dispose_superseded now cs d = Inr c'"
    show ?thesis
    proof (cases "(x, st) \<in> set cs")
      case True
      then show ?thesis using Cons.IH [OF rest] Cons.prems(3) by blast
    next
      case False
      then have "x = y" using Cons.prems(2) p by auto
      then obtain r where "r \<in> set (executions d)" "ex_id r = ex_id x" "ex_disposition r \<noteq> []"
        using update_one_row [OF upd] by (auto simp: superseded_guard_def dispose_set_def)
      moreover have "safe_step d c'"
        using rest by (rule dispose_superseded_safe)
      ultimately show ?thesis using safe_step_row [of d c' r] by (auto simp: progress_def same_identity_def)
    qed
  qed
qed

lemma superseded_candidate:
  assumes "(x, st) \<in> set (superseded_candidates a c)"
  shows "x \<in> set (executions c) \<and> st \<in> set (tasks c) \<and> tr_agent st = ex_agent_id x"
  using assms by (auto simp: superseded_candidates_def)

lemma superseded_by_older:
  assumes "superseded_by x st"
  shows "\<exists>rev. (ex_task_id x = landingProxyTaskID (ex_agent_id x) rev \<or> ex_task_id x = landingServerTaskID (ex_agent_id x) rev) \<and>
    (rev < tr_revision st \<or> rev = tr_revision st \<and> ex_attempt x < tr_attempt st)"
  using assms by (auto simp: superseded_by_def Let_def split: option.splits if_splits)


definition s_landing_row :: execution where
  "s_landing_row = s_row\<lparr>ex_kind := ''landing.proxy.apply'', ex_task_id := landingProxyTaskID s_agent 3,
     ex_state := Failed, ex_phase := ''reported''\<rparr>"

definition s_landing_state :: task_row where
  "s_landing_state = s_adopt_task\<lparr>tr_table := LandingProxyStates, tr_id := [], tr_revision := 4\<rparr>"

definition s_landing_center :: center where
  "s_landing_center = (s_center [s_landing_row])\<lparr>tasks := [s_landing_state]\<rparr>"

lemma s_landing_superseded: "superseded_by s_landing_row s_landing_state"
proof -
  have "landingProxyTaskRevision (landingProxyTaskID s_agent 3) = Some 3"
    by (simp add: s_agent_def) code_simp
  then show ?thesis
    by (simp add: superseded_by_def s_landing_row_def s_landing_state_def s_row_def)
qed

lemma s_landing_candidates: "superseded_candidates s_agent s_landing_center = [(s_landing_row, s_landing_state)]"
  by (simp add: superseded_candidates_def s_landing_center_def s_center_def)
    (simp add: s_landing_row_def s_landing_state_def s_row_def s_adopt_task_def)


end
