(* ===== verification/Execution_Recovery.thy ===== *)
theory Execution_Recovery
  imports Execution_Guarantees
begin

text \<open>
  Results and recovery: an accepted result becomes the outcome it reports, an offer can be started
  by its process, expired tasks are ended once and for all, a retired machine identity keeps no
  work, and task identifiers and their revisions determine each other.
\<close>

section \<open>Starting and reporting\<close>

text \<open>
  C22. The process an execution was offered to can start it: with the digest it received, while at
  least a second of the offer is left and the tunnel preparation passes, \<^verbatim>\<open>StartExecution\<close> succeeds and
  the execution is running with a fresh lease.
\<close>

theorem offer_can_be_started:
  assumes "keys_unique (executions c)" "r \<in> set (executions c)" "owned c a s (ex_id r) r"
    and "ex_state r = Offered" "ex_expires_at r = stamp_of t" "e_now e + second \<le> t" "\<forall>d. tunnel d = None"
  shows "snd (StartExecution e tunnel a s (ex_id r) (ex_digest r) c) = None \<and>
    start_set e r \<in> set (executions (fst (StartExecution e tunnel a s (ex_id r) (ex_digest r) c)))"
proof -
  let ?P = "start_guard e c a s (ex_id r) (ex_digest r)"
  have P: "?P r" using assms(3-6) stamp_of_less_later [of "e_now e" t] by (simp add: start_guard_def)
  have key: "?P x \<Longrightarrow> ex_id x = ex_id r" for x by (simp add: start_guard_def owned_def)
  have "StartExecution e tunnel a s (ex_id r) (ex_digest r) c = (update_executions ?P (start_set e) c, None)"
    using assms(7) by (simp add: StartExecution_def update_one_hit [where P = ?P, OF assms(1,2) P key])
  then show ?thesis using mem_update_executions [of r c ?P "start_set e", OF assms(2) P] by simp
qed

theorem offer_can_be_started_witness:
  "snd (StartExecution (s_env 0) (\<lambda>_. None) s_agent s_session ''exec-1'' ''hip-quality-1'' (s_center [s_row])) = None"
proof -
  have "owned (s_center [s_row]) s_agent s_session (ex_id s_row) s_row" by (simp add: owned_def) (simp add: s_row_def)
  then show ?thesis
    using offer_can_be_started [of "s_center [s_row]" s_row s_agent s_session "300 * second" "s_env 0" "\<lambda>_. None"]
    by (simp add: s_row_def s_env_def second_def)
qed

text \<open>
  C21. A stored result becomes the outcome it reports: when sealing and JSON are faithful, the
  finalization that follows a successful \<^verbatim>\<open>StoreExecutionResult\<close> of the Agent's process reads back
  exactly the reported result and ends the execution as unknown, succeeded or failed accordingly.
\<close>

theorem stored_result_becomes_outcome:
  assumes "keys_unique (executions c)"
    and "StoreExecutionResult e a s i res ok unk m g False c = (c1, None)"
    and sealing: "\<And>aad x y. e_seal e aad x = Some y \<Longrightarrow> e_open e aad y = Some x"
    and json: "ev = \<lparr>ee_result = res, ee_succeeded = ok, ee_unknown = unk, ee_runtime_generation = g\<rparr>"
      "e_unmarshal_evidence e (e_marshal_evidence e ev) = Some ev"
    and task: "\<And>r. r \<in> set (executions c) \<Longrightarrow> ex_id r = i \<Longrightarrow> open_task e r \<noteq> None"
  shows "\<exists>c2 r. finalizeExecution e a s i c1 = Inr c2 \<and> r \<in> set (executions c2) \<and> ex_id r = i \<and>
    ex_phase r = ''reported'' \<and> ex_state r = (if unk then Unknown else if ok then Succeeded else Failed) \<and>
    open_evidence e r = Some ev"
proof -
  let ?ev = "\<lparr>ee_result = res, ee_succeeded = ok, ee_unknown = unk, ee_runtime_generation = g\<rparr>"
  let ?P = "result_guard e c a s i ok False"
  obtain y where y: "e_seal e (result_aad i) (e_marshal_evidence e ?ev) = Some y"
    and upd: "update_one ExecutionAuthorization ?P (result_set e y (task_message e m)) c = Inr c1"
    using assms(2) by (auto simp: StoreExecutionResult_def Let_def transact_def split: option.splits sum.splits if_splits)
  obtain r where r: "r \<in> set (executions c)" "?P r" "result_set e y (task_message e m) r \<in> set (executions c1)"
    using update_one_row [OF upd] by blast
  let ?r = "result_set e y (task_message e m) r"
  have keys: "keys_unique (executions c1)"
    using assms(1) upd keys_unique_progress [OF result.writer_rows] by (simp add: update_one_Inr update_executions_def)
  have ses: "session_of c1 = session_of c" using upd by (auto simp: update_one_Inr)
  have row: "received_row a s i ?r" "finalize_guard e c1 a s i ?r" "ex_id ?r = i"
    using r(2) ses by (auto simp: result_defs finalize_guard_def received_row_def)
  have unique: "x = ?r" if "received_row a s i x" "x \<in> set (executions c1)" for x
    using keys_unique_eq [OF keys that(2) r(3)] that(1) row(3) by (simp add: received_row_def)
  have find: "find (received_row a s i) (executions c1) = Some ?r"
  proof (cases "find (received_row a s i) (executions c1)")
    case None
    then show ?thesis using r(3) row(1) by (auto simp: find_None_iff)
  next
    case (Some x)
    then have "x \<in> set (executions c1)" "received_row a s i x" by (auto simp: find_Some_iff)
    then show ?thesis using Some unique by simp
  qed
  have ev: "open_evidence e ?r = Some ?ev"
    using sealing [OF y] json(2) [unfolded json(1)] row(3) by (simp add: open_evidence_def) (simp add: result_set_def)
  obtain t where t: "open_task e ?r = Some t"
    using task [OF r(1)] row(3) by (auto simp: open_task_def result_set_def)
  let ?ro = "evidence_state ?ev = Failed \<and> executionFailureCanReleaseFence e t"
  let ?Q = "finalize_guard e c1 a s i" and ?f = "finalize_set e (evidence_state ?ev) ?ro"
  have key: "?Q x \<Longrightarrow> ex_id x = i" for x by (simp add: finalize_guard_def received_row_def)
  have fin: "finalizeExecution e a s i c1 = Inr (update_executions ?Q ?f c1)"
    by (simp add: finalizeExecution_def Let_def find ev t update_one_hit [where P = ?Q, OF keys r(3) row(2) key])
  have "?f ?r \<in> set (executions (update_executions ?Q ?f c1))" using r(3) row(2) by (rule mem_update_executions)
  moreover have "ex_id (?f ?r) = i" "ex_phase (?f ?r) = ''reported''" "open_evidence e (?f ?r) = Some ?ev"
    "ex_state (?f ?r) = (if unk then Unknown else if ok then Succeeded else Failed)"
    using row(3) ev by (simp_all add: finalize_set_def open_evidence_def evidence_state_def)
  ultimately show ?thesis using fin json(1) by blast
qed

definition s_store :: "center \<Rightarrow> outcome" where
  "s_store = StoreExecutionResult (s_env 0) s_agent s_session ''exec-1'' ''{}'' True False [] None False"

lemma s_store_ok: "snd (s_store (s_center [s_running (2 * second)])) = None"
proof -
  have "now_stamp (s_env 0) < stamp_of (2 * second)" by (rule stamp_of_less_later) (simp add: s_env_def second_def)
  then have "result_guard (s_env 0) (s_center [s_running (2 * second)]) s_agent s_session ''exec-1'' True False (s_running (2 * second))"
    by (simp add: result_guard_def)
  moreover have "e_json_valid (s_env 0) ''{}''" "\<exists>y. e_seal (s_env 0) aad x = Some y" for aad x
    by (simp_all add: s_env_def)
  ultimately show ?thesis
    by (auto simp: s_store_def StoreExecutionResult_def Let_def transact_def update_one_def rows_affected_def split: option.split)
qed

theorem stored_result_becomes_outcome_witness:
  "\<exists>c2 r. finalizeExecution (s_env 0) s_agent s_session ''exec-1'' (fst (s_store (s_center [s_running (2 * second)]))) = Inr c2 \<and>
     r \<in> set (executions c2) \<and> ex_state r = Succeeded"
proof -
  let ?c = "s_center [s_running (2 * second)]" and ?ev = "\<lparr>ee_result = ''{}'', ee_succeeded = True, ee_unknown = False, ee_runtime_generation = None\<rparr>"
  have store: "StoreExecutionResult (s_env 0) s_agent s_session ''exec-1'' ''{}'' True False [] None False ?c = (fst (s_store ?c), None)"
    using s_store_ok by (simp add: s_store_def prod_eq_iff)
  have sealing: "e_seal (s_env 0) aad x = Some y \<Longrightarrow> e_open (s_env 0) aad y = Some x" for aad x y
    by (auto simp: s_env_def has_prefix_iff)
  have json: "e_unmarshal_evidence (s_env 0) (e_marshal_evidence (s_env 0) ?ev) = Some ?ev"
    by (simp add: s_env_def s_marshal_evidence_def s_unmarshal_evidence_def)
  have task: "r \<in> set (executions ?c) \<Longrightarrow> ex_id r = ''exec-1'' \<Longrightarrow> open_task (s_env 0) r \<noteq> None" for r
    by (simp add: open_task_def s_running_def s_env_def s_row_def s_task_def has_prefix_iff)
  show ?thesis
    using stored_result_becomes_outcome [OF _ store sealing refl json task] by auto
qed

section \<open>Expired leases\<close>

lemma expiry_states:
  "q \<in> set expiry_queries \<Longrightarrow> eq_states q = fst (expiry_write (eq_table q))"
  by (auto simp: expiry_queries_def expiry_by_id_def expiry_by_revision_def expiry_write_def Let_def)

lemma expire_row_table [simp]: "tr_table (expire_row now a r) = tr_table r" "tr_agent (expire_row now a r) = tr_agent r"
  by (simp_all add: expire_row_def split: prod.split)

lemma expire_row_ended: "\<not> lease_expired now a t (fst (expiry_write t)) (expire_row now a r)"
  by (cases "expiry_write (tr_table r)") (auto simp: expire_row_def lease_expired_def)

lemma expired_tasks_ended:
  assumes "tasks c' = map (expire_row now a) rows"
  shows "expired_tasks now a c' = []"
proof -
  have "expired_of now a c' q = []" if "q \<in> set expiry_queries" for q
    using expire_row_ended [of now a "eq_table q"] expiry_states [OF that] assms
    by (simp add: expired_of_def filter_empty_conv)
  then show ?thesis by (simp add: expired_tasks_def)
qed

lemma expire_executions_tasks: "expire_executions e a ts c = Inr c' \<Longrightarrow> tasks c' = tasks c"
proof (induction ts arbitrary: c)
  case Nil
  then show ?case by simp
next
  case (Cons t ts)
  obtain i k n where t: "t = (i, k, n)" by (cases t) auto
  from Cons.prems t obtain d where "recordTaskEvent e i a k n ''lease_expired''
      (if k = ''agent.update'' then update_interrupted else interrupted) (update_executions (expire_guard a i) (expire_set e) c) = Inr d"
    "expire_executions e a ts d = Inr c'" by (auto simp: and_then_Inr)
  then show ?case using Cons.IH by (auto simp: recordTaskEvent_def split: option.splits)
qed

lemma expire_update_in_process:
  assumes "r \<in> set (executions (update_executions (expire_guard a i) (expire_set e) c))" "in_process r"
  shows "r \<in> set (executions c) \<and> \<not> (ex_agent_id r = a \<and> ex_task_id r = i)"
  using assms by (auto simp: update_executions_def set_sql_update expire_guard_def expire_set_def in_process_def)

lemma expire_executions_in_process:
  assumes "expire_executions e a ts c = Inr c'" "r \<in> set (executions c')" "in_process r"
  shows "r \<in> set (executions c) \<and> (\<forall>(i, k, n) \<in> set ts. \<not> (ex_agent_id r = a \<and> ex_task_id r = i))"
  using assms
proof (induction ts arbitrary: c)
  case Nil
  then show ?case by simp
next
  case (Cons t ts)
  obtain i k n where t: "t = (i, k, n)" by (cases t) auto
  let ?d = "update_executions (expire_guard a i) (expire_set e) c"
  from Cons.prems(1) t obtain d where "recordTaskEvent e i a k n ''lease_expired''
      (if k = ''agent.update'' then update_interrupted else interrupted) ?d = Inr d"
    and rest: "expire_executions e a ts d = Inr c'" by (auto simp: and_then_Inr)
  then have "executions d = executions ?d" by (auto simp: recordTaskEvent_def split: option.splits)
  then show ?case
    using Cons.IH [OF rest Cons.prems(2,3)] expire_update_in_process [of r a i e c] Cons.prems(3) t by auto
qed

text \<open>
  C24. Recovering expired leases is complete: after a successful \<^verbatim>\<open>recoverExpiredTasks\<close> at some instant no
  task of the Agent has an expired lease, no execution of a task that had one is still with a
  process, and running it again at that instant changes nothing.
\<close>

theorem expired_leases_recovered:
  assumes "recoverExpiredTasks e a c = (c', None)"
  shows "expired_tasks (now_stamp e) a c' = [] \<and> recoverExpiredTasks e a c' = (c', None) \<and>
    (\<forall>(i, k, n) \<in> set (expired_tasks (now_stamp e) a c). \<forall>r \<in> set (executions c').
       ex_agent_id r = a \<and> ex_task_id r = i \<longrightarrow> \<not> in_process r)"
proof (cases "expired_tasks (now_stamp e) a c = []")
  case True
  then show ?thesis using assms by (simp add: recoverExpiredTasks_def Let_def)
next
  case False
  let ?now = "now_stamp e"
  let ?c1 = "expire_resources ?now a c"
  let ?d = "expire_applications ?now a (expire_meridian ?now a (expire_sites ?now a
     (?c1\<lparr>tasks := map (expire_row ?now a) (tasks ?c1)\<rparr>)))"
  have run: "expire_executions e a (expired_tasks ?now a c) ?d = Inr c'"
    using assms False by (auto simp: recoverExpiredTasks_def Let_def transact_def split: sum.splits)
  have "tasks ?d = map (expire_row ?now a) (tasks ?c1)"
    by (simp add: expire_applications_def expire_meridian_def expire_sites_def update_mirrors_def update_applications_def Let_def)
  then have none: "expired_tasks ?now a c' = []"
    using expire_executions_tasks [OF run] by (intro expired_tasks_ended) simp
  then have "recoverExpiredTasks e a c' = (c', None)" by (simp add: recoverExpiredTasks_def Let_def)
  moreover have "\<forall>(i, k, n) \<in> set (expired_tasks ?now a c). \<forall>r \<in> set (executions c').
       ex_agent_id r = a \<and> ex_task_id r = i \<longrightarrow> \<not> in_process r"
    using expire_executions_in_process [OF run] by fastforce
  ultimately show ?thesis using none by blast
qed

definition s_quality_task :: "stamp \<Rightarrow> task_row" where
  "s_quality_task expires =
     \<lparr>tr_table = IPQualityChecks, tr_rowid = 1, tr_id = ''ip-quality-1'', tr_kind = [], tr_agent = s_agent,
      tr_application = [], tr_deployment = [], tr_action = [], tr_endpoint = [], tr_gateway_node = [],
      tr_revision = 0, tr_applied_revision = 0, tr_attempt = 1, tr_state = ''running'', tr_lease_expires_at = expires,
      tr_error = [], tr_target_version = [], tr_token_hash = [], tr_backup = [], tr_network = [], tr_digest = [],
      tr_prepared_digest = [], tr_reconciliation_required = False, tr_reconciliation_requested = False,
      tr_updated_at = stamp_of 0\<rparr>"

definition s_leased :: center where
  "s_leased = (s_center [s_running 0])\<lparr>tasks := [s_quality_task (stamp_of 0)]\<rparr>"

lemma s_leased_expired: "expired_tasks (stamp_of second) s_agent s_leased = [(''ip-quality-1'', ''node.ip-quality'', 1)]"
proof -
  have "stamp_of 0 \<le> stamp_of second" by (simp add: stamp_of_def second_def)
  then show ?thesis
    by (simp add: expired_tasks_def expiry_queries_def expired_of_def expiry_by_id_def expiry_by_revision_def lease_expired_def
        diagnostic_kinds_def Let_def s_leased_def s_quality_task_def)
qed

theorem expired_leases_recovered_witness:
  "\<exists>c'. recoverExpiredTasks (s_env second) s_agent s_leased = (c', None) \<and>
     (\<forall>r \<in> set (executions c'). ex_agent_id r = s_agent \<and> ex_task_id r = ''ip-quality-1'' \<longrightarrow> \<not> in_process r)"
proof -
  have now: "now_stamp (s_env second) = stamp_of second" by (simp add: s_env_def)
  obtain c' where c': "recoverExpiredTasks (s_env second) s_agent s_leased = (c', None)"
    by (auto simp: recoverExpiredTasks_def Let_def now s_leased_expired transact_def and_then_def recordTaskEvent_def)
      (simp add: s_env_def)
  show ?thesis
    using expired_leases_recovered [OF c'] c' by (simp add: now s_leased_expired)
qed

section \<open>Task identifiers\<close>

text \<open>
  C30. Task ids round-trip: for a node id that is not empty and a positive 64-bit revision, the
  revision each parser reads from the id its printer builds is the one printed, so the revision a
  result is projected on is the revision that was sent.
\<close>

theorem task_ids_round_trip:
  assumes "0 < n" "n < 2 ^ 63" "node \<noteq> []"
  shows "landingProxyTaskRevision (landingProxyTaskID node n) = Some n \<and>
    landingServerTaskRevision (landingServerTaskID node n) = Some n \<and>
    gatewayTaskRevision (gatewayRouteTaskID node n) = Some n \<and>
    nodeListenerTaskRevision (nodeListenerTaskID node n) = Some n \<and>
    tunnelTaskRevision (tunnelTaskID node n) = Some n \<and>
    gatewayComponentTaskGeneration (gatewayComponentTaskID node n) = Some n"
proof -
  have len: "1 \<le> length node" using assms(3) by (cases node) auto
  have "task_revision prefix [CHR ''-'', m] low (prefix @ node @ [CHR ''-'', m] @ int_str n) = Some n"
    if "low \<le> length prefix + 1" "m \<noteq> CHR ''-''" for prefix m low
    using that len by (intro task_revision_print [OF assms(1,2)]) auto
  from this [of "length ''landing-proxy-'' + 1" "''landing-proxy-''" "CHR ''r''"]
    this [of "length ''landing-server-'' + 1" "''landing-server-''" "CHR ''r''"]
    this [of "length ''gateway-route-''" "''gateway-route-''" "CHR ''r''"]
    this [of "length ''node-listener-''" "''node-listener-''" "CHR ''r''"]
    this [of "length ''tunnel-'' + 1" "''tunnel-''" "CHR ''r''"]
    this [of "length ''gateway-component-''" "''gateway-component-''" "CHR ''g''"]
  show ?thesis
    by (simp add: landingProxyTaskRevision_def landingProxyTaskID_def landingServerTaskRevision_def landingServerTaskID_def
        gatewayTaskRevision_def gatewayRouteTaskID_def nodeListenerTaskRevision_def nodeListenerTaskID_def
        tunnelTaskRevision_def tunnelTaskID_def gatewayComponentTaskGeneration_def gatewayComponentTaskID_def)
qed

theorem task_ids_round_trip_witness:
  "landingProxyTaskRevision (landingProxyTaskID ''node-r7'' 12) = Some 12"
  using task_ids_round_trip [of 12 "''node-r7''"] by simp

section \<open>Retired identities\<close>

text \<open>
  C28. Work of a retired machine never resumes: after the identity of an Agent is retired, whatever
  calls follow, every unresolved execution it had keeps its row, and that row is never again offered,
  running or with a helper; the old process is not current.
\<close>

theorem retired_work_never_resumes:
  assumes "run (retireAgentExecutionIdentity now a c) xs c'"
    and "r \<in> set (executions c)" "ex_agent_id r = a" "unresolved r" "ex_identity_retired_at r = NoStamp"
  shows "session_of (retireAgentExecutionIdentity now a c) a = None \<and>
    (\<exists>r' \<in> set (executions c'). ex_id r' = ex_id r \<and> \<not> live r')"
proof -
  have guard: "retire_guard a r" using assms(3-5) by (simp add: retire_guard_def unresolved_def)
  have mem: "retire_set now r \<in> set (executions (retireAgentExecutionIdentity now a c))"
    using guard assms(2) mem_update_executions [of r "c\<lparr>sessions := filter (\<lambda>(b, _). b \<noteq> a) (sessions c)\<rparr>"]
    by (simp add: retireAgentExecutionIdentity_def)
  obtain r' where r': "r' \<in> set (executions c')" "progress (retire_set now r) r'"
    using safe_step_row [OF run_safe [OF assms(1)] mem] by blast
  have "ex_state (retire_set now r) \<in> {Succeeded, Failed, Unknown}"
    by (cases "ex_state r") (auto simp: retire_set_def live_state_def)
  then have "ex_state r' \<in> {Succeeded, Failed, Unknown}"
    using r'(2) later_state_final by (auto simp: progress_def)
  moreover have "ex_id r' = ex_id r" using progress_id [OF r'(2)] by (simp add: retire_set_def)
  ultimately show ?thesis using r'(1) by (auto simp: session_of_retire live_def)
qed

theorem retired_work_never_resumes_witness:
  "\<exists>r' \<in> set (executions (retireAgentExecutionIdentity (stamp_of 0) s_agent (s_center [s_row]))). ex_id r' = ''exec-1'' \<and> \<not> live r'"
  using retired_work_never_resumes [OF run_nil, of s_row "s_center [s_row]" s_agent "stamp_of 0"]
  by (simp add: s_row_def unresolved_def)

section \<open>Decommissioning\<close>

lemma colon_not_in_nat_str: "CHR '':'' \<notin> set (nat_str n)"
  using nat_str_no_sign [of "CHR '':''" n] by auto

lemma numbers_before_colon:
  assumes "nat_str m @ CHR '':'' # xs = nat_str n @ CHR '':'' # ys"
  shows "m = n"
proof -
  have "takeWhile (\<lambda>c. c \<noteq> CHR '':'') (nat_str k @ CHR '':'' # zs) = nat_str k" for k zs
    using colon_not_in_nat_str [of k] by (subst takeWhile_append2) auto
  from this [of m xs] this [of n ys] assms show ?thesis by simp
qed

lemma lower_nat_str [simp]: "map lower_char (nat_str n) = nat_str n"
proof (rule map_idI)
  fix c assume "c \<in> set (nat_str n)"
  then have "is_digit c" by (rule nat_str_no_sign)
  then show "lower_char c = c" by (auto simp: lower_char_def is_digit_alt less_eq_char_def)
qed

lemma cleanup_phase_lower:
  "0 \<le> n \<Longrightarrow> to_lower (cleanup_phase n p) = ''cleanup:'' @ nat_str (nat n) @ CHR '':'' # map lower_char p"
  by (simp add: to_lower_def cleanup_phase_def int_str_def) (simp add: lower_char_def less_eq_char_def)

lemma cleanup_phase_next:
  assumes "0 < n"
  shows "\<not> like_prefix (cleanup_phase n p) (cleanup_phase (n - 1) [])"
proof
  assume "like_prefix (cleanup_phase n p) (cleanup_phase (n - 1) [])"
  then obtain ys where "nat_str (nat n) @ CHR '':'' # map lower_char p = nat_str (nat (n - 1)) @ CHR '':'' # ys"
    using assms cleanup_phase_lower [of n p]
    by (auto simp: like_prefix_def has_prefix_iff) (auto simp: cleanup_phase_def int_str_def)
  then have "nat n = nat (n - 1)" by (rule numbers_before_colon)
  then show False using assms by simp
qed

lemma keys_unique_attempt:
  "keys_unique rs \<Longrightarrow> r \<in> set rs \<Longrightarrow> x \<in> set rs \<Longrightarrow> ex_task_id r = ex_task_id x \<Longrightarrow> ex_attempt r = ex_attempt x \<Longrightarrow> r = x"
  unfolding keys_unique_def distinct_map inj_on_def by blast

lemma decommission_step_granted:
  assumes "AuthorizeDecommissionStep e t tok m n p c = (c', None)"
  obtains a r where "0 < n" "p \<in> set decommission_phases" "r \<in> set (executions c)" "decommission_guard e a t m n r"
    "c' = update_executions (decommission_guard e a t m n) (phase_set e (cleanup_phase n p)) c"
    "phase_set e (cleanup_phase n p) r \<in> set (executions c')"
proof -
  obtain d :: task_row where gate: "0 < n" "p \<in> set decommission_phases"
    and upd: "update_one ExecutionAuthorization (decommission_guard e (tr_agent d) t m n) (phase_set e (cleanup_phase n p)) c = Inr c'"
    using assms by (auto simp: AuthorizeDecommissionStep_def transact_def split: if_splits option.splits sum.splits)
  then show thesis using that [OF gate] update_one_row [OF upd] upd by (auto simp: update_one_Inr)
qed

lemma decommission_refused:
  assumes "\<And>a x. x \<in> set (executions c) \<Longrightarrow> \<not> decommission_guard e a t m n x"
  shows "AuthorizeDecommissionStep e t tok m n p c = (c, Some ExecutionAuthorization)"
proof -
  have "update_one ExecutionAuthorization (decommission_guard e a t m n) f c = Inl ExecutionAuthorization" for a f
    using assms by (simp add: update_one_def rows_affected_def filter_empty_conv)
  then show ?thesis by (simp add: AuthorizeDecommissionStep_def transact_def split: option.splits)
qed

lemma cleanup_done_phase: "cleanup_done (cleanup_phase n ''done'')"
proof -
  have "to_lower (cleanup_phase n ''done'') = ''cleanup:'' @ map lower_char (int_str n) @ '':done''"
    by (simp add: to_lower_def cleanup_phase_def) (simp add: lower_char_def less_eq_char_def)
  then show ?thesis
    by (simp add: cleanup_done_def like_prefix_def has_suffix_def has_prefix_iff) (simp add: cleanup_phase_def)
qed


definition s_cleaning_row :: execution where
  "s_cleaning_row = s_row\<lparr>ex_kind := ''agent.decommission'', ex_task_id := agentDecommissionTaskID s_agent,
     ex_state := HelperRunning, ex_phase := ''cleanup''\<rparr>"

definition s_cleaning :: center where
  "s_cleaning = (s_center [s_cleaning_row])\<lparr>tasks := [(s_quality_task NoStamp)\<lparr>tr_table := AgentDecommissions, tr_id := [],
     tr_state := ''cleaning'', tr_token_hash := ''tsecret''\<rparr>]\<rparr>"


end
