(* ===== verification/Execution_Lock.thy ===== *)
theory Execution_Lock
  imports Execution_Samples
begin

text \<open>
  The abstract contract of the Center towards one Agent: a lock with tickets. Ordinary work of an
  Agent holds the lock under a ticket (the execution id); a ticket is issued at most once, the lock
  is taken only while it is free, and only the holder is released. Every step of the Center is
  a sequence of steps of this lock, so every run of the Center refines a run of the lock.
\<close>

section \<open>The lock\<close>

record lock =
  holder :: "string \<Rightarrow> string option"  \<comment> \<open>Agent to ticket\<close>
  issued :: "string set"

inductive lock_step :: "lock \<Rightarrow> lock \<Rightarrow> bool" where
  issue: "i \<notin> issued l \<Longrightarrow> lock_step l (l\<lparr>issued := insert i (issued l)\<rparr>)"
| acquire: "i \<notin> issued l \<Longrightarrow> holder l a = None \<Longrightarrow>
    lock_step l (l\<lparr>holder := (holder l)(a := Some i), issued := insert i (issued l)\<rparr>)"
| release: "holder l a = Some i \<Longrightarrow> lock_step l (l\<lparr>holder := (holder l)(a := None)\<rparr>)"

abbreviation lock_run :: "lock \<Rightarrow> lock \<Rightarrow> bool" where
  "lock_run \<equiv> lock_step\<^sup>*\<^sup>*"

text \<open>The lock of a Center: the live ordinary execution of each Agent, and all ids ever used.\<close>

definition holds :: "execution \<Rightarrow> bool" where
  "holds r = (live r \<and> \<not> xray_recovery_kind (ex_kind r))"

definition lock_of :: "center \<Rightarrow> lock" where
  "lock_of c =
     \<lparr>holder = (\<lambda>a. map_option ex_id (find (\<lambda>r. holds r \<and> ex_agent_id r = a) (executions c))),
      issued = ex_id ` set (executions c)\<rparr>"

section \<open>Reaching one lock from another\<close>

lemma lock_issue_all:
  assumes "finite I" "I \<inter> issued l = {}"
  shows "lock_run l (l\<lparr>issued := I \<union> issued l\<rparr>)"
  using assms
proof (induction I rule: finite_induct)
  case empty
  then show ?case by simp
next
  case (insert i I)
  then have "lock_run l (l\<lparr>issued := I \<union> issued l\<rparr>)" by auto
  moreover have "lock_step (l\<lparr>issued := I \<union> issued l\<rparr>) (l\<lparr>issued := insert i I \<union> issued l\<rparr>)"
    using lock_step.issue [of i "l\<lparr>issued := I \<union> issued l\<rparr>"] insert by auto
  ultimately show ?case by (rule rtranclp.rtrancl_into_rtrancl)
qed

text \<open>One Agent at a time: its old holder is released, then its new one acquires.\<close>

definition hand_over :: "string \<Rightarrow> string option \<Rightarrow> lock \<Rightarrow> lock" where
  "hand_over a h l =
     l\<lparr>holder := (holder l)(a := h),
       issued := (if h = None \<or> h = holder l a then issued l else insert (the h) (issued l))\<rparr>"

lemma hand_over_run:
  assumes "\<forall>i. h = Some i \<longrightarrow> holder l a = Some i \<or> i \<notin> issued l"
  shows "lock_run l (hand_over a h l)"
proof (cases "h = holder l a")
  case True
  then show ?thesis by (simp add: hand_over_def)
next
  case False
  let ?free = "l\<lparr>holder := (holder l)(a := None)\<rparr>"
  have free: "lock_run l ?free"
  proof (cases "holder l a")
    case None
    then have "?free = l" by (simp add: fun_upd_idem)
    then show ?thesis by simp
  next
    case (Some j)
    then have "lock_step l ?free" by (rule lock_step.release)
    then show ?thesis by (rule r_into_rtranclp)
  qed
  show ?thesis
  proof (cases h)
    case None
    then show ?thesis using free by (simp add: hand_over_def)
  next
    case (Some i)
    then have "lock_step ?free (hand_over a h l)"
      using lock_step.acquire [of i ?free a] assms False by (simp add: hand_over_def)
    then show ?thesis using free by (rule rtranclp.rtrancl_into_rtrancl [rotated])
  qed
qed

lemma lock_change_run:
  assumes "finite D" "\<forall>a. a \<notin> D \<longrightarrow> holder l' a = holder l a" "issued l \<subseteq> issued l'" "finite (issued l' - issued l)"
    and "\<forall>a i. holder l' a = Some i \<longrightarrow> i \<in> issued l' \<and> (holder l a = Some i \<or> i \<notin> issued l)"
    and "\<forall>a b i. holder l' a = Some i \<and> holder l' b = Some i \<longrightarrow> a = b"
  shows "lock_run l l'"
  using assms(1-5)
proof (induction D arbitrary: l rule: finite_induct)
  case empty
  then have "holder l' = holder l" "issued l' = (issued l' - issued l) \<union> issued l" by (auto intro: ext)
  then have "l' = l\<lparr>issued := (issued l' - issued l) \<union> issued l\<rparr>" by (cases l, cases l') simp
  then show ?case using lock_issue_all [of "issued l' - issued l" l] empty by auto
next
  case (insert a D)
  let ?m = "hand_over a (holder l' a) l"
  have "lock_run l ?m" using insert.prems(4) by (intro hand_over_run) auto
  moreover have "lock_run ?m l'"
  proof (rule insert.IH)
    show "\<forall>b. b \<notin> D \<longrightarrow> holder l' b = holder ?m b" using insert.prems(1) by (auto simp: hand_over_def)
    show "issued ?m \<subseteq> issued l'" using insert.prems(2,4) by (auto simp: hand_over_def)
    show "finite (issued l' - issued ?m)" using insert.prems(3) by (rule rev_finite_subset) (auto simp: hand_over_def)
    show "\<forall>b i. holder l' b = Some i \<longrightarrow> i \<in> issued l' \<and> (holder ?m b = Some i \<or> i \<notin> issued ?m)"
      using insert.prems(4) assms(6) by (auto simp: hand_over_def)
  qed
  ultimately show ?case by (rule rtranclp_trans)
qed

section \<open>The Center refines the lock\<close>

lemma holder_iff:
  assumes "exclusive (executions c)"
  shows "holder (lock_of c) a = Some i \<longleftrightarrow> (\<exists>r \<in> set (executions c). holds r \<and> ex_agent_id r = a \<and> ex_id r = i)"
proof
  assume "holder (lock_of c) a = Some i"
  then show "\<exists>r \<in> set (executions c). holds r \<and> ex_agent_id r = a \<and> ex_id r = i"
    by (auto simp: lock_of_def find_Some_iff)
next
  assume "\<exists>r \<in> set (executions c). holds r \<and> ex_agent_id r = a \<and> ex_id r = i"
  then obtain r where r: "r \<in> set (executions c)" "holds r" "ex_agent_id r = a" "ex_id r = i" by blast
  then obtain s where s: "find (\<lambda>r. holds r \<and> ex_agent_id r = a) (executions c) = Some s"
    by (cases "find (\<lambda>r. holds r \<and> ex_agent_id r = a) (executions c)") (auto simp: find_None_iff)
  then have "s \<in> set (executions c)" "holds s" "ex_agent_id s = a" by (auto simp: find_Some_iff)
  then have "s = r" using assms r by (auto simp: exclusive_def holds_def)
  then show "holder (lock_of c) a = Some i" using s r by (simp add: lock_of_def)
qed

text \<open>A row that holds the lock after a step held it before, or is new.\<close>

lemma holds_before:
  assumes "safe_step c c'" "keys_unique (executions c')" "r' \<in> set (executions c')" "holds r'" "r \<in> set (executions c)" "ex_id r = ex_id r'"
  shows "holds r \<and> ex_agent_id r = ex_agent_id r'"
proof -
  obtain x where x: "x \<in> set (executions c')" "progress r x" using safe_step_row [OF assms(1,5)] by blast
  then have "x = r'" using keys_unique_eq [OF assms(2) x(1) assms(3)] assms(6) progress_id [OF x(2)] by simp
  then have p: "progress r r'" using x by simp
  have "live r"
  proof (cases "ex_disposition r = [] \<and> ex_state r \<noteq> Succeeded")
    case True
    have "later_state (ex_state r) (ex_state r')" using p by (simp add: progress_def)
    then show ?thesis using assms(4) True by (cases "ex_state r") (auto simp: holds_def live_def)
  next
    case False
    then have "r' = r" using p by (auto simp: progress_def)
    then show ?thesis using assms(4) by (simp add: holds_def)
  qed
  then show ?thesis using p assms(4) by (simp add: holds_def progress_def same_identity_def)
qed

lemma safe_step_refines:
  assumes "safe_step c c'" "center_inv c"
  shows "lock_run (lock_of c) (lock_of c')"
proof -
  have inv: "keys_unique (executions c')" "exclusive (executions c')" "exclusive (executions c)"
    using assms by (auto simp: safe_step_def center_inv_def)
  let ?D = "ex_agent_id ` (set (executions c) \<union> set (executions c'))"
  show ?thesis
  proof (rule lock_change_run [of ?D])
    show "finite ?D" by simp
    show "\<forall>a. a \<notin> ?D \<longrightarrow> holder (lock_of c') a = holder (lock_of c) a"
    proof (intro allI impI)
      fix a assume "a \<notin> ?D"
      then have "holder (lock_of d) a = None" if "d \<in> {c, c'}" for d
        using that by (auto simp: lock_of_def find_None_iff)
      then show "holder (lock_of c') a = holder (lock_of c) a" by simp
    qed
    show "issued (lock_of c) \<subseteq> issued (lock_of c')"
    proof
      fix i assume "i \<in> issued (lock_of c)"
      then obtain r where r: "r \<in> set (executions c)" "ex_id r = i" by (auto simp: lock_of_def)
      obtain r' where "r' \<in> set (executions c')" "progress r r'" using safe_step_row [OF assms(1) r(1)] by blast
      then show "i \<in> issued (lock_of c')" using progress_id [of r r'] r(2) by (auto simp: lock_of_def)
    qed
    show "finite (issued (lock_of c') - issued (lock_of c))" by (simp add: lock_of_def)
    show "\<forall>a i. holder (lock_of c') a = Some i \<longrightarrow>
        i \<in> issued (lock_of c') \<and> (holder (lock_of c) a = Some i \<or> i \<notin> issued (lock_of c))"
    proof (intro allI impI conjI)
      fix a i assume "holder (lock_of c') a = Some i"
      then obtain r' where r': "r' \<in> set (executions c')" "holds r'" "ex_agent_id r' = a" "ex_id r' = i"
        unfolding holder_iff [OF inv(2)] by blast
      then show "i \<in> issued (lock_of c')" by (auto simp: lock_of_def)
      show "holder (lock_of c) a = Some i \<or> i \<notin> issued (lock_of c)"
      proof (rule disjCI)
        assume "\<not> i \<notin> issued (lock_of c)"
        then obtain r where r: "r \<in> set (executions c)" "ex_id r = i" by (auto simp: lock_of_def)
        then have "holds r \<and> ex_agent_id r = a"
          using holds_before [OF assms(1) inv(1) r'(1,2), of r] r' by simp
        then show "holder (lock_of c) a = Some i"
          unfolding holder_iff [OF inv(3)] using r by blast
      qed
    qed
    show "\<forall>a b i. holder (lock_of c') a = Some i \<and> holder (lock_of c') b = Some i \<longrightarrow> a = b"
    proof (intro allI impI, elim conjE)
      fix a b i assume "holder (lock_of c') a = Some i" "holder (lock_of c') b = Some i"
      then obtain r s where "r \<in> set (executions c')" "ex_agent_id r = a" "ex_id r = i"
        "s \<in> set (executions c')" "ex_agent_id s = b" "ex_id s = i"
        unfolding holder_iff [OF inv(2)] by blast
      then show "a = b" using keys_unique_eq [OF inv(1), of r s] by simp
    qed
  qed
qed



end
