(* ===== verification/Addresses.thy ===== *)
theory Addresses
  imports Prelude "HOL-Library.Word"
begin

text \<open>
  IP addresses as Go's \<^verbatim>\<open>net/netip\<close> and \<^verbatim>\<open>net\<close> packages have them: the parser, the printer and the
  predicates that src/internal/landing, src/internal/networking and src/internal/gateway use. An IPv4
  address is a 32-bit word, an IPv6 address a 128-bit word with a zone. A \<^verbatim>\<open>net.IP\<close> is the 16-byte
  form of either, with no zone; \<open>to4\<close> is its \<^verbatim>\<open>To4\<close>.
\<close>

unbundle bit_operations_syntax

section \<open>Splitting\<close>

text \<open>\<^verbatim>\<open>strings.Split\<close> at a byte: never empty, and the fields joined give the string back.\<close>

fun split_on :: "char \<Rightarrow> string \<Rightarrow> string list" where
  "split_on d [] = [[]]"
| "split_on d (c # cs) =
     (if c = d then [] # split_on d cs
      else case split_on d cs of [] \<Rightarrow> [[c]] | f # fs \<Rightarrow> (c # f) # fs)"

fun join :: "string \<Rightarrow> string list \<Rightarrow> string" where
  "join sep [] = []"
| "join sep [s] = s"
| "join sep (s # t # ts) = s @ sep @ join sep (t # ts)"

lemma split_on_not_Nil [simp]: "split_on d s \<noteq> []"
  by (cases s) (auto split: list.splits)

lemma split_on_field: "d \<notin> set s \<Longrightarrow> split_on d s = [s]"
  by (induction s) auto

lemma split_on_append: "d \<notin> set s \<Longrightarrow> split_on d (s @ d # t) = s # split_on d t"
  by (induction s) auto

lemma split_on_join: "(\<And>f. f \<in> set fs \<Longrightarrow> d \<notin> set f) \<Longrightarrow> fs \<noteq> [] \<Longrightarrow> split_on d (join [d] fs) = fs"
  by (induction "[d]" fs rule: join.induct) (auto simp: split_on_field split_on_append)

section \<open>IPv4 text\<close>

datatype addr = V4 "32 word" | V6 "128 word" string

definition parse_octet :: "string \<Rightarrow> nat option" where
  "parse_octet s =
     (if s \<noteq> [] \<and> list_all is_digit s \<and> (length s = 1 \<or> hd s \<noteq> CHR ''0'') \<and> digits_val s \<le> 255
      then Some (digits_val s) else None)"

fun bytes_word :: "nat list \<Rightarrow> 'a::len word" where
  "bytes_word bs = foldl (\<lambda>w b. push_bit 8 w OR of_nat b) 0 bs"

fun all_some :: "'a option list \<Rightarrow> 'a list option" where
  "all_some [] = Some []"
| "all_some (None # xs) = None"
| "all_some (Some x # xs) = map_option ((#) x) (all_some xs)"

definition parse_v4 :: "string \<Rightarrow> nat list option" where
  "parse_v4 s =
     (let fs = split_on (CHR ''.'') s in if length fs \<noteq> 4 then None else all_some (map parse_octet fs))"

definition octets :: "32 word \<Rightarrow> nat list" where
  "octets a = map (\<lambda>i. unat (take_bit 8 (drop_bit i a))) [24, 16, 8, 0]"

definition string_v4 :: "32 word \<Rightarrow> string" where
  "string_v4 a = join ''.'' (map nat_str (octets a))"

section \<open>IPv6 text\<close>

definition hex_val :: "char \<Rightarrow> nat option" where
  "hex_val c =
     (if is_digit c then Some (digit_val c)
      else if CHR ''a'' \<le> c \<and> c \<le> CHR ''f'' then Some (of_char c - 87)
      else if CHR ''A'' \<le> c \<and> c \<le> CHR ''F'' then Some (of_char c - 55)
      else None)"

text \<open>The leading hexadecimal digits of a group, their value, and the rest; \<open>None\<close> when there are none or more than four.\<close>

definition hex_group :: "string \<Rightarrow> (nat \<times> string) option" where
  "hex_group s =
     (let ds = takeWhile (\<lambda>c. hex_val c \<noteq> None) s in
      if ds = [] \<or> length ds > 4 then None
      else Some (foldl (\<lambda>a c. 16 * a + the (hex_val c)) 0 ds, drop (length ds) s))"

text \<open>
  The loop of \<^verbatim>\<open>parseIPv6\<close>: \<open>bs\<close> are the bytes so far, \<open>ell\<close> the position of the ellipsis. The result
  has the bytes and the ellipsis; the whole string is used.
\<close>

function parse_groups :: "string \<Rightarrow> nat list \<Rightarrow> nat option \<Rightarrow> (nat list \<times> nat option) option" where
  "parse_groups s bs ell =
     (if length bs \<ge> 16 then (if s = [] then Some (bs, ell) else None)
      else case hex_group s of
        None \<Rightarrow> None
      | Some (v, rest) \<Rightarrow>
          if rest \<noteq> [] \<and> hd rest = CHR ''.'' then
            (if ell = None \<and> length bs \<noteq> 12 \<or> length bs + 4 > 16 then None
             else map_option (\<lambda>v4. (bs @ v4, ell)) (parse_v4 s))
          else let bs' = bs @ [v div 256, v mod 256] in
            if rest = [] then Some (bs', ell)
            else if hd rest \<noteq> CHR '':'' \<or> length rest = 1 then None
            else let s' = tl rest in
              if hd s' \<noteq> CHR '':'' then parse_groups s' bs' ell
              else if ell \<noteq> None then None
              else if tl s' = [] then Some (bs', Some (length bs'))
              else parse_groups (tl s') bs' (Some (length bs')))"
  by auto
termination
  by (relation "measure (\<lambda>(s, bs, ell). 16 - length bs)") auto

definition expand_ellipsis :: "nat list \<times> nat option \<Rightarrow> nat list option" where
  "expand_ellipsis p =
     (case p of
        (bs, None) \<Rightarrow> if length bs = 16 then Some bs else None
      | (bs, Some k) \<Rightarrow>
          if length bs < 16 then Some (take k bs @ replicate (16 - length bs) 0 @ drop k bs) else None)"

definition parse_v6_body :: "string \<Rightarrow> nat list option" where
  "parse_v6_body s =
     (if has_prefix s ''::'' then
        (if length s = 2 then Some (replicate 16 0)
         else Option.bind (parse_groups (drop 2 s) [] (Some 0)) expand_ellipsis)
      else Option.bind (parse_groups s [] None) expand_ellipsis)"

text \<open>\<^verbatim>\<open>netip.ParseAddr\<close>: the first of \<^verbatim>\<open>.\<close>, \<^verbatim>\<open>:\<close> and \<^verbatim>\<open>%\<close> decides the family; a zone must not be empty.\<close>

definition parse_addr :: "string \<Rightarrow> addr option" where
  "parse_addr s =
     (case find (\<lambda>c. c = CHR ''.'' \<or> c = CHR '':'' \<or> c = CHR ''%'') s of
        None \<Rightarrow> None
      | Some c \<Rightarrow>
          if c = CHR ''.'' then map_option (\<lambda>bs. V4 (bytes_word bs)) (parse_v4 s)
          else if c = CHR ''%'' then None
          else let body = takeWhile (\<lambda>c. c \<noteq> CHR ''%'') s; rest = dropWhile (\<lambda>c. c \<noteq> CHR ''%'') s in
            if rest = [CHR ''%''] then None
            else map_option (\<lambda>bs. V6 (bytes_word bs) (tl rest)) (parse_v6_body body))"

definition hex_char :: "nat \<Rightarrow> char" where
  "hex_char d = (if d < 10 then digit_char d else char_of (87 + d))"

fun hex_str :: "nat \<Rightarrow> string" where
  "hex_str n = (if n < 16 then [hex_char n] else hex_str (n div 16) @ [hex_char (n mod 16)])"

declare hex_str.simps [simp del]

definition groups :: "128 word \<Rightarrow> nat list" where
  "groups w = map (\<lambda>i. unat (take_bit 16 (drop_bit i w))) [112, 96, 80, 64, 48, 32, 16, 0]"

text \<open>The first longest run of at least two zero groups, as start and end.\<close>

definition zero_run :: "nat list \<Rightarrow> nat \<Rightarrow> nat" where
  "zero_run gs i = i + length (takeWhile (\<lambda>g. g = 0) (drop i gs))"

definition best_run :: "nat list \<Rightarrow> nat \<times> nat" where
  "best_run gs =
     foldl (\<lambda>(a, b) i. let j = zero_run gs i in if j - i \<ge> 2 \<and> j - i > b - a then (i, j) else (a, b)) (255, 255) [0..<8]"

definition string_v6 :: "128 word \<Rightarrow> string" where
  "string_v6 w =
     (let gs = groups w; (a, b) = best_run gs in
      if a = 255 then join '':'' (map hex_str gs)
      else join '':'' (map hex_str (take a gs)) @ ''::'' @ join '':'' (map hex_str (drop b gs)))"

definition is_4in6 :: "128 word \<Rightarrow> bool" where
  "is_4in6 w = (drop_bit 32 w = 0xFFFF)"

definition zone_str :: "string \<Rightarrow> string" where
  "zone_str z = (if z = [] then [] else CHR ''%'' # z)"

definition addr_string :: "addr \<Rightarrow> string" where
  "addr_string a =
     (case a of
        V4 v \<Rightarrow> string_v4 v
      | V6 w z \<Rightarrow> (if is_4in6 w then ''::ffff:'' @ string_v4 (ucast w) else string_v6 w) @ zone_str z)"

section \<open>Predicates\<close>

definition v4_prefix :: "nat list \<Rightarrow> nat \<Rightarrow> addr \<Rightarrow> bool" where
  "v4_prefix p n a = (case a of V4 v \<Rightarrow> drop_bit (32 - n) (v XOR bytes_word p) = 0 | V6 _ _ \<Rightarrow> False)"

definition v6_prefix :: "nat list \<Rightarrow> nat \<Rightarrow> addr \<Rightarrow> bool" where
  "v6_prefix p n a =
     (case a of V4 _ \<Rightarrow> False
      | V6 w z \<Rightarrow> z = [] \<and> drop_bit (128 - n) (w XOR push_bit (128 - 8 * length p) (bytes_word p)) = 0)"

definition v4_byte :: "nat \<Rightarrow> 32 word \<Rightarrow> 32 word" where
  "v4_byte i v = drop_bit (24 - 8 * i) v AND 255"

definition v4_loopback :: "32 word \<Rightarrow> bool" where
  "v4_loopback v = (v4_byte 0 v = 127)"

definition v4_multicast :: "32 word \<Rightarrow> bool" where
  "v4_multicast v = (v4_byte 0 v AND 0xF0 = 0xE0)"

definition v4_link_local :: "32 word \<Rightarrow> bool" where
  "v4_link_local v = (v4_byte 0 v = 169 \<and> v4_byte 1 v = 254)"

definition v4_private :: "32 word \<Rightarrow> bool" where
  "v4_private v =
     (v4_byte 0 v = 10 \<or> v4_byte 0 v = 172 \<and> v4_byte 1 v AND 0xF0 = 16 \<or> v4_byte 0 v = 192 \<and> v4_byte 1 v = 168)"

definition v4_global_unicast :: "32 word \<Rightarrow> bool" where
  "v4_global_unicast v =
     (v \<noteq> 0 \<and> v \<noteq> 0xFFFFFFFF \<and> \<not> v4_loopback v \<and> \<not> v4_multicast v \<and> \<not> v4_link_local v)"

section \<open>The 16-byte form\<close>

type_synonym net_ip = "128 word"

definition to4 :: "net_ip \<Rightarrow> 32 word option" where
  "to4 w = (if is_4in6 w then Some (ucast w) else None)"

definition as16 :: "addr \<Rightarrow> net_ip" where
  "as16 a = (case a of V4 v \<Rightarrow> push_bit 32 0xFFFF OR ucast v | V6 w _ \<Rightarrow> w)"

text \<open>\<^verbatim>\<open>net.ParseIP\<close>: an address without a zone.\<close>

definition parse_ip :: "string \<Rightarrow> net_ip option" where
  "parse_ip s =
     (case parse_addr s of
        None \<Rightarrow> None
      | Some a \<Rightarrow> (case a of V6 _ z \<Rightarrow> if z = [] then Some (as16 a) else None | V4 _ \<Rightarrow> Some (as16 a)))"

definition ip_string :: "net_ip \<Rightarrow> string" where
  "ip_string w = (case to4 w of Some v \<Rightarrow> string_v4 v | None \<Rightarrow> string_v6 w)"

definition ip_byte :: "nat \<Rightarrow> net_ip \<Rightarrow> net_ip" where
  "ip_byte i w = drop_bit (120 - 8 * i) w AND 255"

definition ip_unspecified :: "net_ip \<Rightarrow> bool" where
  "ip_unspecified w = (case to4 w of Some v \<Rightarrow> v = 0 | None \<Rightarrow> w = 0)"

definition ip_loopback :: "net_ip \<Rightarrow> bool" where
  "ip_loopback w = (case to4 w of Some v \<Rightarrow> v4_loopback v | None \<Rightarrow> w = 1)"

definition ip_multicast :: "net_ip \<Rightarrow> bool" where
  "ip_multicast w = (case to4 w of Some v \<Rightarrow> v4_multicast v | None \<Rightarrow> ip_byte 0 w = 0xFF)"

definition ip_link_local :: "net_ip \<Rightarrow> bool" where
  "ip_link_local w =
     (case to4 w of Some v \<Rightarrow> v4_link_local v | None \<Rightarrow> ip_byte 0 w = 0xFE \<and> ip_byte 1 w AND 0xC0 = 0x80)"

definition ip_private :: "net_ip \<Rightarrow> bool" where
  "ip_private w = (case to4 w of Some v \<Rightarrow> v4_private v | None \<Rightarrow> ip_byte 0 w AND 0xFE = 0xFC)"

definition ip_global_unicast :: "net_ip \<Rightarrow> bool" where
  "ip_global_unicast w =
     (to4 w \<noteq> Some 0xFFFFFFFF \<and> \<not> ip_unspecified w \<and> \<not> ip_loopback w \<and> \<not> ip_multicast w \<and> \<not> ip_link_local w)"

section \<open>Printing and parsing IPv4\<close>

lemma nat_str_no_char: "\<not> is_digit c \<Longrightarrow> c \<notin> set (nat_str n)"
  using nat_str_no_sign by blast

lemma nat_str_small: "n < 10 \<Longrightarrow> nat_str n = [digit_char n]"
  by (simp add: nat_str.simps [of n])

lemma nat_str_large: "\<not> n < 10 \<Longrightarrow> nat_str n = nat_str (n div 10) @ [digit_char (n mod 10)]"
  by (subst nat_str.simps) simp

lemma nat_str_hd: "0 < n \<Longrightarrow> hd (nat_str n) \<noteq> CHR ''0''"
proof (induction n rule: nat_str.induct)
  case (1 n)
  show ?case
  proof (cases "n < 10")
    case True
    then have "digit_val (hd (nat_str n)) = n" by (simp add: nat_str_small)
    then show ?thesis using 1(2) by (auto simp: digit_val_def)
  next
    case False
    then show ?thesis using 1 by (simp add: nat_str_large)
  qed
qed

lemma parse_octet_nat_str:
  assumes "n \<le> 255"
  shows "parse_octet (nat_str n) = Some n"
proof (cases "n = 0")
  case True
  then show ?thesis using digits_val_nat_str [of 0] by (simp add: parse_octet_def nat_str_small)
next
  case False
  then show ?thesis using assms nat_str_digits [of n] nat_str_hd [of n] by (simp add: parse_octet_def)
qed

lemma octet_le: "unat (take_bit 8 (w :: 32 word)) \<le> 255"
  using take_bit_nat_less_exp [of 8 "unat w"] by (simp add: unsigned_take_bit_eq)

lemma bytes_word_octets: "bytes_word (octets a) = a"
proof (rule bit_word_eqI)
  fix n assume n: "n < LENGTH(32)"
  consider "n < 8" | "8 \<le> n \<and> n < 16" | "16 \<le> n \<and> n < 24" | "24 \<le> n" by linarith
  then show "bit (bytes_word (octets a) :: 32 word) n = bit a n"
    using n by cases (auto simp: octets_def bit_simps)
qed

lemma dot_not_digit: "\<not> is_digit (CHR ''.'')"
  by (simp add: is_digit_alt)

lemma parse_v4_string: "parse_v4 (string_v4 a) = Some (octets a)"
proof -
  have "split_on (CHR ''.'') (string_v4 a) = map nat_str (octets a)"
    unfolding string_v4_def by (rule split_on_join) (auto simp: octets_def nat_str_no_char [OF dot_not_digit])
  moreover have "all_some (map parse_octet (map nat_str (octets a))) = Some (octets a)"
    by (simp add: octets_def parse_octet_nat_str octet_le)
  ultimately show ?thesis by (simp add: parse_v4_def Let_def octets_def)
qed

lemma find_append_skip: "(\<And>x. x \<in> set xs \<Longrightarrow> \<not> P x) \<Longrightarrow> find P (xs @ ys) = find P ys"
  by (induction xs) auto

lemma string_v4_dot: "\<exists>s t. string_v4 a = nat_str s @ CHR ''.'' # t"
  by (auto simp: string_v4_def octets_def)

lemma parse_addr_string_v4 [simp]: "parse_addr (string_v4 a) = Some (V4 a)"
proof -
  obtain s t where st: "string_v4 a = nat_str s @ CHR ''.'' # t" using string_v4_dot by blast
  have "find (\<lambda>c. c = CHR ''.'' \<or> c = CHR '':'' \<or> c = CHR ''%'') (string_v4 a) = Some (CHR ''.'')"
    unfolding st using nat_str_no_char [of _ s] by (subst find_append_skip) (auto simp: is_digit_alt)
  then show ?thesis by (simp add: parse_addr_def parse_v4_string bytes_word_octets del: bytes_word.simps)
qed

lemma to4_as16 [simp]: "to4 (as16 (V4 v)) = Some v"
proof -
  have "drop_bit 32 (push_bit 32 0xFFFF OR ucast v :: 128 word) = 0xFFFF"
    by (rule bit_word_eqI) (auto simp: bit_simps dest: bit_imp_le_length)
  moreover have "ucast (push_bit 32 0xFFFF OR ucast v :: 128 word) = v"
  proof (rule bit_word_eqI)
    fix n assume "n < LENGTH(32)"
    then have "\<not> bit (push_bit 32 0xFFFF :: 128 word) n" by (simp only: bit_push_bit_iff) simp
    then show "bit (ucast (push_bit 32 0xFFFF OR ucast v :: 128 word) :: 32 word) n = bit v n"
      using \<open>n < LENGTH(32)\<close> by (simp only: bit_unsigned_iff bit_or_iff) simp
  qed
  ultimately show ?thesis by (simp add: to4_def as16_def is_4in6_def)
qed

lemma parse_ip_string_v4 [simp]: "parse_ip (string_v4 v) = Some (as16 (V4 v))"
  by (simp add: parse_ip_def)

lemma ip_string_v4 [simp]: "ip_string (as16 (V4 v)) = string_v4 v"
  by (simp add: ip_string_def)

end
