(* ===== verification/Landing_Model.thy ===== *)
theory Landing_Model
  imports Addresses "HOL-Library.AList"
begin

text \<open>
  The landing package (src/internal/landing): which addresses may be exits and private peers
  (address.go, server.go, egress_addresses.go), client grants (grants.go), the merge of access rules
  and sources before they are written to Headscale, Dante and the firewall (policy.go, grants.go) and
  the shared traffic ledger (quota.go). Errors keep their text.
\<close>

section \<open>Addresses\<close>

text \<open>\<^verbatim>\<open>blockedIPv4\<close>, as prefix bytes and length.\<close>

definition blockedIPv4 :: "(nat list \<times> nat) list" where
  "blockedIPv4 =
     [([0, 0, 0, 0], 8), ([10, 0, 0, 0], 8), ([100, 64, 0, 0], 10), ([127, 0, 0, 0], 8),
      ([169, 254, 0, 0], 16), ([172, 16, 0, 0], 12), ([192, 0, 0, 0], 24), ([192, 0, 2, 0], 24),
      ([192, 88, 99, 0], 24), ([192, 168, 0, 0], 16), ([198, 18, 0, 0], 15), ([198, 51, 100, 0], 24),
      ([203, 0, 113, 0], 24), ([224, 0, 0, 0], 4), ([240, 0, 0, 0], 4)]"

definition PublicIPv4 :: "addr \<Rightarrow> bool" where
  "PublicIPv4 a =
     (case a of
        V6 _ _ \<Rightarrow> False
      | V4 v \<Rightarrow> v4_global_unicast v \<and> \<not> list_ex (\<lambda>(p, n). v4_prefix p n a) blockedIPv4)"

text \<open>\<^verbatim>\<open>blockedIPv6\<close>: the leading bytes and the length of each prefix.\<close>

definition blockedIPv6 :: "(nat list \<times> nat) list" where
  "blockedIPv6 = [([0x20, 0x01], 23), ([0x20, 0x01, 0x0D, 0xB8], 32), ([0x20, 0x02], 16), ([0x3F, 0xFF], 20)]"

definition PublicIPv6 :: "addr \<Rightarrow> bool" where
  "PublicIPv6 a =
     (case a of
        V4 _ \<Rightarrow> False
      | V6 w z \<Rightarrow> \<not> is_4in6 w \<and> z = [] \<and> v6_prefix [0x20] 3 a \<and> \<not> list_ex (\<lambda>(p, n). v6_prefix p n a) blockedIPv6)"

definition PublicIP :: "addr \<Rightarrow> bool" where
  "PublicIP a = (PublicIPv4 a \<or> PublicIPv6 a)"

definition ValidEgressIP :: "string \<Rightarrow> bool" where
  "ValidEgressIP value =
     (case parse_addr value of
        None \<Rightarrow> False
      | Some a \<Rightarrow> addr_string a = value \<and> (PublicIP a \<or> (case a of V4 v \<Rightarrow> v4_private v | V6 _ _ \<Rightarrow> False)))"

definition tailnetIPv4 :: "string \<Rightarrow> bool" where
  "tailnetIPv4 value =
     (case parse_addr value of
        None \<Rightarrow> False
      | Some a \<Rightarrow> addr_string a = value \<and> v4_prefix [100, 64, 0, 0] 10 a)"

record egress_address =
  ea_address :: string
  ea_interface :: string

text \<open>The loop over the candidates with the addresses seen so far.\<close>

fun egress_loop :: "string list \<Rightarrow> egress_address list \<Rightarrow> string option" where
  "egress_loop seen [] = None"
| "egress_loop seen (x # xs) =
     (if \<not> ValidEgressIP (ea_address x) \<or> ea_interface x = [] \<or> length (ea_interface x) > 64 \<or>
         contains_any (ea_interface x) [CHR 0x00, CHR 0x0D, CHR 0x0A] \<or> ea_address x \<in> set seen
      then Some ''landing: invalid or duplicate egress address''
      else egress_loop (ea_address x # seen) xs)"

definition ValidateEgressAddresses :: "egress_address list \<Rightarrow> string option" where
  "ValidateEgressAddresses xs =
     (if length xs > 128 then Some ''landing: too many egress addresses'' else egress_loop [] xs)"

section \<open>The native server plan\<close>

record authorized_node =
  an_address :: string
  an_tcp_only :: bool

record server_plan =
  sp_egress_ip :: string
  sp_revision :: nat
  sp_address :: string
  sp_sources :: "authorized_node list"

fun source_loop :: "server_plan \<Rightarrow> string list \<Rightarrow> authorized_node list \<Rightarrow> string option" where
  "source_loop plan seen [] = None"
| "source_loop plan seen (n # ns) =
     (if CHR '':'' \<in> set (sp_egress_ip plan) \<and> \<not> an_tcp_only n
      then Some ''landing: IPv6 egress requires TCP-only source grants''
      else if \<not> tailnetIPv4 (an_address n) \<or> an_address n = sp_address plan \<or> an_address n \<in> set seen
      then Some ''landing: invalid authorized proxy node''
      else source_loop plan (an_address n # seen) ns)"

definition server_plan_Validate :: "server_plan \<Rightarrow> string option" where
  "server_plan_Validate plan =
     (if sp_egress_ip plan \<noteq> [] \<and> \<not> ValidEgressIP (sp_egress_ip plan) then Some ''landing: invalid selected egress IP''
      else if sp_revision plan = 0 \<or> \<not> tailnetIPv4 (sp_address plan) \<or> length (sp_sources plan) > 128
      then Some ''landing: invalid native server plan''
      else source_loop plan [] (sp_sources plan))"

section \<open>Grants\<close>

record peer_identity =
  pi_id :: string
  pi_public_key :: string
  pi_address :: string

record client_grant =
  cg_id :: string
  cg_parent :: string
  cg_inbound :: string
  cg_base_user :: string
  cg_base_identity :: string
  cg_fixed_user :: string
  cg_fixed_identity :: string
  cg_peer :: peer_identity
  cg_mode :: string
  cg_enabled :: bool
  cg_hide_base :: bool

text \<open>\<^verbatim>\<open>PublishingMode.Valid\<close> and \<^verbatim>\<open>Fixed\<close>: the one mode there is.\<close>

definition mode_Valid :: "string \<Rightarrow> bool" where
  "mode_Valid m = (m = ''fixed'')"

definition Published :: "string \<Rightarrow> client_grant \<Rightarrow> client_grant" where
  "Published mode g = (if \<not> mode_Valid mode \<or> \<not> mode_Valid (cg_mode g) then g\<lparr>cg_enabled := False\<rparr> else g)"

definition grant_char :: "char \<Rightarrow> bool" where
  "grant_char c = (is_lower_alpha c \<or> is_upper_alpha c \<or> is_digit c \<or> c = CHR ''-'' \<or> c = CHR ''_'')"

definition validGrantID :: "string \<Rightarrow> bool" where
  "validGrantID i = (i \<noteq> [] \<and> length i \<le> 128 \<and> list_all grant_char i)"

definition validRouteUser :: "string \<Rightarrow> bool" where
  "validRouteUser user =
     (user \<noteq> [] \<and> length user \<le> 256 \<and> trim_space user = user \<and> \<not> contains_any user [CHR 0x0D, CHR 0x0A, CHR 0x00])"

definition hex_lower :: "char \<Rightarrow> bool" where
  "hex_lower c = (is_digit c \<or> CHR ''a'' \<le> c \<and> c \<le> CHR ''f'')"

text \<open>32 bytes in lower-case hexadecimal.\<close>

definition validIdentity :: "string \<Rightarrow> bool" where
  "validIdentity i = (length i = 64 \<and> list_all hex_lower i)"

text \<open>\<open>tag\<close> is \<^verbatim>\<open>grantTag\<close>, the first half of the SHA-256 of the id in hexadecimal.\<close>

definition FixedUser :: "(string \<Rightarrow> string) \<Rightarrow> string \<Rightarrow> string" where
  "FixedUser tag i = ''vastora-combination-'' @ tag i"

definition client_grant_Validate :: "(string \<Rightarrow> string) \<Rightarrow> client_grant \<Rightarrow> string option" where
  "client_grant_Validate tag g =
     (if \<not> validGrantID (cg_id g) \<or> \<not> validGrantID (cg_parent g) \<or> \<not> mode_Valid (cg_mode g) \<or>
         \<not> validRouteUser (cg_base_user g) \<or> has_prefix (cg_base_user g) ''vastora-combination-'' \<or>
         \<not> validIdentity (cg_base_identity g) \<or> cg_parent g \<noteq> cg_base_identity g \<or> cg_inbound g = [] \<or>
         length (cg_inbound g) > 128 \<or> trim_space (cg_inbound g) \<noteq> cg_inbound g \<or>
         \<not> tailnetIPv4 (pi_address (cg_peer g)) \<or> pi_id (cg_peer g) = [] \<or> pi_public_key (cg_peer g) = []
      then Some ''landing: invalid client grant''
      else if cg_fixed_user g \<noteq> [] \<and> (cg_fixed_user g \<noteq> FixedUser tag (cg_id g) \<or> \<not> validIdentity (cg_fixed_identity g))
      then Some ''landing: invalid fixed identity ownership''
      else if cg_enabled g \<and> mode_Valid (cg_mode g) \<and> cg_fixed_user g = []
      then Some ''landing: missing fixed identity''
      else None)"

section \<open>Merging sources and access rules\<close>

text \<open>The map \<^verbatim>\<open>byAddress\<close>: a later use of an address keeps TCP-only only when the earlier ones had it.\<close>

fun merge_loop :: "(string \<times> bool) list \<Rightarrow> authorized_node list \<Rightarrow> (string \<times> bool) list option" where
  "merge_loop m [] = Some m"
| "merge_loop m (n # ns) =
     (if \<not> tailnetIPv4 (an_address n) then None
      else merge_loop (AList.update (an_address n)
             (case map_of m (an_address n) of None \<Rightarrow> an_tcp_only n | Some t \<Rightarrow> an_tcp_only n \<and> t) m) ns)"

definition MergeSources :: "authorized_node list list \<Rightarrow> string + authorized_node list" where
  "MergeSources uses =
     (case merge_loop [] (concat uses) of
        None \<Rightarrow> Inl ''landing: invalid source identity''
      | Some m \<Rightarrow>
          if length m > 128 then Inl ''landing: too many source identities''
          else Inr (sort_key an_address (map (\<lambda>(a, t). \<lparr>an_address = a, an_tcp_only = t\<rparr>) m)))"

record access_rule =
  ar_source :: string
  ar_destination :: string
  ar_tcp_only :: bool

fun merge_rules :: "access_rule list \<Rightarrow> access_rule list \<Rightarrow> access_rule list" where
  "merge_rules merged [] = merged"
| "merge_rules merged (r # rs) =
     (if merged \<noteq> [] \<and> ar_source (last merged) = ar_source r \<and> ar_destination (last merged) = ar_destination r
      then merge_rules (butlast merged @ [(last merged)\<lparr>ar_tcp_only := ar_tcp_only (last merged) \<and> ar_tcp_only r\<rparr>]) rs
      else merge_rules (merged @ [r]) rs)"

definition rule_valid :: "access_rule \<Rightarrow> bool" where
  "rule_valid r = (tailnetIPv4 (ar_source r) \<and> tailnetIPv4 (ar_destination r) \<and> ar_source r \<noteq> ar_destination r)"

definition NormalizeAccessRules :: "access_rule list \<Rightarrow> string + access_rule list" where
  "NormalizeAccessRules rules =
     (if length rules > 128 then Inl ''landing: too many access rules''
      else if \<not> list_all rule_valid rules then Inl ''landing: invalid private access rule''
      else Inr (merge_rules [] (sort_key (\<lambda>r. (ar_source r, ar_destination r)) rules)))"

section \<open>The shared traffic ledger\<close>

record quota_member =
  qm_id :: string
  qm_baseline :: int
  qm_observed :: int
  qm_active :: bool

record quota_limit =
  ql_id :: string
  ql_total :: int
  ql_enabled :: bool

definition max_int64 :: int where
  "max_int64 = 2 ^ 63 - 1"

fun quota_loop :: "string option \<Rightarrow> int \<Rightarrow> quota_member list \<Rightarrow> int option" where
  "quota_loop prev used [] = Some used"
| "quota_loop prev used (m # ms) =
     (if \<not> validGrantID (qm_id m) \<or> prev = Some (qm_id m) \<or> qm_baseline m < 0 \<or> qm_observed m < qm_baseline m \<or>
         qm_observed m - qm_baseline m > max_int64 - used
      then None else quota_loop (Some (qm_id m)) (used + (qm_observed m - qm_baseline m)) ms)"

definition AllocateQuota :: "int \<Rightarrow> bool \<Rightarrow> quota_member list \<Rightarrow> string + (quota_limit list \<times> int)" where
  "AllocateQuota planTotal enabled members =
     (if planTotal < 0 \<or> members = [] \<or> length members > 513 then Inl ''landing: invalid shared traffic plan''
      else let ordered = sort_key qm_id members in
        case quota_loop None 0 ordered of
          None \<Rightarrow> Inl ''landing: invalid shared traffic observation''
        | Some used \<Rightarrow>
            let accountEnabled = (enabled \<and> (planTotal = 0 \<or> used < planTotal)) in
            Inr (map (\<lambda>m. \<lparr>ql_id = qm_id m, ql_total = 0, ql_enabled = (accountEnabled \<and> qm_active m)\<rparr>) ordered, used))"

fun ObserveQuota :: "quota_member list \<Rightarrow> (string \<rightharpoonup> int) \<Rightarrow> string + quota_member list" where
  "ObserveQuota [] counters = Inr []"
| "ObserveQuota (m # ms) counters =
     (case counters (qm_id m) of
        None \<Rightarrow> Inl ''landing: shared traffic counters changed or are incomplete''
      | Some v \<Rightarrow>
          if v < qm_observed m then Inl ''landing: shared traffic counters changed or are incomplete''
          else (case ObserveQuota ms counters of Inl err \<Rightarrow> Inl err | Inr rest \<Rightarrow> Inr (m\<lparr>qm_observed := v\<rparr> # rest)))"

definition ResetQuota :: "quota_member list \<Rightarrow> quota_member list" where
  "ResetQuota members = map (\<lambda>m. m\<lparr>qm_baseline := qm_observed m\<rparr>) members"

end
