(* ===== verification/Landing_Properties.thy ===== *)
theory Landing_Properties
  imports Landing_Model
begin

text \<open>
  What the landing package promises: one exact traffic ledger per plan, merges that keep every
  use of a source, a normal form of access rules that grants neither more nor less, and exits that
  are never private mesh addresses.
\<close>

section \<open>The traffic ledger\<close>

definition consumed_traffic :: "quota_member list \<Rightarrow> int" where
  "consumed_traffic ms = sum_list (map (\<lambda>m. qm_observed m - qm_baseline m) ms)"

definition counted :: "quota_member \<Rightarrow> bool" where
  "counted m = (validGrantID (qm_id m) \<and> 0 \<le> qm_baseline m \<and> qm_baseline m \<le> qm_observed m)"

lemma quota_loop_sum:
  assumes "quota_loop prev used ms = Some n" "0 \<le> used" "used \<le> max_int64"
  shows "n = used + consumed_traffic ms \<and> list_all counted ms \<and> used \<le> n \<and> n \<le> max_int64"
  using assms
  by (induction prev used ms rule: quota_loop.induct) (auto simp: consumed_traffic_def counted_def split: if_splits)

lemma quota_loop_distinct:
  assumes "quota_loop prev used ms = Some n" "sorted (map qm_id ms)" "\<forall>p. prev = Some p \<longrightarrow> (\<forall>m \<in> set ms. p \<le> qm_id m)"
  shows "distinct (map qm_id ms) \<and> (\<forall>p. prev = Some p \<longrightarrow> p \<notin> qm_id ` set ms)"
  using assms
proof (induction prev used ms rule: quota_loop.induct)
  case (1 prev used)
  then show ?case by simp
next
  case (2 prev used m ms)
  have step: "quota_loop (Some (qm_id m)) (used + (qm_observed m - qm_baseline m)) ms = Some n" and ne: "prev \<noteq> Some (qm_id m)"
    and c: "\<not> (\<not> validGrantID (qm_id m) \<or> prev = Some (qm_id m) \<or> qm_baseline m < 0 \<or> qm_observed m < qm_baseline m \<or>
         qm_observed m - qm_baseline m > max_int64 - used)"
    using 2(2) by (auto split: if_splits)
  have IH: "distinct (map qm_id ms)" "qm_id m \<notin> qm_id ` set ms"
    using 2(1) [OF c step] 2(3) by auto
  have "p \<notin> qm_id ` set ms" if "prev = Some p" for p
  proof
    assume "p \<in> qm_id ` set ms"
    then obtain x where x: "x \<in> set ms" "p = qm_id x" by blast
    have "p \<le> qm_id m" using 2(4) that by simp
    moreover have "qm_id m \<le> p" using 2(3) x by auto
    ultimately show False using ne that by simp
  qed
  then show ?case using IH ne by auto
qed

lemma quota_loop_complete:
  assumes "list_all counted ms" "distinct (map qm_id ms)" "\<forall>p. prev = Some p \<longrightarrow> p \<notin> qm_id ` set ms"
    "0 \<le> used" "used + consumed_traffic ms \<le> max_int64"
  shows "quota_loop prev used ms = Some (used + consumed_traffic ms)"
  using assms
proof (induction prev used ms rule: quota_loop.induct)
  case (1 prev used)
  then show ?case by (simp add: consumed_traffic_def)
next
  case (2 prev used m ms)
  have "0 \<le> consumed_traffic ms"
    using 2(2) unfolding consumed_traffic_def by (intro sum_list_nonneg) (auto simp: counted_def list_all_iff)
  then show ?case
    using 2 by (auto simp: consumed_traffic_def counted_def)
qed

lemma consumed_traffic_sort [simp]: "consumed_traffic (sort_key f ms) = consumed_traffic ms"
  by (simp add: consumed_traffic_def flip: sum_mset_sum_list)

text \<open>
  C31. The ledger is exact: a plan is accounted exactly when it is not negative, has 1 to 513 members
  with valid distinct ids and counters that do not run backwards, and their traffic fits 64 bits;
  the reported use is then the sum over all members, retired ones included, every identity is
  listed once without a cap of its own, and it is open exactly while it is active, the account is
  enabled and the sum is below the plan.
\<close>

theorem quota_ledger_exact:
  "AllocateQuota planTotal enabled ms = Inr (limits, used) \<longleftrightarrow>
    0 \<le> planTotal \<and> ms \<noteq> [] \<and> length ms \<le> 513 \<and> list_all counted ms \<and> distinct (map qm_id ms) \<and>
    used = consumed_traffic ms \<and> used \<le> 2 ^ 63 - 1 \<and>
    limits = map (\<lambda>m. \<lparr>ql_id = qm_id m, ql_total = 0,
      ql_enabled = (enabled \<and> (planTotal = 0 \<or> used < planTotal) \<and> qm_active m)\<rparr>) (sort_key qm_id ms)"
proof
  let ?o = "sort_key qm_id ms"
  assume "AllocateQuota planTotal enabled ms = Inr (limits, used)"
  then have gate: "0 \<le> planTotal" "ms \<noteq> []" "length ms \<le> 513" and loop: "quota_loop None 0 ?o = Some used"
    and lim: "limits = map (\<lambda>m. \<lparr>ql_id = qm_id m, ql_total = 0,
      ql_enabled = (enabled \<and> (planTotal = 0 \<or> used < planTotal) \<and> qm_active m)\<rparr>) ?o"
    by (auto simp: AllocateQuota_def Let_def split: if_splits option.splits)
  have "used = consumed_traffic ms" "list_all counted ms" "used \<le> max_int64"
    using quota_loop_sum [OF loop] by (auto simp: max_int64_def list_all_iff)
  moreover have "distinct (map qm_id ?o)" using quota_loop_distinct [OF loop] by simp
  ultimately show "0 \<le> planTotal \<and> ms \<noteq> [] \<and> length ms \<le> 513 \<and> list_all counted ms \<and> distinct (map qm_id ms) \<and>
    used = consumed_traffic ms \<and> used \<le> 2 ^ 63 - 1 \<and>
    limits = map (\<lambda>m. \<lparr>ql_id = qm_id m, ql_total = 0,
      ql_enabled = (enabled \<and> (planTotal = 0 \<or> used < planTotal) \<and> qm_active m)\<rparr>) ?o"
    using gate lim by (simp add: max_int64_def distinct_map)
next
  let ?o = "sort_key qm_id ms"
  assume ok: "0 \<le> planTotal \<and> ms \<noteq> [] \<and> length ms \<le> 513 \<and> list_all counted ms \<and> distinct (map qm_id ms) \<and>
    used = consumed_traffic ms \<and> used \<le> 2 ^ 63 - 1 \<and>
    limits = map (\<lambda>m. \<lparr>ql_id = qm_id m, ql_total = 0,
      ql_enabled = (enabled \<and> (planTotal = 0 \<or> used < planTotal) \<and> qm_active m)\<rparr>) ?o"
  then have "quota_loop None 0 ?o = Some (0 + consumed_traffic ?o)"
    by (intro quota_loop_complete) (auto simp: max_int64_def list_all_iff distinct_map)
  then show "AllocateQuota planTotal enabled ms = Inr (limits, used)"
    using ok by (auto simp: AllocateQuota_def Let_def)
qed

lemma ObserveQuota_rows:
  "ObserveQuota ms counters = Inr ms' \<Longrightarrow>
    list_all2 (\<lambda>m m'. \<exists>v. counters (qm_id m) = Some v \<and> qm_observed m \<le> v \<and> m' = m\<lparr>qm_observed := v\<rparr>) ms ms'"
  by (induction ms counters arbitrary: ms' rule: ObserveQuota.induct) (auto split: option.splits if_splits sum.splits)

lemma consumed_mono:
  "list_all2 (\<lambda>m m'. \<exists>v. counters (qm_id m) = Some v \<and> qm_observed m \<le> v \<and> m' = m\<lparr>qm_observed := v\<rparr>) ms ms' \<Longrightarrow>
    consumed_traffic ms \<le> consumed_traffic ms' \<and> map qm_id ms' = map qm_id ms \<and> (list_all counted ms \<longrightarrow> list_all counted ms')"
  by (induction rule: list_all2_induct) (auto simp: consumed_traffic_def counted_def)

text \<open>
  C32. Traffic is never refunded: an accepted observation keeps the identities and never lowers the
  ledger, switching identities off does not lower it either, and only a reset brings it to zero,
  by advancing the baselines and not the native counters; well-formed members stay well-formed.
\<close>

theorem quota_never_refunds:
  assumes "ObserveQuota ms counters = Inr ms'" "list_all counted ms"
  shows "consumed_traffic ms \<le> consumed_traffic ms' \<and> map qm_id ms' = map qm_id ms \<and> list_all counted ms' \<and>
    consumed_traffic (map (\<lambda>m. m\<lparr>qm_active := f m\<rparr>) ms') = consumed_traffic ms' \<and>
    consumed_traffic (ResetQuota ms') = 0 \<and> list_all counted (ResetQuota ms') \<and>
    map qm_observed (ResetQuota ms') = map qm_observed ms'"
proof -
  have "consumed_traffic ms \<le> consumed_traffic ms'" "map qm_id ms' = map qm_id ms" "list_all counted ms'"
    using consumed_mono [OF ObserveQuota_rows [OF assms(1)]] assms(2) by auto
  then show ?thesis
    by (auto simp: consumed_traffic_def ResetQuota_def counted_def list_all_iff o_def sum_list_0)
qed

definition s_members :: "quota_member list" where
  "s_members = [\<lparr>qm_id = ''b'', qm_baseline = 10, qm_observed = 30, qm_active = False\<rparr>,
     \<lparr>qm_id = ''a'', qm_baseline = 0, qm_observed = 5, qm_active = True\<rparr>]"

theorem quota_never_refunds_witness:
  "ObserveQuota s_members [''a'' \<mapsto> 9, ''b'' \<mapsto> 31] = Inr
     [\<lparr>qm_id = ''b'', qm_baseline = 10, qm_observed = 31, qm_active = False\<rparr>,
      \<lparr>qm_id = ''a'', qm_baseline = 0, qm_observed = 9, qm_active = True\<rparr>] \<and>
   consumed_traffic s_members \<le> consumed_traffic
     [\<lparr>qm_id = ''b'', qm_baseline = 10, qm_observed = 31, qm_active = False\<rparr>,
      \<lparr>qm_id = ''a'', qm_baseline = 0, qm_observed = 9, qm_active = True\<rparr>]"
proof -
  have run: "ObserveQuota s_members [''a'' \<mapsto> 9, ''b'' \<mapsto> 31] = Inr
     [\<lparr>qm_id = ''b'', qm_baseline = 10, qm_observed = 31, qm_active = False\<rparr>,
      \<lparr>qm_id = ''a'', qm_baseline = 0, qm_observed = 9, qm_active = True\<rparr>]"
    by (simp add: s_members_def)
  have "list_all counted s_members"
    by (simp add: s_members_def counted_def validGrantID_def grant_char_def is_lower_alpha_def less_eq_char_def)
  then show ?thesis using quota_never_refunds [OF run] run by blast
qed

section \<open>Merged sources\<close>

lemma merge_loop_map:
  assumes "merge_loop m ns = Some m'" "distinct (map fst m)"
  shows "distinct (map fst m') \<and> fst ` set m' = fst ` set m \<union> an_address ` set ns \<and>
    (\<forall>n \<in> set ns. tailnetIPv4 (an_address n)) \<and>
    (\<forall>a. (map_of m' a = Some True) = (map_of m a \<noteq> Some False \<and> (map_of m a = Some True \<or> a \<in> an_address ` set ns) \<and>
       (\<forall>n \<in> set ns. an_address n = a \<longrightarrow> an_tcp_only n)))"
  using assms
proof (induction m ns rule: merge_loop.induct)
  case (1 m)
  then show ?case by (auto simp del: map_of_eq_Some_iff)
next
  case (2 m n ns)
  let ?v = "case map_of m (an_address n) of None \<Rightarrow> an_tcp_only n | Some t \<Rightarrow> an_tcp_only n \<and> t"
  let ?u = "AList.update (an_address n) ?v m"
  have ok: "tailnetIPv4 (an_address n)" and rest: "merge_loop ?u ns = Some m'"
    using 2(2) by (auto split: if_splits)
  have d: "distinct (map fst ?u)" using 2(3) by (simp add: distinct_update)
  note IH = 2(1) [OF _ rest d]
  have keys: "fst ` set ?u = insert (an_address n) (fst ` set m)" by (simp add: dom_update)
  show ?case
    using IH ok keys by (auto simp: update_conv' simp del: map_of_eq_Some_iff split: option.splits if_splits)
qed

lemma merge_loop_total: "(\<forall>n \<in> set ns. tailnetIPv4 (an_address n)) \<Longrightarrow> \<exists>m'. merge_loop m ns = Some m'"
  by (induction m ns rule: merge_loop.induct) auto

definition merged_nodes :: "(string \<times> bool) list \<Rightarrow> authorized_node list" where
  "merged_nodes m = sort_key an_address (map (\<lambda>(a, t). \<lparr>an_address = a, an_tcp_only = t\<rparr>) m)"

lemma merged_nodes_props:
  assumes "distinct (map fst m)"
  shows "sorted (map an_address (merged_nodes m))" "distinct (map an_address (merged_nodes m))"
    "set (merged_nodes m) = {n. map_of m (an_address n) = Some (an_tcp_only n)}"
proof -
  have addr: "map an_address (map (\<lambda>(a, t). \<lparr>an_address = a, an_tcp_only = t\<rparr>) m) = map fst m"
    by (simp add: o_def case_prod_unfold)
  show "sorted (map an_address (merged_nodes m))" by (simp add: merged_nodes_def)
  have "mset (map an_address (merged_nodes m)) = mset (map fst m)"
    unfolding addr [symmetric] by (simp only: merged_nodes_def mset_map mset_sort)
  then show "distinct (map an_address (merged_nodes m))" using assms by (metis mset_eq_imp_distinct_iff)
  have "n \<in> (\<lambda>(a, t). \<lparr>an_address = a, an_tcp_only = t\<rparr>) ` set m \<longleftrightarrow> (an_address n, an_tcp_only n) \<in> set m" for n :: authorized_node
    by (cases n) force
  then show "set (merged_nodes m) = {n. map_of m (an_address n) = Some (an_tcp_only n)}"
    using assms by (auto simp: merged_nodes_def)
qed

lemma merge_loop_nodes:
  assumes "merge_loop [] ns = Some m"
  shows "distinct (map fst m)" "fst ` set m = an_address ` set ns"
    "map_of m a = Some t \<longleftrightarrow> a \<in> an_address ` set ns \<and> t = (\<forall>n \<in> set ns. an_address n = a \<longrightarrow> an_tcp_only n)"
proof -
  note p = merge_loop_map [OF assms]
  show "distinct (map fst m)" and k: "fst ` set m = an_address ` set ns" using p by simp_all
  have true: "map_of m a = Some True \<longleftrightarrow> a \<in> an_address ` set ns \<and> (\<forall>n \<in> set ns. an_address n = a \<longrightarrow> an_tcp_only n)"
    using p by (simp del: map_of_eq_Some_iff)
  have dom: "(\<exists>u. map_of m a = Some u) \<longleftrightarrow> a \<in> an_address ` set ns"
    unfolding k [symmetric] by (metis domIff dom_map_of_conv_image_fst not_None_eq)
  show "map_of m a = Some t \<longleftrightarrow> a \<in> an_address ` set ns \<and> t = (\<forall>n \<in> set ns. an_address n = a \<longrightarrow> an_tcp_only n)"
  proof (cases "map_of m a")
    case None
    then show ?thesis using dom by simp
  next
    case (Some u)
    have a: "a \<in> an_address ` set ns" using dom Some by blast
    have "u = (\<forall>n \<in> set ns. an_address n = a \<longrightarrow> an_tcp_only n)"
      using true a Some by (cases u) simp_all
    then show ?thesis using Some a by auto
  qed
qed

text \<open>
  C33. Merging sources is the union of the uses: the result has every address of every use exactly
  once, in address order, it is TCP-only exactly when all its uses are, and neither the order nor
  the repetition of uses matters, errors included, so dropping one use never removes another.
\<close>

theorem merge_sources_is_union:
  assumes "MergeSources uses = Inr result"
  shows "sorted (map an_address result) \<and> distinct (map an_address result) \<and>
    set result = {n. (\<exists>use \<in> set uses. \<exists>u \<in> set use. an_address u = an_address n) \<and>
      an_tcp_only n = (\<forall>use \<in> set uses. \<forall>u \<in> set use. an_address u = an_address n \<longrightarrow> an_tcp_only u)} \<and>
    (\<forall>uses'. set (concat uses') = set (concat uses) \<longrightarrow> MergeSources uses' = Inr result)"
proof -
  have size: "length m = card (an_address ` set ns)" if "merge_loop [] ns = Some m" for ns m
    using distinct_card [OF merge_loop_nodes(1) [OF that]] merge_loop_nodes(2) [OF that] by simp
  obtain m where m: "merge_loop [] (concat uses) = Some m" "length m \<le> 128" "result = merged_nodes m"
    using assms by (auto simp: MergeSources_def merged_nodes_def split: option.splits if_splits)
  note nodes = merge_loop_nodes [OF m(1)]
  note res = merged_nodes_props [OF nodes(1), folded m(3)]
  have set: "set result = {n. an_address n \<in> an_address ` set (concat uses) \<and>
      an_tcp_only n = (\<forall>u \<in> set (concat uses). an_address u = an_address n \<longrightarrow> an_tcp_only u)}"
    unfolding res(3) nodes(3) by (rule refl)
  then have shown: "set result = {n. (\<exists>use \<in> set uses. \<exists>u \<in> set use. an_address u = an_address n) \<and>
      an_tcp_only n = (\<forall>use \<in> set uses. \<forall>u \<in> set use. an_address u = an_address n \<longrightarrow> an_tcp_only u)}"
    unfolding set
  proof (intro Collect_cong conj_cong)
    show "(an_address n \<in> an_address ` set (concat uses)) = (\<exists>use \<in> set uses. \<exists>u \<in> set use. an_address u = an_address n)"
      for n :: authorized_node unfolding image_iff by (simp add: eq_commute [of "an_address n"])
  qed simp
  have tail: "\<forall>n \<in> set (concat uses). tailnetIPv4 (an_address n)" using merge_loop_map [OF m(1)] by simp
  have "MergeSources uses' = Inr result" if same: "set (concat uses') = set (concat uses)" for uses'
  proof -
    obtain m' where m': "merge_loop [] (concat uses') = Some m'"
      using merge_loop_total [of "concat uses'" "[]"] tail [folded same] by blast
    note nodes' = merge_loop_nodes [OF m']
    have "length m' = length m"
      using size [OF m(1)] size [OF m'] same by (simp del: set_concat)
    moreover have "set (merged_nodes m') = set result"
      unfolding merged_nodes_props(3) [OF nodes'(1)] nodes'(3) same set by (rule refl)
    then have "merged_nodes m' = result"
      using merged_nodes_props(1,2) [OF nodes'(1)] res(1,2)
      by (intro map_sorted_distinct_set_unique [where f = an_address]) (simp_all add: distinct_map)
    ultimately show ?thesis using m' m(2) by (simp add: MergeSources_def merged_nodes_def)
  qed
  then show ?thesis using res(1,2) shown by (intro conjI allI impI)
qed

theorem merge_sources_is_union_witness:
  "MergeSources [[\<lparr>an_address = ''100.64.0.9'', an_tcp_only = True\<rparr>],
      [\<lparr>an_address = ''100.64.0.2'', an_tcp_only = True\<rparr>, \<lparr>an_address = ''100.64.0.9'', an_tcp_only = False\<rparr>]] =
    Inr [\<lparr>an_address = ''100.64.0.2'', an_tcp_only = True\<rparr>, \<lparr>an_address = ''100.64.0.9'', an_tcp_only = False\<rparr>] \<and>
   MergeSources [[\<lparr>an_address = ''100.64.0.9'', an_tcp_only = False\<rparr>, \<lparr>an_address = ''100.64.0.9'', an_tcp_only = True\<rparr>,
      \<lparr>an_address = ''100.64.0.2'', an_tcp_only = True\<rparr>]] =
    Inr [\<lparr>an_address = ''100.64.0.2'', an_tcp_only = True\<rparr>, \<lparr>an_address = ''100.64.0.9'', an_tcp_only = False\<rparr>]"
proof -
  have run: "MergeSources [[\<lparr>an_address = ''100.64.0.9'', an_tcp_only = True\<rparr>],
      [\<lparr>an_address = ''100.64.0.2'', an_tcp_only = True\<rparr>, \<lparr>an_address = ''100.64.0.9'', an_tcp_only = False\<rparr>]] =
    Inr [\<lparr>an_address = ''100.64.0.2'', an_tcp_only = True\<rparr>, \<lparr>an_address = ''100.64.0.9'', an_tcp_only = False\<rparr>]"
    by code_simp
  show ?thesis
    by (intro conjI run merge_sources_is_union [OF run, THEN conjunct2, THEN conjunct2, THEN conjunct2, rule_format]) auto
qed

section \<open>Access rules\<close>

definition rule_key :: "access_rule \<Rightarrow> string \<times> string" where
  "rule_key r = (ar_source r, ar_destination r)"

lemma rule_key_eq: "rule_key r = rule_key x \<longleftrightarrow> ar_source r = ar_source x \<and> ar_destination r = ar_destination x"
  by (simp add: rule_key_def)

lemma rule_key_update [simp]: "rule_key (r\<lparr>ar_tcp_only := t\<rparr>) = rule_key r"
  by (simp add: rule_key_def)

lemma rule_unique: "rule_key r = rule_key x \<Longrightarrow> ar_tcp_only r = ar_tcp_only x \<Longrightarrow> r = x"
  by (simp add: rule_key_def)

lemma NormalizeAccessRules_key:
  "NormalizeAccessRules rules =
     (if length rules > 128 then Inl ''landing: too many access rules''
      else if \<not> list_all rule_valid rules then Inl ''landing: invalid private access rule''
      else Inr (merge_rules [] (sort_key rule_key rules)))"
  unfolding NormalizeAccessRules_def rule_key_def [abs_def] by (rule refl)

text \<open>The pairs a rule list names, each with whether all its rules are TCP-only.\<close>

definition granted :: "access_rule list \<Rightarrow> access_rule set" where
  "granted rs = {r. rule_key r \<in> rule_key ` set rs \<and>
     ar_tcp_only r = (\<forall>x \<in> set rs. rule_key x = rule_key r \<longrightarrow> ar_tcp_only x)}"

lemma granted_merge_step:
  assumes "rule_key l = rule_key r"
  shows "granted ((ls @ [l\<lparr>ar_tcp_only := ar_tcp_only l \<and> ar_tcp_only r\<rparr>]) @ rs) = granted ((ls @ [l]) @ r # rs)"
  using assms by (auto simp: granted_def)

lemma granted_distinct: "distinct (map rule_key rs) \<Longrightarrow> granted rs = set rs"
proof (intro set_eqI iffI)
  fix r assume d: "distinct (map rule_key rs)"
  then have inj: "x = y" if "x \<in> set rs" "y \<in> set rs" "rule_key x = rule_key y" for x y
    using that by (auto simp: distinct_map dest: inj_onD)
  show "r \<in> set rs" if g: "r \<in> granted rs"
  proof -
    obtain x where x: "x \<in> set rs" "rule_key r = rule_key x" using g by (auto simp: granted_def)
    then have "ar_tcp_only r = ar_tcp_only x" using g inj [OF _ x(1)] by (auto simp: granted_def)
    then show ?thesis using x rule_unique by metis
  qed
  show "r \<in> granted rs" if "r \<in> set rs"
    using that inj [OF _ that] by (auto simp: granted_def)
qed

lemma granted_set: "set rs = set rs' \<Longrightarrow> granted rs = granted rs'"
  by (simp add: granted_def)

lemma sorted_last_eq: "sorted (xs @ r # ys) \<Longrightarrow> r \<in> set xs \<Longrightarrow> xs \<noteq> [] \<and> last xs = r"
  by (cases xs rule: rev_cases) (auto simp: sorted_append intro: order_antisym)

lemma last_key:
  assumes "\<not> (acc \<noteq> [] \<and> rule_key (last acc) = rule_key r)" "sorted (map rule_key (acc @ r # rs))"
  shows "rule_key r \<notin> set (map rule_key acc)"
proof
  assume "rule_key r \<in> set (map rule_key acc)"
  then have "map rule_key acc \<noteq> [] \<and> last (map rule_key acc) = rule_key r"
    using sorted_last_eq [of "map rule_key acc" "rule_key r" "map rule_key rs"] assms(2) by simp
  then show False using assms(1) last_map [of acc rule_key] by simp
qed

lemma merge_rules_normal:
  assumes "sorted (map rule_key (acc @ rs))" "distinct (map rule_key acc)"
  shows "sorted (map rule_key (merge_rules acc rs)) \<and> distinct (map rule_key (merge_rules acc rs)) \<and>
    set (merge_rules acc rs) = granted (acc @ rs) \<and> length (merge_rules acc rs) \<le> length acc + length rs"
  using assms
proof (induction acc rs rule: merge_rules.induct)
  case (1 acc)
  then show ?case by (simp add: granted_distinct)
next
  case (2 acc r rs)
  show ?case
  proof (cases "acc \<noteq> [] \<and> rule_key (last acc) = rule_key r")
    case True
    then obtain ls l where acc: "acc = ls @ [l]" "rule_key l = rule_key r" by (metis append_butlast_last_id)
    then show ?thesis
      using 2 granted_merge_step [OF acc(2), of ls rs] by (simp add: sorted_append rule_key_eq)
  next
    case False
    then have "rule_key r \<notin> set (map rule_key acc)" using 2(3) by (rule last_key)
    then have "sorted (map rule_key ((acc @ [r]) @ rs))" "distinct (map rule_key (acc @ [r]))" using 2(3,4) by simp_all
    moreover have step: "\<not> (acc \<noteq> [] \<and> ar_source (last acc) = ar_source r \<and> ar_destination (last acc) = ar_destination r)"
      using False by (simp add: rule_key_eq)
    moreover have "merge_rules acc (r # rs) = merge_rules (acc @ [r]) rs" unfolding merge_rules.simps if_not_P [OF step] by (rule refl)
    ultimately show ?thesis using 2(2) [OF step] by simp
  qed
qed

text \<open>
  C34. Access rules have one normal form, which grants neither more nor less than the rules given: one
  rule per pair of addresses, in order, TCP-only exactly when every rule of that pair is. It does not
  depend on the order of the rules, and normalizing it again changes nothing.
\<close>

theorem access_rules_normal_form:
  assumes "NormalizeAccessRules rules = Inr result"
  shows "sorted (map rule_key result) \<and> distinct (map rule_key result) \<and>
    set result = granted rules \<and> list_all rule_valid result \<and>
    NormalizeAccessRules result = Inr result \<and>
    (\<forall>rules'. mset rules' = mset rules \<longrightarrow> NormalizeAccessRules rules' = Inr result)"
proof -
  have normal: "sorted (map rule_key (merge_rules [] (sort_key rule_key rs)))" "distinct (map rule_key (merge_rules [] (sort_key rule_key rs)))"
    "set (merge_rules [] (sort_key rule_key rs)) = granted rs" "length (merge_rules [] (sort_key rule_key rs)) \<le> length rs" for rs
    using merge_rules_normal [of "[]" "sort_key rule_key rs"] granted_set [of "sort_key rule_key rs" rs] by simp_all
  have unique: "merge_rules [] (sort_key rule_key rs) = merge_rules [] (sort_key rule_key rs')" if "granted rs = granted rs'" for rs rs'
    using normal [of rs] normal [of rs'] that
    by (intro map_sorted_distinct_set_unique [where f = rule_key]) (simp_all add: distinct_map)
  have ok: "length rules \<le> 128" "list_all rule_valid rules" and result: "result = merge_rules [] (sort_key rule_key rules)"
    using assms by (auto simp: NormalizeAccessRules_key split: if_splits)
  note res = normal [of rules, folded result]
  have valid: "list_all rule_valid result"
    using ok(2) res(3) by (force simp: list_all_iff granted_def rule_valid_def rule_key_def)
  have "merge_rules [] (sort_key rule_key result) = result"
    unfolding result by (rule unique) (metis granted_distinct normal(2,3))
  then have "NormalizeAccessRules result = Inr result" using ok(1) res(4) valid by (simp add: NormalizeAccessRules_key)
  moreover have "NormalizeAccessRules rules' = Inr result" if m: "mset rules' = mset rules" for rules'
    using ok unique [OF granted_set [OF mset_eq_setD [OF m]]] mset_eq_setD [OF m] mset_eq_length [OF m]
    by (simp add: NormalizeAccessRules_key result list_all_iff)
  ultimately show ?thesis using res(1-3) valid by (intro conjI allI impI)
qed

theorem access_rules_normal_form_witness:
  "NormalizeAccessRules
     [\<lparr>ar_source = ''100.64.0.2'', ar_destination = ''100.64.0.3'', ar_tcp_only = True\<rparr>,
      \<lparr>ar_source = ''100.64.0.1'', ar_destination = ''100.64.0.3'', ar_tcp_only = True\<rparr>,
      \<lparr>ar_source = ''100.64.0.2'', ar_destination = ''100.64.0.3'', ar_tcp_only = False\<rparr>] =
   Inr [\<lparr>ar_source = ''100.64.0.1'', ar_destination = ''100.64.0.3'', ar_tcp_only = True\<rparr>,
      \<lparr>ar_source = ''100.64.0.2'', ar_destination = ''100.64.0.3'', ar_tcp_only = False\<rparr>] \<and>
   NormalizeAccessRules
     [\<lparr>ar_source = ''100.64.0.1'', ar_destination = ''100.64.0.3'', ar_tcp_only = True\<rparr>,
      \<lparr>ar_source = ''100.64.0.2'', ar_destination = ''100.64.0.3'', ar_tcp_only = False\<rparr>] =
   Inr [\<lparr>ar_source = ''100.64.0.1'', ar_destination = ''100.64.0.3'', ar_tcp_only = True\<rparr>,
      \<lparr>ar_source = ''100.64.0.2'', ar_destination = ''100.64.0.3'', ar_tcp_only = False\<rparr>]"
proof -
  have run: "NormalizeAccessRules
     [\<lparr>ar_source = ''100.64.0.2'', ar_destination = ''100.64.0.3'', ar_tcp_only = True\<rparr>,
      \<lparr>ar_source = ''100.64.0.1'', ar_destination = ''100.64.0.3'', ar_tcp_only = True\<rparr>,
      \<lparr>ar_source = ''100.64.0.2'', ar_destination = ''100.64.0.3'', ar_tcp_only = False\<rparr>] =
   Inr [\<lparr>ar_source = ''100.64.0.1'', ar_destination = ''100.64.0.3'', ar_tcp_only = True\<rparr>,
      \<lparr>ar_source = ''100.64.0.2'', ar_destination = ''100.64.0.3'', ar_tcp_only = False\<rparr>]"
    by code_simp
  show ?thesis using access_rules_normal_form [OF run] run by blast
qed

section \<open>Exits and the native server\<close>

lemma word_xor_zero: "a XOR b = 0 \<Longrightarrow> a = (b :: 'a::len word)"
  by (metis xor.assoc xor.left_neutral xor_self_eq xor.right_neutral)

lemma mesh_first_byte: "v4_prefix [100, 64, 0, 0] 10 (V4 v) \<Longrightarrow> v4_byte 0 v = 100"
proof -
  assume "v4_prefix [100, 64, 0, 0] 10 (V4 v)"
  then have "drop_bit 2 (drop_bit 22 (v XOR bytes_word [100, 64, 0, 0])) = 0" by (simp add: v4_prefix_def)
  then have "drop_bit 24 v XOR 100 = 0" by (simp only: drop_bit_drop_bit drop_bit_xor) simp
  then have "drop_bit 24 v = 100" by (rule word_xor_zero)
  then show ?thesis by (simp add: v4_byte_def)
qed

lemma tailnet_not_egress: "tailnetIPv4 a \<Longrightarrow> \<not> ValidEgressIP a"
  using mesh_first_byte
  by (auto simp: tailnetIPv4_def ValidEgressIP_def PublicIP_def PublicIPv4_def PublicIPv6_def blockedIPv4_def v4_private_def
      v4_prefix_def split: option.splits addr.splits)

lemma source_loop_iff:
  "source_loop plan seen ns = None \<longleftrightarrow>
     distinct (map an_address ns) \<and> set seen \<inter> an_address ` set ns = {} \<and>
     (\<forall>n \<in> set ns. tailnetIPv4 (an_address n) \<and> an_address n \<noteq> sp_address plan \<and>
        (CHR '':'' \<in> set (sp_egress_ip plan) \<longrightarrow> an_tcp_only n))"
  by (induction plan seen ns rule: source_loop.induct) (auto simp: image_iff)

text \<open>
  C35. A native server plan is accepted exactly when its exit is empty or a valid exit, its revision is
  set, it listens on a mesh address and lists at most 128 distinct mesh peers other than itself, all
  of them TCP-only if the exit is IPv6; and then its exit is none of those mesh addresses, so traffic
  of a peer cannot be sent back into the mesh.
\<close>

theorem server_plan_accepted:
  "(server_plan_Validate plan = None) =
     ((sp_egress_ip plan = [] \<or> ValidEgressIP (sp_egress_ip plan)) \<and> 0 < sp_revision plan \<and>
      tailnetIPv4 (sp_address plan) \<and> length (sp_sources plan) \<le> 128 \<and>
      distinct (sp_address plan # map an_address (sp_sources plan)) \<and>
      (\<forall>n \<in> set (sp_sources plan). tailnetIPv4 (an_address n) \<and> (CHR '':'' \<in> set (sp_egress_ip plan) \<longrightarrow> an_tcp_only n))) \<and>
   (server_plan_Validate plan = None \<longrightarrow> sp_egress_ip plan \<notin> set (sp_address plan # map an_address (sp_sources plan)))"
proof -
  have eq: "(server_plan_Validate plan = None) =
     ((sp_egress_ip plan = [] \<or> ValidEgressIP (sp_egress_ip plan)) \<and> 0 < sp_revision plan \<and>
      tailnetIPv4 (sp_address plan) \<and> length (sp_sources plan) \<le> 128 \<and>
      distinct (sp_address plan # map an_address (sp_sources plan)) \<and>
      (\<forall>n \<in> set (sp_sources plan). tailnetIPv4 (an_address n) \<and> (CHR '':'' \<in> set (sp_egress_ip plan) \<longrightarrow> an_tcp_only n)))"
    by (auto simp: server_plan_Validate_def source_loop_iff image_iff)
  have "sp_egress_ip plan \<noteq> a" if "server_plan_Validate plan = None" "tailnetIPv4 a" for a
  proof -
    have "a \<noteq> []" using that(2) by (auto simp: tailnetIPv4_def parse_addr_def)
    then show ?thesis using that(1) tailnet_not_egress [OF that(2)] unfolding eq by blast
  qed
  then have "sp_egress_ip plan \<notin> set (sp_address plan # map an_address (sp_sources plan))" if "server_plan_Validate plan = None"
    using that eq by auto
  then show ?thesis unfolding eq by (intro conjI impI refl)
qed

definition s_plan :: server_plan where
  "s_plan = \<lparr>sp_egress_ip = ''9.9.9.9'', sp_revision = 4, sp_address = ''100.64.0.1'',
     sp_sources = [\<lparr>an_address = ''100.64.0.7'', an_tcp_only = False\<rparr>]\<rparr>"

theorem server_plan_accepted_witness:
  "server_plan_Validate s_plan = None \<and>
   sp_egress_ip s_plan \<notin> set (sp_address s_plan # map an_address (sp_sources s_plan)) \<and>
   server_plan_Validate (s_plan\<lparr>sp_egress_ip := ''2606:4700::1111''\<rparr>) \<noteq> None"
proof -
  have ok: "server_plan_Validate s_plan = None" by code_simp
  have "server_plan_Validate (s_plan\<lparr>sp_egress_ip := ''2606:4700::1111''\<rparr>) \<noteq> None"
    using server_plan_accepted [of "s_plan\<lparr>sp_egress_ip := ''2606:4700::1111''\<rparr>"] by (simp add: s_plan_def)
  then show ?thesis using server_plan_accepted [of s_plan] ok by blast
qed

end
