(* ===== verification/Landing_State.thy ===== *)
theory Landing_State
  imports Landing_Model Stamps
begin

text \<open>
  The startup proof of a landing route (src/internal/landing/monitor.go) and the complete desired
  state of a node (src/internal/landing/state.go): the validity of link and business evidence, the
  run of the monitor around the firewall fence, the validation of a desired state, the peers and
  inbounds it uses and the check of the source machine. Instants are nanoseconds; \<open>zero_time\<close> is
  Go's zero \<^verbatim>\<open>time.Time\<close>.
\<close>

section \<open>Evidence\<close>

text \<open>1 January of the year 1 on the scale of the Unix epoch.\<close>

definition zero_time :: gotime where
  "zero_time = - 62135596800 * second"

definition CheckTimeout :: gotime where
  "CheckTimeout = 3 * second"

definition AllowLifetime :: gotime where
  "AllowLifetime = 15 * second"

definition nftTimeout :: gotime where
  "nftTimeout = 2 * second"

definition UDPRelayFirst :: nat where
  "UDPRelayFirst = 1081"

definition UDPRelayLast :: nat where
  "UDPRelayLast = 1208"

text \<open>\<^verbatim>\<open>netip.ParseAddrPort\<close>.\<close>

definition parse_port :: "string \<Rightarrow> nat option" where
  "parse_port s = (if s = [] \<or> \<not> list_all is_digit s \<or> digits_val s \<ge> 65536 then None else Some (digits_val s))"

definition parse_addr_port :: "string \<Rightarrow> (addr \<times> nat) option" where
  "parse_addr_port s =
     (case last_index s '':'' of
        None \<Rightarrow> None
      | Some i \<Rightarrow>
          let ip = take i s; port = drop (i + 1) s in
          if ip = [] then None
          else let v6 = (hd ip = CHR ''['');
                   ok = (\<not> v6 \<or> length ip \<ge> 2 \<and> last ip = CHR '']'');
                   host = (if v6 then tl (butlast ip) else ip)
            in if \<not> ok then None
               else (case (parse_port port, parse_addr host) of
                       (Some p, Some a) \<Rightarrow> if v6 = (case a of V4 _ \<Rightarrow> False | V6 _ _ \<Rightarrow> True) then Some (a, p) else None
                     | _ \<Rightarrow> None))"

definition validUDPRelay :: "string \<Rightarrow> string \<Rightarrow> bool" where
  "validUDPRelay value peerAddress =
     (case parse_addr_port value of
        None \<Rightarrow> False
      | Some (a, p) \<Rightarrow> addr_string a = peerAddress \<and> UDPRelayFirst \<le> p \<and> p \<le> UDPRelayLast)"

record link_result =
  lr_state :: string
  lr_reason :: string
  lr_started_at :: gotime
  lr_checked_at :: gotime

record business_result =
  br_peer :: peer_identity
  br_revision :: nat
  br_tcp :: bool
  br_udp :: bool
  br_udp_relay :: string
  br_exit_ip :: string
  br_started_at :: gotime
  br_checked_at :: gotime

text \<open>The fields of \<^verbatim>\<open>TrafficGate\<close> the proof is about.\<close>

record traffic_gate =
  tg_peer :: peer_identity
  tg_revision :: nat

definition businessCheckTimeout :: "bool \<Rightarrow> gotime" where
  "businessCheckTimeout tcpOnly = (if tcpOnly then 20 * second else CheckTimeout)"

definition validLink :: "gotime \<Rightarrow> link_result \<Rightarrow> bool" where
  "validLink now r =
     (lr_state r = ''direct'' \<and> lr_reason r = ''fresh_disco_direct_response'' \<and> lr_started_at r \<noteq> zero_time \<and>
      \<not> lr_checked_at r < lr_started_at r \<and> lr_checked_at r - lr_started_at r \<le> CheckTimeout \<and> \<not> lr_checked_at r > now)"

definition leaseDeadlineForTransport ::
  "traffic_gate \<Rightarrow> link_result \<Rightarrow> business_result \<Rightarrow> link_result \<Rightarrow> gotime \<Rightarrow> bool \<Rightarrow> gotime \<times> bool" where
  "leaseDeadlineForTransport gate before business after now tcpOnly =
     (if \<not> validLink now before \<or> \<not> validLink now after \<or> br_peer business \<noteq> tg_peer gate \<or>
         br_revision business \<noteq> tg_revision gate \<or> \<not> br_tcp business \<or>
         br_started_at business < lr_checked_at before \<or> br_checked_at business < br_started_at business \<or>
         br_checked_at business - br_started_at business > businessCheckTimeout tcpOnly \<or>
         lr_started_at after < br_checked_at business \<or>
         (\<not> tcpOnly \<and> (\<not> br_udp business \<or> \<not> validUDPRelay (br_udp_relay business) (pi_address (tg_peer gate))))
      then (zero_time, False)
      else case parse_addr (br_exit_ip business) of
        None \<Rightarrow> (zero_time, False)
      | Some address \<Rightarrow>
          if \<not> PublicIP address then (zero_time, False)
          else let deadline = lr_started_at before + AllowLifetime in
            (deadline, deadline > now + (nftTimeout + second)))"

definition leaseDeadline ::
  "traffic_gate \<Rightarrow> link_result \<Rightarrow> business_result \<Rightarrow> link_result \<Rightarrow> gotime \<Rightarrow> gotime \<times> bool" where
  "leaseDeadline gate before business after now = leaseDeadlineForTransport gate before business after now False"

section \<open>The startup monitor\<close>

text \<open>
  What a run meets: the outcome of installing and removing the fence, the answers of the link
  checker and of the business probe, the clock after the last check and whether the context ended.
  The gate, the checker and the report are present; a missing probe is \<open>ms_complete = False\<close>.
\<close>

record monitor_script =
  ms_complete :: bool
  ms_install :: "string option"
  ms_before :: link_result
  ms_business :: "string + business_result"
  ms_after :: link_result
  ms_now :: gotime
  ms_cancelled :: bool
  ms_remove :: "string option"

record monitor_status =
  mo_revision :: nat
  mo_state :: string
  mo_reason :: string
  mo_link_state :: string
  mo_tcp :: bool
  mo_udp :: bool
  mo_exit_ip :: string

datatype monitor_effect = FenceInstalled | FenceRemoved | Reported monitor_status | LinksClosed

definition startup_failed :: "traffic_gate \<Rightarrow> monitor_status" where
  "startup_failed gate = \<lparr>mo_revision = tg_revision gate, mo_state = ''blocked'', mo_reason = ''startup_failed'',
     mo_link_state = [], mo_tcp = False, mo_udp = False, mo_exit_ip = []\<rparr>"

definition startup_ready :: "traffic_gate \<Rightarrow> link_result \<Rightarrow> business_result \<Rightarrow> monitor_status" where
  "startup_ready gate after business = \<lparr>mo_revision = tg_revision gate, mo_state = ''healthy'', mo_reason = ''startup_ready'',
     mo_link_state = lr_state after, mo_tcp = br_tcp business, mo_udp = br_udp business, mo_exit_ip = br_exit_ip business\<rparr>"

text \<open>The body of \<^verbatim>\<open>Run\<close> and its error, without the deferred calls.\<close>

definition monitor_body :: "traffic_gate \<Rightarrow> bool \<Rightarrow> monitor_script \<Rightarrow> monitor_effect list \<times> string option" where
  "monitor_body gate tcpOnly m =
     (if \<not> ms_complete m then ([], Some ''landing: incomplete startup check'')
      else case ms_install m of
        Some err \<Rightarrow> ([], Some err)
      | None \<Rightarrow>
          if lr_state (ms_before m) \<noteq> ''direct''
          then ([FenceInstalled], Some ''landing: startup peer identity unavailable'')
          else case ms_business m of
            Inl err \<Rightarrow> ([FenceInstalled], Some err)
          | Inr business \<Rightarrow>
              if \<not> snd (leaseDeadlineForTransport gate (ms_before m) business (ms_after m) (ms_now m) tcpOnly) \<or> ms_cancelled m
              then ([FenceInstalled], Some ''landing: startup route proof invalid'')
              else case ms_remove m of
                Some err \<Rightarrow> ([FenceInstalled], Some err)
              | None \<Rightarrow> ([FenceInstalled, FenceRemoved, Reported (startup_ready gate (ms_after m) business)], None))"

text \<open>
  \<^verbatim>\<open>Run\<close> with its deferred calls, in the order Go runs them: the report of a failure, then the
  release of the connections.
\<close>

definition Monitor_Run :: "traffic_gate \<Rightarrow> bool \<Rightarrow> monitor_script \<Rightarrow> monitor_effect list \<times> string option" where
  "Monitor_Run gate tcpOnly m =
     (case monitor_body gate tcpOnly m of
        (effects, None) \<Rightarrow> (effects @ [LinksClosed], None)
      | (effects, Some err) \<Rightarrow> (effects @ [Reported (startup_failed gate), LinksClosed], Some err))"

section \<open>The desired state\<close>

record client_block =
  cb_parent :: string
  cb_inbound :: string
  cb_user :: string
  cb_identity :: string

record client_plan =
  cp_application :: string
  cp_source :: peer_identity
  cp_grants :: "client_grant list"
  cp_blocked :: "client_block list"
  cp_session_reset :: bool

record proxy_plan =
  pp_application :: string
  pp_inbounds :: "string list"
  pp_peer :: peer_identity

record desired_state =
  ds_node :: string
  ds_revision :: nat
  ds_server :: "server_plan option"
  ds_proxy :: "proxy_plan option"
  ds_clients :: "client_plan option"

definition CheckSource :: "client_plan \<Rightarrow> peer_identity \<Rightarrow> string option" where
  "CheckSource plan actual =
     (if list_ex (\<lambda>g. cg_enabled g \<and>
          (pi_id (cp_source plan) = [] \<or> pi_public_key (cp_source plan) = [] \<or> \<not> tailnetIPv4 (pi_address (cp_source plan)) \<or>
           actual \<noteq> cp_source plan)) (cp_grants plan)
      then Some ''landing: entry private identity changed; revoke and authorize the replacement''
      else None)"

definition ApplicationID :: "desired_state \<Rightarrow> string" where
  "ApplicationID state =
     (case ds_proxy state of Some p \<Rightarrow> pp_application p
      | None \<Rightarrow> (case ds_clients state of Some c \<Rightarrow> cp_application c | None \<Rightarrow> []))"

definition Active :: "desired_state \<Rightarrow> bool" where
  "Active state = (ds_proxy state \<noteq> None \<or> ds_clients state \<noteq> None)"

fun inbound_loop :: "string list \<Rightarrow> client_grant list \<Rightarrow> string list" where
  "inbound_loop tags [] = tags"
| "inbound_loop tags (g # gs) =
     inbound_loop (if cg_enabled g \<and> cg_inbound g \<notin> set tags then tags @ [cg_inbound g] else tags) gs"

definition grants_of :: "desired_state \<Rightarrow> client_grant list" where
  "grants_of state = (case ds_clients state of None \<Rightarrow> [] | Some c \<Rightarrow> cp_grants c)"

definition Inbounds :: "desired_state \<Rightarrow> string list" where
  "Inbounds state =
     sort (inbound_loop (case ds_proxy state of None \<Rightarrow> [] | Some p \<Rightarrow> pp_inbounds p) (grants_of state))"

record peer_use =
  pu_peer :: peer_identity
  pu_tcp_only :: bool
  pu_active :: bool

text \<open>The map \<^verbatim>\<open>uses\<close> by peer id; a missing entry reads as not active.\<close>

fun use_loop :: "(string \<times> peer_use) list \<Rightarrow> client_grant list \<Rightarrow> (string \<times> peer_use) list" where
  "use_loop uses [] = uses"
| "use_loop uses (g # gs) =
     use_loop (AList.update (pi_id (cg_peer g))
       \<lparr>pu_peer = cg_peer g, pu_tcp_only = True,
        pu_active = ((case map_of uses (pi_id (cg_peer g)) of None \<Rightarrow> False | Some u \<Rightarrow> pu_active u) \<or> cg_enabled g)\<rparr> uses) gs"

definition PeerUses :: "desired_state \<Rightarrow> peer_use list" where
  "PeerUses state =
     (let uses = use_loop [] (grants_of state);
          uses = (case ds_proxy state of None \<Rightarrow> uses
                  | Some p \<Rightarrow> AList.update (pi_id (pp_peer p)) \<lparr>pu_peer = pp_peer p, pu_tcp_only = False, pu_active = True\<rparr> uses)
      in sort_key (\<lambda>u. pi_id (pu_peer u)) (map snd uses))"

fun tag_loop :: "string list \<Rightarrow> string list \<Rightarrow> string option" where
  "tag_loop seen [] = None"
| "tag_loop seen (t # ts) =
     (if t = [] \<or> length t > 128 \<or> trim_space t \<noteq> t \<or> t \<in> set seen
      then Some ''landing: invalid managed inbound selection'' else tag_loop (t # seen) ts)"

definition proxy_error :: "desired_state \<Rightarrow> string option" where
  "proxy_error state =
     (case ds_proxy state of
        None \<Rightarrow> None
      | Some proxy \<Rightarrow>
          if pp_application proxy = [] \<or> \<not> tailnetIPv4 (pi_address (pp_peer proxy)) \<or> pi_id (pp_peer proxy) = [] \<or>
             pi_public_key (pp_peer proxy) = [] \<or> pp_inbounds proxy = [] \<or> length (pp_inbounds proxy) > 128
          then Some ''landing: invalid proxy plan''
          else if (case ds_server state of None \<Rightarrow> False | Some s \<Rightarrow> sp_address s = pi_address (pp_peer proxy))
          then Some ''landing: a node cannot use itself as a remote landing peer''
          else tag_loop [] (pp_inbounds proxy))"

definition block_valid :: "client_block \<Rightarrow> bool" where
  "block_valid b =
     (validGrantID (cb_parent b) \<and> validRouteUser (cb_user b) \<and> validIdentity (cb_identity b) \<and> cb_inbound b \<noteq> [] \<and>
      trim_space (cb_inbound b) = cb_inbound b \<and> length (cb_inbound b) \<le> 128)"

text \<open>The loop over the grants with the maps \<^verbatim>\<open>seen\<close>, \<^verbatim>\<open>peers\<close> and \<^verbatim>\<open>addresses\<close>.\<close>

fun grant_loop ::
  "(string \<Rightarrow> string) \<Rightarrow> string list \<Rightarrow> (string \<rightharpoonup> peer_identity) \<Rightarrow> (string \<rightharpoonup> string) \<Rightarrow> client_grant list \<Rightarrow> string option" where
  "grant_loop tag seen peers addresses [] = None"
| "grant_loop tag seen peers addresses (g # gs) =
     (case client_grant_Validate tag g of
        Some err \<Rightarrow> Some err
      | None \<Rightarrow>
          if cg_id g \<in> set seen then Some ''landing: duplicate client grant''
          else if (case peers (pi_id (cg_peer g)) of None \<Rightarrow> False | Some p \<Rightarrow> p \<noteq> cg_peer g)
          then Some ''landing: conflicting peer identity''
          else if (case addresses (pi_address (cg_peer g)) of None \<Rightarrow> False | Some i \<Rightarrow> i \<noteq> pi_id (cg_peer g))
          then Some ''landing: shared peer address''
          else grant_loop tag (cg_id g # seen) (peers(pi_id (cg_peer g) \<mapsto> cg_peer g))
                 (addresses(pi_address (cg_peer g) \<mapsto> pi_id (cg_peer g))) gs)"

definition clients_error :: "(string \<Rightarrow> string) \<Rightarrow> desired_state \<Rightarrow> string option" where
  "clients_error tag state =
     (case ds_clients state of
        None \<Rightarrow> None
      | Some c \<Rightarrow>
          if cp_application c = [] \<or> \<not> cp_session_reset c \<or> length (cp_grants c) + length (cp_blocked c) = 0 \<or>
             length (cp_grants c) > 512 \<or> length (cp_blocked c) > 512 \<or> ds_server state \<noteq> None \<or>
             (case ds_proxy state of None \<Rightarrow> False | Some p \<Rightarrow> pp_application p \<noteq> cp_application c)
          then Some ''landing: invalid client plan or missing session reset approval''
          else case CheckSource c (cp_source c) of
            Some err \<Rightarrow> Some err
          | None \<Rightarrow>
              if \<not> list_all block_valid (cp_blocked c) then Some ''landing: invalid account block''
              else grant_loop tag []
                     (case ds_proxy state of None \<Rightarrow> Map.empty | Some p \<Rightarrow> [pi_id (pp_peer p) \<mapsto> pp_peer p])
                     (case ds_proxy state of None \<Rightarrow> Map.empty | Some p \<Rightarrow> [pi_address (pp_peer p) \<mapsto> pi_id (pp_peer p)])
                     (cp_grants c))"

definition server_error :: "desired_state \<Rightarrow> string option" where
  "server_error state =
     (case ds_server state of
        None \<Rightarrow> None
      | Some s \<Rightarrow>
          if sp_revision s \<noteq> ds_revision state then Some ''landing: mismatched native server revision''
          else server_plan_Validate s)"

definition desired_state_Validate :: "(string \<Rightarrow> string) \<Rightarrow> desired_state \<Rightarrow> string option" where
  "desired_state_Validate tag state =
     (if ds_node state = [] \<or> ds_revision state = 0 \<or> ds_revision state > 2 ^ 62
      then Some ''landing: invalid desired state identity''
      else case server_error state of Some err \<Rightarrow> Some err
      | None \<Rightarrow> (case proxy_error state of Some err \<Rightarrow> Some err | None \<Rightarrow> clients_error tag state))"

record server_state =
  ss_node :: string
  ss_revision :: nat
  ss_plan :: "server_plan option"

definition server_state_Validate :: "(string \<Rightarrow> string) \<Rightarrow> server_state \<Rightarrow> string option" where
  "server_state_Validate tag s =
     desired_state_Validate tag \<lparr>ds_node = ss_node s, ds_revision = ss_revision s, ds_server = ss_plan s,
       ds_proxy = None, ds_clients = None\<rparr>"

end
