(* ===== verification/Landing_Safety.thy ===== *)
theory Landing_Safety
  imports Landing_State
begin

text \<open>
  What the startup check and a validated desired state guarantee: the fence around a route is removed
  only with fresh, ordered evidence for exactly this peer and revision, and the peers of an accepted
  state are unambiguous machines.
\<close>

section \<open>Startup evidence\<close>

lemmas lease_defs = leaseDeadlineForTransport_def validLink_def businessCheckTimeout_def
  CheckTimeout_def AllowLifetime_def nftTimeout_def second_def

lemma lease_evidence:
  assumes "snd (leaseDeadlineForTransport gate before business after now tcpOnly)"
  shows "br_peer business = tg_peer gate" "br_revision business = tg_revision gate" "br_tcp business"
    "tcpOnly \<or> br_udp business \<and> validUDPRelay (br_udp_relay business) (pi_address (tg_peer gate))"
    "\<exists>a. parse_addr (br_exit_ip business) = Some a \<and> PublicIP a"
    "sorted [lr_started_at before, lr_checked_at before, br_started_at business, br_checked_at business,
       lr_started_at after, lr_checked_at after, now]"
    "now < lr_started_at before + 12 * second"
  using assms by (auto simp: lease_defs Let_def split: if_splits option.splits)

lemma monitor_body_pass:
  "monitor_body gate tcpOnly m = (fx, None) \<Longrightarrow>
    \<exists>business. ms_business m = Inr business \<and> \<not> ms_cancelled m \<and>
      snd (leaseDeadlineForTransport gate (ms_before m) business (ms_after m) (ms_now m) tcpOnly) \<and>
      fx = [FenceInstalled, FenceRemoved, Reported (startup_ready gate (ms_after m) business)]"
  by (simp add: monitor_body_def split: if_splits option.splits sum.splits)

lemma monitor_body_fail: "monitor_body gate tcpOnly m = (fx, Some err) \<Longrightarrow> set fx \<subseteq> {FenceInstalled}"
  by (auto simp: monitor_body_def split: if_splits option.splits sum.splits)


definition s_peer :: peer_identity where
  "s_peer = \<lparr>pi_id = ''n1'', pi_public_key = ''nodekey:1'', pi_address = ''100.64.0.9''\<rparr>"

definition s_link :: "gotime \<Rightarrow> link_result" where
  "s_link t = \<lparr>lr_state = ''direct'', lr_reason = ''fresh_disco_direct_response'', lr_started_at = t, lr_checked_at = t + second\<rparr>"

definition s_script :: monitor_script where
  "s_script = \<lparr>ms_complete = True, ms_install = None, ms_before = s_link 0,
     ms_business = Inr \<lparr>br_peer = s_peer, br_revision = 3, br_tcp = True, br_udp = False, br_udp_relay = [],
       br_exit_ip = ''9.9.9.9'', br_started_at = 2 * second, br_checked_at = 3 * second\<rparr>,
     ms_after = s_link (4 * second), ms_now = 6 * second, ms_cancelled = False, ms_remove = None\<rparr>"


section \<open>Peers of a desired state\<close>

lemma use_loop_map:
  "map_of (use_loop uses gs) i =
     (case filter (\<lambda>g. pi_id (cg_peer g) = i) gs of
        [] \<Rightarrow> map_of uses i
      | x # xs \<Rightarrow> Some \<lparr>pu_peer = cg_peer (last (x # xs)), pu_tcp_only = True,
          pu_active = ((case map_of uses i of None \<Rightarrow> False | Some u \<Rightarrow> pu_active u) \<or> list_ex cg_enabled (x # xs))\<rparr>)"
  by (induction uses gs rule: use_loop.induct)
    (auto simp: update_conv' simp del: map_of_eq_Some_iff split: list.splits option.splits)

lemma use_loop_keys: "distinct (map fst uses) \<Longrightarrow> distinct (map fst (use_loop uses gs))"
  by (induction uses gs rule: use_loop.induct) (simp_all add: distinct_update)

lemma grant_loop_step:
  assumes "grant_loop tag seen peers addresses (g # gs) = None"
  shows "client_grant_Validate tag g = None" "cg_id g \<notin> set seen"
    "peers (pi_id (cg_peer g)) \<in> {None, Some (cg_peer g)}" "addresses (pi_address (cg_peer g)) \<in> {None, Some (pi_id (cg_peer g))}"
    "grant_loop tag (cg_id g # seen) (peers(pi_id (cg_peer g) \<mapsto> cg_peer g))
        (addresses(pi_address (cg_peer g) \<mapsto> pi_id (cg_peer g))) gs = None"
  using assms by (simp_all split: option.splits if_splits)

declare grant_loop.simps(2) [simp del]

lemma upd_value: "(m(k \<mapsto> v)) k' \<in> {None, Some v'} \<Longrightarrow> k' = k \<Longrightarrow> v' = v"
  by simp

lemma upd_before: "m k \<in> {None, Some v} \<Longrightarrow> (m(k \<mapsto> v)) k' \<in> {None, Some v'} \<Longrightarrow> m k' \<in> {None, Some v'}"
  by (cases "k' = k") auto

lemma grant_loop_kept:
  "grant_loop tag seen peers addresses gs = None \<Longrightarrow> h \<in> set gs \<Longrightarrow>
    client_grant_Validate tag h = None \<and> cg_id h \<notin> set seen \<and> peers (pi_id (cg_peer h)) \<in> {None, Some (cg_peer h)} \<and>
    addresses (pi_address (cg_peer h)) \<in> {None, Some (pi_id (cg_peer h))}"
proof (induction gs arbitrary: seen peers addresses)
  case (Cons g gs)
  note step = grant_loop_step [OF Cons.prems(1)]
  show ?case
  proof (cases "h = g")
    case False
    then have "h \<in> set gs" using Cons.prems(2) by simp
    note IH = Cons.IH [OF step(5) this]
    show ?thesis
    proof (intro conjI)
      show "client_grant_Validate tag h = None" using IH by blast
      show "cg_id h \<notin> set seen" using IH by simp
      show "peers (pi_id (cg_peer h)) \<in> {None, Some (cg_peer h)}"
        by (rule upd_before [where m = peers, OF step(3)]) (use IH in blast)
      show "addresses (pi_address (cg_peer h)) \<in> {None, Some (pi_id (cg_peer h))}"
        by (rule upd_before [where m = addresses, OF step(4)]) (use IH in blast)
    qed
  next
    case True
    show ?thesis unfolding True using step(1-4) by (intro conjI)
  qed
qed simp

definition same_machines :: "peer_identity list \<Rightarrow> bool" where
  "same_machines ps = (\<forall>p \<in> set ps. \<forall>q \<in> set ps. pi_id p = pi_id q \<or> pi_address p = pi_address q \<longrightarrow> p = q)"

lemma same_machines_Cons:
  assumes "same_machines ps" "\<And>q. q \<in> set ps \<Longrightarrow> pi_id q = pi_id p \<or> pi_address q = pi_address p \<Longrightarrow> q = p"
  shows "same_machines (p # ps)"
  unfolding same_machines_def
proof (intro ballI impI)
  fix q r
  assume "q \<in> set (p # ps)" "r \<in> set (p # ps)" and eq: "pi_id q = pi_id r \<or> pi_address q = pi_address r"
  then consider "q = p" "r = p" | "q = p" "r \<in> set ps" | "q \<in> set ps" "r = p" | "q \<in> set ps" "r \<in> set ps" by auto
  then show "q = r"
  proof cases
    case 2
    have "r = p" by (rule assms(2) [OF 2(2)]) (use eq 2(1) in metis)
    then show ?thesis using 2(1) by (rule trans [OF _ sym, rotated])
  next
    case 3
    have "q = p" by (rule assms(2) [OF 3(1)]) (use eq 3(2) in metis)
    then show ?thesis using 3(2) by (rule trans [OF _ sym])
  next
    case 4
    then show ?thesis using assms(1) eq by (auto simp: same_machines_def)
  qed (rule trans [OF _ sym])
qed

lemma grant_loop_machines:
  "grant_loop tag seen peers addresses gs = None \<Longrightarrow> same_machines (map cg_peer gs) \<and> distinct (map cg_id gs)"
proof (induction gs arbitrary: seen peers addresses)
  case (Cons g gs)
  note step = grant_loop_step [OF Cons.prems(1)]
  have id: "cg_peer h = cg_peer g" if "h \<in> set gs" "pi_id (cg_peer h) = pi_id (cg_peer g)" for h
    by (rule upd_value [where m = peers, OF _ that(2)]) (use grant_loop_kept [OF step(5) that(1)] in blast)
  have at: "cg_peer h = cg_peer g" if "h \<in> set gs" "pi_address (cg_peer h) = pi_address (cg_peer g)" for h
    by (rule id [OF that(1)], rule upd_value [where m = addresses, OF _ that(2)])
      (use grant_loop_kept [OF step(5) that(1)] in blast)
  have "cg_id g \<noteq> cg_id h" if "h \<in> set gs" for h
    using grant_loop_kept [OF step(5) that] by (metis list.set_intros(1))
  then have "cg_id g \<notin> cg_id ` set gs" by blast
  moreover have "same_machines (map cg_peer (g # gs))"
    unfolding list.map by (rule same_machines_Cons) (use Cons.IH [OF step(5)] id at in auto)
  ultimately show ?case using Cons.IH [OF step(5)] by simp
qed (simp add: same_machines_def)

definition forced_peer :: "desired_state \<Rightarrow> peer_identity option" where
  "forced_peer d = map_option pp_peer (ds_proxy d)"

definition all_peers :: "desired_state \<Rightarrow> peer_identity list" where
  "all_peers d = (case forced_peer d of None \<Rightarrow> [] | Some p \<Rightarrow> [p]) @ map cg_peer (grants_of d)"

lemma validated_machines:
  assumes "desired_state_Validate tag d = None"
  shows "same_machines (all_peers d)"
proof (cases "ds_clients d")
  case None
  then show ?thesis by (cases "forced_peer d") (simp_all add: all_peers_def grants_of_def same_machines_def)
next
  case (Some c)
  have err: "clients_error tag d = None" using assms by (simp add: desired_state_Validate_def split: if_splits option.splits)
  show ?thesis
  proof (cases "ds_proxy d")
    case None
    have "grant_loop tag [] Map.empty Map.empty (cp_grants c) = None"
      using err Some None by (simp add: clients_error_def split: if_splits option.splits)
    then show ?thesis using grant_loop_machines Some None by (simp add: all_peers_def forced_peer_def grants_of_def)
  next
    case (Some p)
    have loop: "grant_loop tag [] [pi_id (pp_peer p) \<mapsto> pp_peer p] [pi_address (pp_peer p) \<mapsto> pi_id (pp_peer p)] (cp_grants c) = None"
      using err \<open>ds_clients d = Some c\<close> Some by (simp add: clients_error_def split: if_splits option.splits)
    have id: "cg_peer h = pp_peer p" if "h \<in> set (cp_grants c)" "pi_id (cg_peer h) = pi_id (pp_peer p)" for h
      by (rule upd_value [where m = Map.empty, OF _ that(2)]) (use grant_loop_kept [OF loop that(1)] in blast)
    have at: "cg_peer h = pp_peer p" if "h \<in> set (cp_grants c)" "pi_address (cg_peer h) = pi_address (pp_peer p)" for h
      by (rule id [OF that(1)], rule upd_value [where m = Map.empty, OF _ that(2)])
        (use grant_loop_kept [OF loop that(1)] in blast)
    have "same_machines (pp_peer p # map cg_peer (cp_grants c))"
      by (rule same_machines_Cons) (use grant_loop_machines [OF loop] id at in auto)
    then show ?thesis using Some \<open>ds_clients d = Some c\<close> by (simp add: all_peers_def forced_peer_def grants_of_def)
  qed
qed

text \<open>The map of uses before it is listed.\<close>

definition use_map :: "desired_state \<Rightarrow> (string \<times> peer_use) list" where
  "use_map d =
     (case forced_peer d of None \<Rightarrow> use_loop [] (grants_of d)
      | Some p \<Rightarrow> AList.update (pi_id p) \<lparr>pu_peer = p, pu_tcp_only = False, pu_active = True\<rparr> (use_loop [] (grants_of d)))"

lemma PeerUses_use_map: "PeerUses d = sort_key (\<lambda>u. pi_id (pu_peer u)) (map snd (use_map d))"
  by (simp add: PeerUses_def use_map_def forced_peer_def Let_def split: option.split)

lemma use_map_distinct: "distinct (map fst (use_map d))"
  by (simp add: use_map_def use_loop_keys distinct_update split: option.split)

text \<open>The use of a peer: forced, or by the grants for it.\<close>

definition use_of :: "desired_state \<Rightarrow> peer_identity \<Rightarrow> peer_use" where
  "use_of d p = \<lparr>pu_peer = p, pu_tcp_only = (forced_peer d \<noteq> Some p),
     pu_active = (forced_peer d = Some p \<or> (\<exists>g \<in> set (grants_of d). cg_peer g = p \<and> cg_enabled g))\<rparr>"

lemma use_map_lookup:
  assumes "same_machines (all_peers d)"
  shows "map_of (use_map d) i = Some u \<longleftrightarrow> (\<exists>p \<in> set (all_peers d). pi_id p = i \<and> u = use_of d p)"
proof -
  have one: "q = p" if "p \<in> set (all_peers d)" "q \<in> set (all_peers d)" "pi_id q = pi_id p" for p q
    using assms that unfolding same_machines_def by blast
  have unique: ?thesis if "q \<in> set (all_peers d)" "pi_id q = i" "map_of (use_map d) i = Some (use_of d q)" for q
    using that one by (metis option.inject)
  show ?thesis
  proof (cases "\<exists>p. forced_peer d = Some p \<and> pi_id p = i")
    case True
    then obtain p where p: "forced_peer d = Some p" "pi_id p = i" by blast
    show ?thesis by (rule unique [of p]) (use p in \<open>simp_all add: all_peers_def use_map_def use_of_def update_conv'\<close>)
  next
    case False
    let ?F = "filter (\<lambda>g. pi_id (cg_peer g) = i) (grants_of d)"
    have look: "map_of (use_map d) i = map_of (use_loop [] (grants_of d)) i"
      using False by (auto simp: use_map_def update_conv' split: option.split)
    show ?thesis
    proof (cases ?F)
      case Nil
      then have "pi_id p \<noteq> i" if "p \<in> set (all_peers d)" for p
        using that False by (cases "forced_peer d") (auto simp: all_peers_def filter_empty_conv)
      then show ?thesis using Nil unfolding look use_loop_map by auto
    next
      case (Cons x xs)
      let ?q = "cg_peer (last ?F)"
      have last: "last ?F \<in> set ?F" using Cons by (metis last_in_set list.discI)
      then have q: "?q \<in> set (all_peers d)" "pi_id ?q = i" by (auto simp: all_peers_def)
      have same: "pi_id (cg_peer g) = i \<longleftrightarrow> cg_peer g = ?q" if "g \<in> set (grants_of d)" for g
        using one [OF q(1), of "cg_peer g"] q(2) that by (auto simp: all_peers_def)
      have "list_ex cg_enabled ?F = (\<exists>g \<in> set (grants_of d). cg_peer g = ?q \<and> cg_enabled g)"
        unfolding list_ex_iff set_filter using same by blast
      moreover have "forced_peer d \<noteq> Some ?q" using False q(2) by blast
      ultimately have "map_of (use_map d) i = Some (use_of d ?q)"
        unfolding look use_loop_map use_of_def using Cons by simp
      then show ?thesis by (rule unique [OF q])
    qed
  qed
qed

text \<open>
  C36. The peers of a validated desired state are unambiguous machines: the uses are listed in order of
  the peer id, no two share an id or an address, they are exactly the forced peer and the peers of the
  grants, a peer is limited to TCP unless it is the forced one, and it is active exactly when it is
  forced or one of its grants is enabled.
\<close>

theorem peer_uses_unambiguous:
  assumes "desired_state_Validate tag d = None"
  shows "sorted (map (\<lambda>u. pi_id (pu_peer u)) (PeerUses d)) \<and>
    distinct (map (\<lambda>u. pi_id (pu_peer u)) (PeerUses d)) \<and> distinct (map (\<lambda>u. pi_address (pu_peer u)) (PeerUses d)) \<and>
    set (PeerUses d) = use_of d ` set (all_peers d)"
proof -
  note one = validated_machines [OF assms]
  note look = use_map_lookup [OF one]
  have mem: "(i, u) \<in> set (use_map d) \<longleftrightarrow> (\<exists>p \<in> set (all_peers d). pi_id p = i \<and> u = use_of d p)" for i u
    using look [of i u] use_map_distinct [of d] by simp
  have ids: "map (\<lambda>u. pi_id (pu_peer u)) (map snd (use_map d)) = map fst (use_map d)"
    unfolding map_map by (rule map_cong [OF refl]) (use mem in \<open>auto simp: use_of_def\<close>)
  have set: "set (PeerUses d) = use_of d ` set (all_peers d)"
    unfolding PeerUses_use_map set_sort set_map using mem by force
  have "mset (map (\<lambda>u. pi_id (pu_peer u)) (PeerUses d)) = mset (map fst (use_map d))"
    unfolding PeerUses_use_map ids [symmetric] by (simp only: mset_map mset_sort)
  then have distinct: "distinct (map (\<lambda>u. pi_id (pu_peer u)) (PeerUses d))"
    using use_map_distinct by (metis mset_eq_imp_distinct_iff)
  have "inj_on (\<lambda>u. pi_address (pu_peer u)) (set (PeerUses d))"
    unfolding set
  proof (rule inj_onI, elim imageE)
    fix u v p q
    assume p: "p \<in> set (all_peers d)" "u = use_of d p" and q: "q \<in> set (all_peers d)" "v = use_of d q"
      and "pi_address (pu_peer u) = pi_address (pu_peer v)"
    then have "pi_address p = pi_address q" by (simp add: use_of_def)
    then have "p = q" using one p(1) q(1) unfolding same_machines_def by blast
    then show "u = v" using p(2) q(2) by simp
  qed
  then have "distinct (map (\<lambda>u. pi_address (pu_peer u)) (PeerUses d))" using distinct by (simp add: distinct_map)
  then show ?thesis using distinct set by (simp add: PeerUses_use_map)
qed

definition s_identity :: string where
  "s_identity = replicate 64 (CHR ''a'')"

definition s_grant :: client_grant where
  "s_grant = \<lparr>cg_id = ''g1'', cg_parent = s_identity, cg_inbound = ''in-1'', cg_base_user = ''ann'', cg_base_identity = s_identity,
     cg_fixed_user = FixedUser (\<lambda>_. ''t'') ''g1'', cg_fixed_identity = s_identity, cg_peer = s_peer,
     cg_mode = ''fixed'', cg_enabled = True, cg_hide_base = False\<rparr>"

definition s_state :: desired_state where
  "s_state = \<lparr>ds_node = ''node'', ds_revision = 1, ds_server = None,
     ds_proxy = Some \<lparr>pp_application = ''app'', pp_inbounds = [''in-1''],
       pp_peer = \<lparr>pi_id = ''n0'', pi_public_key = ''nodekey:0'', pi_address = ''100.64.0.8''\<rparr>\<rparr>,
     ds_clients = Some \<lparr>cp_application = ''app'', cp_source = s_peer\<lparr>pi_address := ''100.64.0.7''\<rparr>, cp_grants = [s_grant],
       cp_blocked = [], cp_session_reset = True\<rparr>\<rparr>"

lemma s_state_valid: "desired_state_Validate (\<lambda>_. ''t'') s_state = None"
proof -
  have "server_error s_state = None" "proxy_error s_state = None" "clients_error (\<lambda>_. ''t'') s_state = None" by code_simp+
  moreover have "ds_node s_state \<noteq> []" "ds_revision s_state = 1" by (simp_all add: s_state_def)
  ultimately show ?thesis by (simp add: desired_state_Validate_def)
qed

theorem peer_uses_unambiguous_witness:
  "desired_state_Validate (\<lambda>_. ''t'') s_state = None \<and>
   set (PeerUses s_state) = use_of s_state ` set (all_peers s_state) \<and> length (PeerUses s_state) = 2"
proof -
  have "length (PeerUses s_state) = 2" by code_simp
  then show ?thesis using peer_uses_unambiguous [OF s_state_valid] s_state_valid by blast
qed

end
