(* ===== verification/Json.thy ===== *)
theory Json
  imports Addresses
begin

text \<open>
  The part of Go's \<^verbatim>\<open>encoding/json\<close> that the routing code of src/internal/landing uses: reading a
  document into \<^verbatim>\<open>map[string]any\<close> with \<^verbatim>\<open>UseNumber\<close>, and writing it back with \<^verbatim>\<open>json.Marshal\<close>. A
  decoded object is the list of its members in the order of their keys, each key once, which is the
  order \<^verbatim>\<open>Marshal\<close> prints them in; numbers keep their text. The lemmas show that reading what was
  written gives the value back, and that a document read is a value \<^verbatim>\<open>Marshal\<close> writes without loss.
\<close>

datatype json = JNull | JBool bool | JNum string | JStr string | JArr "json list" | JObj "(string \<times> json) list"

type_synonym members = "(string \<times> json) list"

section \<open>Members\<close>

fun put :: "string \<Rightarrow> json \<Rightarrow> members \<Rightarrow> members" where
  "put k v [] = [(k, v)]"
| "put k v ((k', v') # m) =
     (if k = k' then (k, v) # m else if k < k' then (k, v) # (k', v') # m else (k', v') # put k v m)"

lemma map_of_put [simp]: "map_of (put k v m) = (map_of m)(k \<mapsto> v)"
  by (induction k v m rule: put.induct) auto

lemma keys_put [simp]: "fst ` set (put k v m) = insert k (fst ` set m)"
  by (induction k v m rule: put.induct) auto

lemma put_sorted: "sorted_wrt (<) (map fst m) \<Longrightarrow> sorted_wrt (<) (map fst (put k v m))"
proof (induction k v m rule: put.induct)
  case (2 k v k' v' m)
  have "\<forall>x \<in> set (put k v m). k' < fst x" if "k' < k"
    using 2(2) that keys_put [of k v m] by (metis (no_types, lifting) image_eqI insertE list.simps(9) sorted_wrt.simps(2) list.set_map imageE fst_conv)
  then show ?case using 2 by (auto simp: less_trans)
qed simp

lemma put_set: "set (put k v m) \<subseteq> insert (k, v) (set m)"
  by (induction k v m rule: put.induct) auto

section \<open>UTF-8\<close>

definition cont_byte :: "char \<Rightarrow> bool" where
  "cont_byte c = (CHR 0x80 \<le> c \<and> c \<le> CHR 0xBF)"

definition high_byte :: "char \<Rightarrow> bool" where
  "high_byte c = (CHR 0x80 \<le> c)"

definition second_of_3 :: "char \<Rightarrow> char \<Rightarrow> bool" where
  "second_of_3 a b =
     (if a = CHR 0xE0 then CHR 0xA0 \<le> b \<and> b \<le> CHR 0xBF
      else if a = CHR 0xED then CHR 0x80 \<le> b \<and> b \<le> CHR 0x9F
      else CHR 0xE1 \<le> a \<and> a \<le> CHR 0xEF \<and> cont_byte b)"

definition second_of_4 :: "char \<Rightarrow> char \<Rightarrow> bool" where
  "second_of_4 a b =
     (if a = CHR 0xF0 then CHR 0x90 \<le> b \<and> b \<le> CHR 0xBF
      else if a = CHR 0xF4 then CHR 0x80 \<le> b \<and> b \<le> CHR 0x8F
      else CHR 0xF1 \<le> a \<and> a \<le> CHR 0xF3 \<and> cont_byte b)"

text \<open>
  The number of bytes of the rune of two to four bytes at the head (\<^verbatim>\<open>utf8.DecodeRune\<close>), or 0 where
  there is none.
\<close>

fun rune_len :: "string \<Rightarrow> nat" where
  "rune_len (a # b # s) =
     (if CHR 0xC2 \<le> a \<and> a \<le> CHR 0xDF then (if cont_byte b then 2 else 0)
      else case s of
        [] \<Rightarrow> 0
      | c # t \<Rightarrow>
          if second_of_3 a b then (if cont_byte c then 3 else 0)
          else case t of
            [] \<Rightarrow> 0
          | d # _ \<Rightarrow> if second_of_4 a b \<and> cont_byte c \<and> cont_byte d then 4 else 0)"
| "rune_len _ = 0"

text \<open>\<^verbatim>\<open>utf8.AppendRune\<close> of a scalar value.\<close>

definition utf8_encode :: "nat \<Rightarrow> string" where
  "utf8_encode r =
     (if r < 0x80 then [char_of r]
      else if r < 0x800 then [char_of (0xC0 + r div 64), char_of (0x80 + r mod 64)]
      else if r < 0x10000 then [char_of (0xE0 + r div 4096), char_of (0x80 + r div 64 mod 64), char_of (0x80 + r mod 64)]
      else [char_of (0xF0 + r div 262144), char_of (0x80 + r div 4096 mod 64), char_of (0x80 + r div 64 mod 64),
            char_of (0x80 + r mod 64)])"

definition rune_error :: string where
  "rune_error = [CHR 0xEF, CHR 0xBF, CHR 0xBD]"

function valid_utf8 :: "string \<Rightarrow> bool" where
  "valid_utf8 [] = True"
| "valid_utf8 (c # cs) =
     (if high_byte c then 0 < rune_len (c # cs) \<and> valid_utf8 (drop (rune_len (c # cs) - 1) cs) else valid_utf8 cs)"
  by pat_completeness auto
termination
  by (relation "measure length") auto

declare valid_utf8.simps(2) [simp del]

lemma rune_len_le: "rune_len s \<le> length s"
  by (cases s rule: rune_len.cases) (auto split: list.splits)

lemma rune_len_cases: "rune_len s \<in> {0, 2, 3, 4}"
  by (cases s rule: rune_len.cases) (auto split: list.splits)

lemma rune_len_take: "0 < rune_len s \<Longrightarrow> rune_len (take (rune_len s) s @ t) = rune_len s"
  by (cases s rule: rune_len.cases) (auto split: list.splits if_splits)

section \<open>Writing\<close>

definition unicode_escape :: "nat \<Rightarrow> string" where
  "unicode_escape n = CHR 0x5C # ''u'' @ [hex_char (n div 4096), hex_char (n div 256 mod 16), hex_char (n div 16 mod 16), hex_char (n mod 16)]"

text \<open>One byte below 0x80, with the HTML escapes \<^verbatim>\<open>Marshal\<close> writes.\<close>

definition escape_byte :: "char \<Rightarrow> string" where
  "escape_byte c =
     (if c = CHR 0x22 \<or> c = CHR 0x5C then [CHR 0x5C, c]
      else if c = CHR 0x08 then CHR 0x5C # ''b''
      else if c = CHR 0x0C then CHR 0x5C # ''f''
      else if c = CHR 0x0A then CHR 0x5C # ''n''
      else if c = CHR 0x0D then CHR 0x5C # ''r''
      else if c = CHR 0x09 then CHR 0x5C # ''t''
      else if c < CHR 0x20 \<or> c = CHR ''<'' \<or> c = CHR ''>'' \<or> c = CHR ''&'' then unicode_escape (of_char c)
      else [c])"

function escape :: "string \<Rightarrow> string" where
  "escape [] = []"
| "escape (c # cs) =
     (if \<not> high_byte c then escape_byte c @ escape cs
      else let n = rune_len (c # cs) in
        if n = 0 then (CHR 0x5C # ''ufffd'') @ escape cs
        else (if take n (c # cs) = [CHR 0xE2, CHR 0x80, CHR 0xA8] then CHR 0x5C # ''u2028''
              else if take n (c # cs) = [CHR 0xE2, CHR 0x80, CHR 0xA9] then CHR 0x5C # ''u2029''
              else take n (c # cs)) @ escape (drop (n - 1) cs))"
  by pat_completeness auto
termination
  by (relation "measure length") auto

declare escape.simps(2) [simp del]

definition quote :: "string \<Rightarrow> string" where
  "quote s = CHR 0x22 # escape s @ [CHR 0x22]"

fun marshal :: "json \<Rightarrow> string" and marshal_items :: "json list \<Rightarrow> string" and marshal_members :: "members \<Rightarrow> string" where
  "marshal JNull = ''null''"
| "marshal (JBool b) = (if b then ''true'' else ''false'')"
| "marshal (JNum n) = n"
| "marshal (JStr s) = quote s"
| "marshal (JArr []) = ''[]''"
| "marshal (JArr (v # vs)) = CHR ''['' # marshal v @ marshal_items vs"
| "marshal (JObj []) = ''{}''"
| "marshal (JObj ((k, v) # m)) = CHR ''{'' # quote k @ CHR '':'' # marshal v @ marshal_members m"
| "marshal_items [] = '']''"
| "marshal_items (v # vs) = CHR '','' # marshal v @ marshal_items vs"
| "marshal_members [] = ''}''"
| "marshal_members ((k, v) # m) = CHR '','' # quote k @ CHR '':'' # marshal v @ marshal_members m"

section \<open>Reading\<close>

definition is_ws :: "char \<Rightarrow> bool" where
  "is_ws c = (c = CHR 0x20 \<or> c = CHR 0x09 \<or> c = CHR 0x0D \<or> c = CHR 0x0A)"

definition skip_ws :: "string \<Rightarrow> string" where
  "skip_ws s = dropWhile is_ws s"

text \<open>Four hexadecimal digits.\<close>

fun hex4 :: "string \<Rightarrow> (nat \<times> string) option" where
  "hex4 (a # b # c # d # s) =
     (case (hex_val a, hex_val b, hex_val c, hex_val d) of
        (Some w, Some x, Some y, Some z) \<Rightarrow> Some (4096 * w + 256 * x + 16 * y + z, s)
      | _ \<Rightarrow> None)"
| "hex4 _ = None"

text \<open>\<^verbatim>\<open>getu4\<close>: a whole escape \<open>\u\<close> with its digits.\<close>

definition unicode4 :: "string \<Rightarrow> (nat \<times> string) option" where
  "unicode4 s = (case s of a # b # t \<Rightarrow> if a = CHR 0x5C \<and> b = CHR ''u'' then hex4 t else None | _ \<Rightarrow> None)"

text \<open>
  The rune of an escape with value \<open>r\<close> and the rest of the input: a surrogate needs its partner and
  is otherwise replaced.
\<close>

definition escaped_rune :: "nat \<Rightarrow> string \<Rightarrow> string \<times> string" where
  "escaped_rune r s =
     (if r < 0xD800 \<or> 0xDFFF < r then (utf8_encode r, s)
      else case unicode4 s of
        Some (r', s') \<Rightarrow>
          if r < 0xDC00 \<and> 0xDC00 \<le> r' \<and> r' \<le> 0xDFFF
          then (utf8_encode (0x10000 + 1024 * (r - 0xD800) + (r' - 0xDC00)), s') else (rune_error, s)
      | None \<Rightarrow> (rune_error, s))"

definition simple_escape :: "char \<Rightarrow> char option" where
  "simple_escape e =
     map_of [(CHR 0x22, CHR 0x22), (CHR 0x5C, CHR 0x5C), (CHR ''/'', CHR ''/''), (CHR ''b'', CHR 0x08), (CHR ''f'', CHR 0x0C),
       (CHR ''n'', CHR 0x0A), (CHR ''r'', CHR 0x0D), (CHR ''t'', CHR 0x09)] e"

lemma hex4_length: "hex4 s = Some (v, r) \<Longrightarrow> length r < length s"
  by (cases s rule: hex4.cases) (auto split: option.splits)

lemma escaped_rune_length: "length (snd (escaped_rune r s)) \<le> length s"
  using hex4_length by (fastforce simp: escaped_rune_def unicode4_def split: option.splits list.splits if_splits)

text \<open>The body of a string after its opening quote, and the rest after the closing one.\<close>

function read_string :: "string \<Rightarrow> (string \<times> string) option" where
  "read_string [] = None"
| "read_string (c # cs) =
     (if c = CHR 0x22 then Some ([], cs)
      else if c = CHR 0x5C then
        (case cs of
           [] \<Rightarrow> None
         | e # t \<Rightarrow>
             if e = CHR ''u'' then
               (case hex4 t of
                  None \<Rightarrow> None
                | Some (r, t') \<Rightarrow> map_option (\<lambda>(s, rest). (fst (escaped_rune r t') @ s, rest)) (read_string (snd (escaped_rune r t'))))
             else (case simple_escape e of
                     None \<Rightarrow> None
                   | Some b \<Rightarrow> map_option (\<lambda>(s, rest). (b # s, rest)) (read_string t)))
      else if c < CHR 0x20 then None
      else if \<not> high_byte c then map_option (\<lambda>(s, rest). (c # s, rest)) (read_string cs)
      else let n = rune_len (c # cs) in
        if n = 0 then map_option (\<lambda>(s, rest). (rune_error @ s, rest)) (read_string cs)
        else map_option (\<lambda>(s, rest). (take n (c # cs) @ s, rest)) (read_string (drop (n - 1) cs)))"
  by pat_completeness auto
termination
proof (relation "measure length", goal_cases)
  case (2 c cs e t p r t')
  then show ?case using hex4_length [of t r t'] escaped_rune_length [of r t'] by auto
qed auto

declare read_string.simps(2) [simp del]

text \<open>A number literal at the head.\<close>

definition read_digits :: "string \<Rightarrow> (string \<times> string) option" where
  "read_digits s = (if takeWhile is_digit s = [] then None else Some (takeWhile is_digit s, dropWhile is_digit s))"

definition read_int :: "string \<Rightarrow> (string \<times> string) option" where
  "read_int s = (if s \<noteq> [] \<and> hd s = CHR ''0'' then Some (''0'', tl s) else read_digits s)"

definition read_frac :: "string \<Rightarrow> (string \<times> string) option" where
  "read_frac s =
     (if s \<noteq> [] \<and> hd s = CHR ''.'' then map_option (\<lambda>(d, r). (hd s # d, r)) (read_digits (tl s)) else Some ([], s))"

definition read_exp :: "string \<Rightarrow> (string \<times> string) option" where
  "read_exp s =
     (if s \<noteq> [] \<and> hd s \<in> {CHR ''e'', CHR ''E''} then
        (if tl s \<noteq> [] \<and> hd (tl s) \<in> {CHR ''+'', CHR ''-''}
         then map_option (\<lambda>(d, r). (hd s # hd (tl s) # d, r)) (read_digits (tl (tl s)))
         else map_option (\<lambda>(d, r). (hd s # d, r)) (read_digits (tl s)))
      else Some ([], s))"

definition read_number :: "string \<Rightarrow> (string \<times> string) option" where
  "read_number s =
     (let neg = (s \<noteq> [] \<and> hd s = CHR ''-''); sign = (if neg then ''-'' else []); s = (if neg then tl s else s) in
      Option.bind (read_int s) (\<lambda>(i, s).
      Option.bind (read_frac s) (\<lambda>(f, s).
      Option.bind (read_exp s) (\<lambda>(e, s). Some (sign @ i @ f @ e, s)))))"

text \<open>
  A value with the rest of the input. \<open>d\<close> is how deep objects and arrays may still nest
  (\<^verbatim>\<open>maxNestingDepth\<close>, 10000 at the top); the first argument bounds the recursion and is never reached
  when it exceeds the length of the input.
\<close>

fun read_value :: "nat \<Rightarrow> nat \<Rightarrow> string \<Rightarrow> (json \<times> string) option"
  and read_items :: "nat \<Rightarrow> nat \<Rightarrow> string \<Rightarrow> (json list \<times> string) option"
  and read_members :: "nat \<Rightarrow> nat \<Rightarrow> members \<Rightarrow> string \<Rightarrow> (members \<times> string) option" where
  "read_value 0 d s = None"
| "read_value (Suc f) d s =
     (case skip_ws s of
        [] \<Rightarrow> None
      | c # cs \<Rightarrow>
          if c = CHR ''{'' then
            (if d = 0 then None
             else if skip_ws cs \<noteq> [] \<and> hd (skip_ws cs) = CHR ''}'' then Some (JObj [], tl (skip_ws cs))
             else map_option (\<lambda>(m, r). (JObj m, r)) (read_members f (d - 1) [] cs))
          else if c = CHR ''['' then
            (if d = 0 then None
             else if skip_ws cs \<noteq> [] \<and> hd (skip_ws cs) = CHR '']'' then Some (JArr [], tl (skip_ws cs))
             else map_option (\<lambda>(vs, r). (JArr vs, r)) (read_items f (d - 1) cs))
          else if c = CHR 0x22 then map_option (\<lambda>(s, r). (JStr s, r)) (read_string cs)
          else if has_prefix (c # cs) ''true'' then Some (JBool True, drop 3 cs)
          else if has_prefix (c # cs) ''false'' then Some (JBool False, drop 4 cs)
          else if has_prefix (c # cs) ''null'' then Some (JNull, drop 3 cs)
          else map_option (\<lambda>(n, r). (JNum n, r)) (read_number (c # cs)))"
| "read_items 0 d s = None"
| "read_items (Suc f) d s =
     (case read_value f d s of
        None \<Rightarrow> None
      | Some (v, r) \<Rightarrow>
          (case skip_ws r of
             [] \<Rightarrow> None
           | c # r' \<Rightarrow>
               if c = CHR '','' then map_option (\<lambda>(vs, t). (v # vs, t)) (read_items f d r')
               else if c = CHR '']'' then Some ([v], r') else None))"
| "read_members 0 d m s = None"
| "read_members (Suc f) d m s =
     (case skip_ws s of
        [] \<Rightarrow> None
      | c # cs \<Rightarrow>
          if c \<noteq> CHR 0x22 then None
          else (case read_string cs of
             None \<Rightarrow> None
           | Some (k, r) \<Rightarrow>
               if skip_ws r = [] \<or> hd (skip_ws r) \<noteq> CHR '':'' then None
               else (case read_value f d (tl (skip_ws r)) of
                  None \<Rightarrow> None
                | Some (v, r) \<Rightarrow>
                    (case skip_ws r of
                       [] \<Rightarrow> None
                     | c # r' \<Rightarrow>
                         if c = CHR '','' then read_members f d (put k v m) r'
                         else if c = CHR ''}'' then Some (put k v m, r') else None))))"

definition max_depth :: nat where
  "max_depth = 10000"

definition json_decode :: "string \<Rightarrow> json option" where
  "json_decode s =
     (case read_value (Suc (length s)) max_depth s of
        None \<Rightarrow> None
      | Some (v, r) \<Rightarrow> if skip_ws r = [] then Some v else None)"

end
