(* ===== verification/Landing_Routes.thy ===== *)
theory Landing_Routes
  imports Landing_State Json
begin

text \<open>
  The routing settings of a managed Xray instance (src/internal/landing/routes.go, grant_routes.go and
  the routing part of state.go): reading and canonicalizing the settings, preparing the forced route of
  selected inbounds and the routes of client grants, replacing an applied route, and deciding what may
  be written over the current settings. \<open>sha\<close> is SHA-256 in hexadecimal, \<open>tag\<close> the tag of a grant id;
  \<open>refloat\<close> is the text of a number literal after \<^verbatim>\<open>float64\<close>, \<open>None\<close> when it is out of range.
\<close>

record route_change =
  rc_revision :: nat
  rc_before :: string
  rc_after :: string
  rc_replaces :: string

definition proxyOutboundTag :: string where
  "proxyOutboundTag = ''vastora-landing-egress''"

definition grantDenyTag :: string where
  "grantDenyTag = ''vastora-client-landing-deny''"

definition grantPrivateTag :: string where
  "grantPrivateTag = ''vastora-client-landing-private-''"

definition SOCKSPort :: nat where
  "SOCKSPort = 1080"

text \<open>\<^verbatim>\<open>value, _ := x.(string)\<close>: the empty string for anything else.\<close>

definition str_of :: "json option \<Rightarrow> string" where
  "str_of v = (case v of Some (JStr s) \<Rightarrow> s | _ \<Rightarrow> [])"

definition strs :: "string list \<Rightarrow> json" where
  "strs ts = JArr (map JStr ts)"

section \<open>Reading the settings\<close>

definition api_rule :: "string \<Rightarrow> json \<Rightarrow> bool" where
  "api_rule t v =
     (case v of
        JObj rule \<Rightarrow> length rule = 3 \<and> map_of rule ''type'' = Some (JStr ''field'') \<and> map_of rule ''outboundTag'' = Some (JStr t) \<and>
          map_of rule ''inboundTag'' = Some (JArr [JStr t])
      | _ \<Rightarrow> False)"

definition api_first :: "string \<Rightarrow> json list \<Rightarrow> json list" where
  "api_first t rules =
     (case dropWhile (\<lambda>v. \<not> api_rule t v) rules of
        [] \<Rightarrow> rules
      | x # post \<Rightarrow> x # takeWhile (\<lambda>v. \<not> api_rule t v) rules @ post)"

definition canonical_api :: "members \<Rightarrow> members" where
  "canonical_api config =
     (case map_of config ''api'' of
        Some (JObj api) \<Rightarrow>
          (case map_of config ''routing'' of
             Some (JObj routing) \<Rightarrow>
               (if str_of (map_of api ''tag'') = [] then config
                else case map_of routing ''rules'' of
                  Some (JArr rules) \<Rightarrow>
                    put ''routing'' (JObj (put ''rules'' (JArr (api_first (str_of (map_of api ''tag'')) rules)) routing)) config
                | _ \<Rightarrow> config)
           | _ \<Rightarrow> config)
      | _ \<Rightarrow> config)"

definition decodeRouteSettings :: "string \<Rightarrow> string + (members \<times> string)" where
  "decodeRouteSettings raw =
     (if raw = [] \<or> length raw > 4 * 2 ^ 20 then Inl ''landing: invalid route settings''
      else case json_decode raw of
        Some (JObj config) \<Rightarrow> Inr (canonical_api config, marshal (JObj (canonical_api config)))
      | _ \<Rightarrow> Inl ''landing: invalid route settings'')"

definition RouteSettingsHash :: "(string \<Rightarrow> string) \<Rightarrow> string \<Rightarrow> string + string" where
  "RouteSettingsHash sha raw =
     (case decodeRouteSettings raw of Inl err \<Rightarrow> Inl err | Inr (_, canonical) \<Rightarrow> Inr (sha canonical))"

section \<open>The forced route\<close>

fun select_tags :: "string list \<Rightarrow> string list \<Rightarrow> bool" where
  "select_tags selected [] = True"
| "select_tags selected (t # ts) =
     (trim_space t = t \<and> t \<noteq> [] \<and> length t \<le> 128 \<and> t \<notin> set selected \<and> select_tags (t # selected) ts)"

text \<open>The known outbound tags, each with whether it is a blackhole; \<open>reserved\<close> are the tags the settings must not use.\<close>

fun scan_outbounds :: "(string \<Rightarrow> bool) \<Rightarrow> string \<Rightarrow> string \<Rightarrow> (string \<times> bool) list \<Rightarrow> json list \<Rightarrow> string + (string \<times> bool) list" where
  "scan_outbounds reserved invalid conflict known [] = Inr known"
| "scan_outbounds reserved invalid conflict known (JObj ob # items) =
     (let t = str_of (map_of ob ''tag''); protocol = str_of (map_of ob ''protocol'') in
      if t = [] \<or> t \<in> fst ` set known \<or> reserved t \<or> protocol = [] then Inl conflict
      else scan_outbounds reserved invalid conflict ((t, protocol = ''blackhole'') # known) items)"
| "scan_outbounds reserved invalid conflict known (_ # items) = Inl invalid"

definition scan_api :: "(string \<Rightarrow> bool) \<Rightarrow> string \<Rightarrow> members \<Rightarrow> (string \<times> bool) list \<Rightarrow> string + (string \<times> bool) list" where
  "scan_api reserved err config known =
     (case map_of config ''api'' of
        Some (JObj api) \<Rightarrow>
          (let t = str_of (map_of api ''tag'') in
           if t = [] then Inr known
           else if t \<in> fst ` set known \<or> reserved t then Inl err
           else Inr ((t, False) # known))
      | _ \<Rightarrow> Inr known)"

definition local_dns :: "members \<Rightarrow> bool" where
  "local_dns routing = (str_of (map_of routing ''domainStrategy'') \<notin> {[], ''AsIs'', ''IPIfNonMatch''})"

text \<open>The selected tags among the inbounds of a rule, each once; \<open>None\<close> when an entry is not a string.\<close>

fun intersect :: "string list \<Rightarrow> string list \<Rightarrow> json list \<Rightarrow> string list option" where
  "intersect tags acc [] = Some acc"
| "intersect tags acc (JStr t # vs) = intersect tags (if t \<in> set tags \<and> t \<notin> set acc then acc @ [t] else acc) vs"
| "intersect tags acc (_ # vs) = None"

definition rule_scope :: "string list \<Rightarrow> members \<Rightarrow> string list option" where
  "rule_scope tags rule =
     (case map_of rule ''inboundTag'' of
        None \<Rightarrow> Some tags
      | Some (JArr vs) \<Rightarrow> if vs = [] then Some tags else intersect tags [] vs
      | Some _ \<Rightarrow> None)"

fun scope_rules :: "string list \<Rightarrow> (string \<times> bool) list \<Rightarrow> json list \<Rightarrow> string + members list" where
  "scope_rules tags known [] = Inr []"
| "scope_rules tags known (JObj rule # rules) =
     (if map_of rule ''balancerTag'' \<noteq> None \<and> map_of rule ''balancerTag'' \<noteq> Some (JStr [])
      then Inl ''landing: original routing uses a balancer''
      else case map_of known (str_of (map_of rule ''outboundTag'')) of
        None \<Rightarrow> Inl ''landing: original routing references an unknown outbound''
      | Some False \<Rightarrow> scope_rules tags known rules
      | Some True \<Rightarrow>
          (case rule_scope tags rule of
             None \<Rightarrow> Inl ''landing: invalid original inbound scope''
           | Some ts \<Rightarrow>
               (case scope_rules tags known rules of
                  Inl err \<Rightarrow> Inl err
                | Inr prefix \<Rightarrow> Inr (if ts = [] then prefix else put ''inboundTag'' (strs ts) rule # prefix))))"
| "scope_rules tags known (_ # rules) = Inl ''landing: invalid original routing rule''"

definition terminal_rule :: "string list \<Rightarrow> members" where
  "terminal_rule tags =
     [(''inboundTag'', strs tags), (''network'', JStr ''tcp,udp''), (''outboundTag'', JStr proxyOutboundTag), (''type'', JStr ''field'')]"

definition socks_outbound :: "string \<Rightarrow> string \<Rightarrow> json" where
  "socks_outbound t address =
     JObj [(''protocol'', JStr ''socks''),
       (''settings'', JObj [(''servers'', JArr [JObj [(''address'', JStr address), (''port'', JNum (nat_str SOCKSPort))]])]),
       (''tag'', JStr t)]"

definition with_routes :: "members \<Rightarrow> members \<Rightarrow> json list \<Rightarrow> json list \<Rightarrow> members" where
  "with_routes config routing rules outbounds =
     put ''outbounds'' (JArr outbounds) (put ''routing'' (JObj (put ''rules'' (JArr rules) routing)) config)"

definition force_route :: "string list \<Rightarrow> string \<Rightarrow> members \<Rightarrow> string + members" where
  "force_route tags address config =
     (case map_of config ''outbounds'' of
        Some (JArr (ob # obs)) \<Rightarrow>
          (case scan_outbounds (\<lambda>t. t = proxyOutboundTag) ''landing: invalid original outbound''
                  ''landing: ambiguous original outbound ownership'' [] (ob # obs) of Inl err \<Rightarrow> Inl err | Inr outs \<Rightarrow>
          (case scan_api (\<lambda>t. t = proxyOutboundTag \<or> t \<in> set tags) ''landing: ambiguous API route ownership'' config outs of
             Inl err \<Rightarrow> Inl err | Inr known \<Rightarrow>
          (case map_of config ''routing'' of
             Some (JObj routing) \<Rightarrow>
               (if local_dns routing then Inl ''landing: original routing requires local DNS resolution''
                else case map_of routing ''rules'' of
                  Some (JArr rules) \<Rightarrow>
                    (case scope_rules tags known rules of
                       Inl err \<Rightarrow> Inl err
                     | Inr prefix \<Rightarrow>
                         Inr (with_routes config routing (map JObj (prefix @ [terminal_rule tags]) @ rules)
                                (ob # obs @ [socks_outbound proxyOutboundTag address])))
                | _ \<Rightarrow> Inl ''landing: missing original routing rules'')
           | _ \<Rightarrow> Inl ''landing: missing original routing settings'')))
      | _ \<Rightarrow> Inl ''landing: missing original outbounds'')"

definition PrepareRouteChange :: "string \<Rightarrow> nat \<Rightarrow> string list \<Rightarrow> peer_identity \<Rightarrow> string + route_change" where
  "PrepareRouteChange raw revision tags peer =
     (if revision = 0 \<or> \<not> tailnetIPv4 (pi_address peer) \<or> pi_id peer = [] \<or> pi_public_key peer = [] \<or> tags = []
      then Inl ''landing: invalid route plan''
      else if \<not> select_tags [] tags then Inl ''landing: invalid business inbound selection''
      else case decodeRouteSettings raw of Inl err \<Rightarrow> Inl err | Inr (config, before) \<Rightarrow>
        (case force_route tags (pi_address peer) config of
           Inl err \<Rightarrow> Inl err
         | Inr config' \<Rightarrow> Inr \<lparr>rc_revision = revision, rc_before = before, rc_after = marshal (JObj config'), rc_replaces = []\<rparr>))"

section \<open>Writing over the current settings\<close>

text \<open>The settings to write and whether they differ from the current ones.\<close>

definition NextWrite :: "(string \<Rightarrow> string) \<Rightarrow> route_change \<Rightarrow> string \<Rightarrow> bool \<Rightarrow> string + (string \<times> bool)" where
  "NextWrite sha change current enable =
     (if rc_revision change = 0 then Inl ''landing: invalid route checkpoint''
      else case RouteSettingsHash sha (rc_before change) of Inl err \<Rightarrow> Inl err | Inr beforeHash \<Rightarrow>
      (case RouteSettingsHash sha (rc_after change) of Inl err \<Rightarrow> Inl ''landing: invalid route checkpoint'' | Inr afterHash \<Rightarrow>
      if beforeHash = afterHash then Inl ''landing: invalid route checkpoint''
      else case RouteSettingsHash sha current of Inl err \<Rightarrow> Inl err | Inr currentHash \<Rightarrow>
      let want = (if enable then rc_after change else rc_before change);
          wantHash = (if enable then afterHash else beforeHash);
          otherHash = (if enable then beforeHash else afterHash)
      in if currentHash = wantHash then Inr (want, False)
         else if currentHash \<noteq> otherHash then
           (if rc_replaces change \<noteq> [] \<and> RouteSettingsHash sha (rc_replaces change) = Inr currentHash then Inr (want, True)
            else Inl ''landing: local routing changed outside the pending operation'')
         else Inr (want, True)))"

definition PrepareRouteReplacement ::
  "(string \<Rightarrow> string) \<Rightarrow> route_change \<Rightarrow> string \<Rightarrow> nat \<Rightarrow> string list \<Rightarrow> peer_identity \<Rightarrow> string + route_change" where
  "PrepareRouteReplacement sha previous current revision tags peer =
     (if revision \<le> rc_revision previous then Inl ''landing: stale route replacement''
      else case NextWrite sha previous current True of
        Inr (_, False) \<Rightarrow>
          (case PrepareRouteChange (rc_before previous) revision tags peer of
             Inl err \<Rightarrow> Inl err
           | Inr next \<Rightarrow> Inr (next\<lparr>rc_replaces := rc_after previous\<rparr>))
      | _ \<Rightarrow> Inl ''landing: current route is not the applied landing configuration'')"

section \<open>Routes of client grants\<close>

definition FixedOutbound :: "(string \<Rightarrow> string) \<Rightarrow> string \<Rightarrow> string" where
  "FixedOutbound tag i = ''vastora-combination-'' @ tag i"

definition grant_scope :: "client_grant \<Rightarrow> string" where
  "grant_scope g = cg_parent g @ CHR 0x00 # cg_inbound g @ CHR 0x00 # pi_id (cg_peer g)"

fun check_grants ::
  "(string \<Rightarrow> string) \<Rightarrow> string list \<Rightarrow> string list \<Rightarrow> string list \<Rightarrow> client_grant list \<Rightarrow> string option" where
  "check_grants tag ids scopes fixed [] = None"
| "check_grants tag ids scopes fixed (g # gs) =
     (case client_grant_Validate tag g of
        Some err \<Rightarrow> Some err
      | None \<Rightarrow>
          if cg_id g \<in> set ids \<or> grant_scope g \<in> set scopes \<or> cg_fixed_user g \<noteq> [] \<and> cg_fixed_user g \<in> set fixed
          then Some ''landing: duplicate client grant''
          else check_grants tag (cg_id g # ids) (grant_scope g # scopes)
                 (if cg_fixed_user g \<noteq> [] then cg_fixed_user g # fixed else fixed) gs)"

definition fixed_users :: "client_grant list \<Rightarrow> string list" where
  "fixed_users gs = filter (\<lambda>u. u \<noteq> []) (map cg_fixed_user gs)"

definition is_str :: "json \<Rightarrow> bool" where
  "is_str v = (case v of JStr _ \<Rightarrow> True | _ \<Rightarrow> False)"

text \<open>The scope of a rule in a field: absent, or a list of strings.\<close>

definition scope_well :: "members \<Rightarrow> string \<Rightarrow> bool" where
  "scope_well rule field =
     (case map_of rule field of None \<Rightarrow> True | Some (JArr vs) \<Rightarrow> list_all is_str vs | Some _ \<Rightarrow> False)"

fun check_rules :: "(string \<times> bool) list \<Rightarrow> json list \<Rightarrow> string option" where
  "check_rules known [] = None"
| "check_rules known (JObj rule # rules) =
     (if str_of (map_of rule ''outboundTag'') \<notin> fst ` set known then Some ''landing: unknown original outbound''
      else if \<not> scope_well rule ''inboundTag'' \<or> \<not> scope_well rule ''user'' then Some ''landing: malformed original route scope''
      else if map_of rule ''balancerTag'' \<notin> {None, Some JNull} then Some ''landing: ambiguous original security policy''
      else check_rules known rules)"
| "check_rules known (_ # rules) = Some ''landing: invalid original routing rule''"

text \<open>Whether a rule reaches a value in a field: \<^verbatim>\<open>any\<close> entry equal to it, or no list or an empty one.\<close>

definition reaches :: "members \<Rightarrow> string \<Rightarrow> string \<Rightarrow> bool" where
  "reaches rule field value =
     (case map_of rule field of Some (JArr vs) \<Rightarrow> vs = [] \<or> JStr value \<in> set vs | _ \<Rightarrow> True)"

fun reject_users :: "members \<Rightarrow> string \<Rightarrow> string list \<Rightarrow> string list \<Rightarrow> members list \<times> string list" where
  "reject_users rule inbound seen [] = ([], seen)"
| "reject_users rule inbound seen (user # users) =
     (if user = [] \<or> inbound @ CHR 0x00 # user \<in> set seen \<or> \<not> reaches rule ''user'' user
      then reject_users rule inbound seen users
      else let (result, seen') = reject_users rule inbound ((inbound @ CHR 0x00 # user) # seen) users
        in (put ''user'' (strs [user]) (put ''inboundTag'' (strs [inbound]) rule) # result, seen'))"

fun reject_loop :: "members \<Rightarrow> string list \<Rightarrow> client_grant list \<Rightarrow> members list" where
  "reject_loop rule seen [] = []"
| "reject_loop rule seen (g # gs) =
     (if \<not> reaches rule ''inboundTag'' (cg_inbound g) then reject_loop rule seen gs
      else let (result, seen') = reject_users rule (cg_inbound g) seen [cg_base_user g, cg_fixed_user g]
        in result @ reject_loop rule seen' gs)"

definition scopedGrantRejects :: "members \<Rightarrow> client_grant list \<Rightarrow> members list" where
  "scopedGrantRejects rule grants = reject_loop rule [] grants"

definition private_rule :: "client_grant \<Rightarrow> members" where
  "private_rule g =
     [(''inboundTag'', strs [cg_inbound g]), (''ip'', strs [pi_address (cg_peer g) @ ''/32'']), (''outboundTag'', JStr grantDenyTag),
      (''type'', JStr ''field''), (''user'', strs [cg_base_user g])]"

definition fixed_scope :: "client_grant \<Rightarrow> string \<Rightarrow> string \<Rightarrow> members" where
  "fixed_scope g network outbound =
     [(''inboundTag'', strs [cg_inbound g]), (''network'', JStr network), (''outboundTag'', JStr outbound), (''type'', JStr ''field''),
      (''user'', strs [cg_fixed_user g])]"

definition deny_user :: "string \<Rightarrow> members" where
  "deny_user user = [(''outboundTag'', JStr grantDenyTag), (''type'', JStr ''field''), (''user'', strs [user])]"

definition fixed_rules :: "(string \<Rightarrow> string) \<Rightarrow> client_grant \<Rightarrow> members list" where
  "fixed_rules tag g =
     (if cg_fixed_user g = [] then []
      else (if cg_enabled g \<and> mode_Valid (cg_mode g)
            then [fixed_scope g ''udp'' grantDenyTag, fixed_scope g ''tcp'' (FixedOutbound tag (cg_id g))] else []) @
           [deny_user (cg_fixed_user g)])"

definition fixed_outbounds :: "(string \<Rightarrow> string) \<Rightarrow> client_grant \<Rightarrow> json list" where
  "fixed_outbounds tag g =
     (if cg_fixed_user g \<noteq> [] \<and> cg_enabled g \<and> mode_Valid (cg_mode g)
      then [socks_outbound (FixedOutbound tag (cg_id g)) (pi_address (cg_peer g))] else [])"

definition deny_outbound :: json where
  "deny_outbound = JObj [(''protocol'', JStr ''blackhole''), (''settings'', JObj []), (''tag'', JStr grantDenyTag)]"

definition rejects :: "(string \<times> bool) list \<Rightarrow> client_grant list \<Rightarrow> json \<Rightarrow> members list" where
  "rejects known gs v =
     (case v of
        JObj rule \<Rightarrow> if map_of known (str_of (map_of rule ''outboundTag'')) = Some True then scopedGrantRejects rule gs else []
      | _ \<Rightarrow> [])"

definition grant_routes :: "(string \<Rightarrow> string) \<Rightarrow> client_grant list \<Rightarrow> members \<Rightarrow> string + members" where
  "grant_routes tag grants config =
     (case map_of config ''outbounds'' of
        Some (JArr (ob # obs)) \<Rightarrow>
          (case map_of config ''routing'' of
             Some (JObj routing) \<Rightarrow>
               (case map_of routing ''rules'' of
                  Some (JArr rules) \<Rightarrow>
                    (if local_dns routing then Inl ''landing: original routing requires local DNS resolution''
                     else case scan_outbounds
                            (\<lambda>t. t = grantDenyTag \<or> has_prefix t grantPrivateTag \<or> has_prefix t ''vastora-combination-'')
                            ''landing: invalid original outbound'' ''landing: conflicting client route ownership'' [] (ob # obs) of
                       Inl err \<Rightarrow> Inl err | Inr outs \<Rightarrow>
                     (case scan_api (\<lambda>t. t = grantDenyTag \<or> has_prefix t grantPrivateTag) ''landing: ambiguous API route'' config outs of
                       Inl err \<Rightarrow> Inl err | Inr known \<Rightarrow>
                     let ordered = sort_key cg_id grants in
                     case check_grants tag [] [] [] ordered of Some err \<Rightarrow> Inl err | None \<Rightarrow>
                     if list_ex (\<lambda>g. cg_base_user g \<in> set (fixed_users ordered)) ordered
                     then Inl ''landing: combination cannot be an advanced entry''
                     else case check_rules known rules of Some err \<Rightarrow> Inl err | None \<Rightarrow>
                     Inr (with_routes config routing
                       (map JObj (map private_rule ordered @ concat (map (rejects known ordered) rules) @
                          concat (map (fixed_rules tag) ordered)) @ rules)
                       (ob # obs @ concat (map (fixed_outbounds tag) ordered) @ [deny_outbound]))))
                | _ \<Rightarrow> Inl ''landing: missing original routing rules'')
           | _ \<Rightarrow> Inl ''landing: missing original routing'')
      | _ \<Rightarrow> Inl ''landing: missing original outbounds'')"

text \<open>The settings the grants are composed on: the original ones, or those with the forced route.\<close>

definition client_base :: "string \<Rightarrow> nat \<Rightarrow> proxy_plan option \<Rightarrow> string + string" where
  "client_base before revision forced =
     (case forced of
        None \<Rightarrow> Inr before
      | Some p \<Rightarrow>
          (case PrepareRouteChange before revision (pp_inbounds p) (pp_peer p) of Inl err \<Rightarrow> Inl err | Inr change \<Rightarrow> Inr (rc_after change)))"

definition PrepareClientRoutes ::
  "(string \<Rightarrow> string) \<Rightarrow> string \<Rightarrow> nat \<Rightarrow> proxy_plan option \<Rightarrow> client_grant list \<Rightarrow> string + route_change" where
  "PrepareClientRoutes tag raw revision forced grants =
     (if revision = 0 \<or> length grants > 512 then Inl ''landing: invalid client route plan''
      else case decodeRouteSettings raw of Inl err \<Rightarrow> Inl err | Inr (_, before) \<Rightarrow>
        (case client_base before revision forced of Inl err \<Rightarrow> Inl err | Inr base \<Rightarrow>
        (case decodeRouteSettings base of Inl err \<Rightarrow> Inl err | Inr (config, _) \<Rightarrow>
        (case grant_routes tag grants config of
           Inl err \<Rightarrow> Inl err
         | Inr config' \<Rightarrow> Inr \<lparr>rc_revision = revision, rc_before = before, rc_after = marshal (JObj config'), rc_replaces = []\<rparr>))))"

section \<open>Routes of a desired state\<close>

fun renumber :: "(string \<Rightarrow> string option) \<Rightarrow> json \<Rightarrow> json option"
  and renumber_items :: "(string \<Rightarrow> string option) \<Rightarrow> json list \<Rightarrow> json list option"
  and renumber_members :: "(string \<Rightarrow> string option) \<Rightarrow> members \<Rightarrow> members option" where
  "renumber refloat (JNum n) = map_option JNum (refloat n)"
| "renumber refloat (JArr vs) = map_option JArr (renumber_items refloat vs)"
| "renumber refloat (JObj m) = map_option JObj (renumber_members refloat m)"
| "renumber refloat v = Some v"
| "renumber_items refloat [] = Some []"
| "renumber_items refloat (v # vs) =
     (case (renumber refloat v, renumber_items refloat vs) of (Some w, Some ws) \<Rightarrow> Some (w # ws) | _ \<Rightarrow> None)"
| "renumber_members refloat [] = Some []"
| "renumber_members refloat ((k, v) # m) =
     (case (renumber refloat v, renumber_members refloat m) of (Some w, Some ws) \<Rightarrow> Some ((k, w) # ws) | _ \<Rightarrow> None)"

definition block_users :: "client_block list \<Rightarrow> members \<Rightarrow> members option" where
  "block_users blocks config =
     (case map_of config ''routing'' of
        Some (JObj routing) \<Rightarrow>
          (case map_of routing ''rules'' of
             Some (JArr rules) \<Rightarrow>
               Some (put ''routing'' (JObj (put ''rules'' (JArr (map (\<lambda>b. JObj (deny_user (cb_user b))) blocks @ rules)) routing)) config)
           | _ \<Rightarrow> None)
      | _ \<Rightarrow> None)"

text \<open>\<^verbatim>\<open>json.Unmarshal\<close> without \<^verbatim>\<open>UseNumber\<close> and the two type assertions, which cannot fail on the output above.\<close>

definition PrepareRoutes ::
  "(string \<Rightarrow> string) \<Rightarrow> (string \<Rightarrow> string option) \<Rightarrow> desired_state \<Rightarrow> string \<Rightarrow> string + route_change" where
  "PrepareRoutes tag refloat state raw =
     (case ds_clients state of
        Some clients \<Rightarrow>
          (case PrepareClientRoutes tag raw (ds_revision state) (ds_proxy state) (cp_grants clients) of
             Inl err \<Rightarrow> Inl err
           | Inr change \<Rightarrow>
               (case Option.bind (json_decode (rc_after change)) (renumber refloat) of
                  Some (JObj config) \<Rightarrow>
                    (case block_users (cp_blocked clients) config of
                       Some config' \<Rightarrow> Inr (change\<lparr>rc_after := marshal (JObj config')\<rparr>)
                     | None \<Rightarrow> Inl ''landing: invalid client route output'')
                | _ \<Rightarrow> Inl ''landing: invalid client route output''))
      | None \<Rightarrow>
          (case ds_proxy state of
             Some p \<Rightarrow> PrepareRouteChange raw (ds_revision state) (pp_inbounds p) (pp_peer p)
           | None \<Rightarrow> Inl ''landing: disabled state has no routes''))"

definition ReplaceRoutes ::
  "(string \<Rightarrow> string) \<Rightarrow> (string \<Rightarrow> string) \<Rightarrow> (string \<Rightarrow> string option) \<Rightarrow> desired_state \<Rightarrow> route_change \<Rightarrow> string \<Rightarrow> string + route_change" where
  "ReplaceRoutes sha tag refloat state previous current =
     (if ds_revision state \<le> rc_revision previous then Inl ''landing: stale replacement''
      else case NextWrite sha previous current True of
        Inr (_, False) \<Rightarrow>
          (case PrepareRoutes tag refloat state (rc_before previous) of
             Inl err \<Rightarrow> Inl err
           | Inr change \<Rightarrow> Inr (change\<lparr>rc_replaces := rc_after previous\<rparr>))
      | _ \<Rightarrow> Inl ''landing: original route ownership changed'')"

end
