(* ===== verification/Json_Laws.thy ===== *)
theory Json_Laws
  imports Json
begin

text \<open>
  Laws of the JSON reader and writer: the bound on the recursion is never reached, a value written and
  read back is the value, and what the reader returns is a value the writer keeps.
\<close>

section \<open>Strings\<close>

lemma hex_val_hex_char: "d < 16 \<Longrightarrow> hex_val (hex_char d) = Some d"
proof -
  assume "d < 16"
  show ?thesis
  proof (cases "d < 10")
    case False
    then have c: "(of_char (hex_char d) :: nat) = 87 + d" using \<open>d < 16\<close> by (simp add: hex_char_def)
    show ?thesis using False \<open>d < 16\<close> by (simp add: hex_val_def is_digit_alt less_eq_char_def c)
  qed (simp add: hex_val_def hex_char_def)
qed

lemma hex4_digits:
  assumes "n < 65536"
  shows "hex4 (hex_char (n div 4096) # hex_char (n div 256 mod 16) # hex_char (n div 16 mod 16) # hex_char (n mod 16) # s) = Some (n, s)"
proof -
  have "n div 4096 < 16" using assms by simp
  moreover have "4096 * (n div 4096) + 256 * (n div 256 mod 16) + 16 * (n div 16 mod 16) + n mod 16 = n"
  proof -
    have "n div 16 div 16 = n div 256" "n div 256 div 16 = n div 4096" by (simp_all add: div_mult2_eq [symmetric])
    then show ?thesis
      using mult_div_mod_eq [of 16 n] mult_div_mod_eq [of 16 "n div 16"] mult_div_mod_eq [of 16 "n div 256"] by linarith
  qed
  ultimately show ?thesis by (simp add: hex_val_hex_char)
qed

lemma read_u:
  "read_string (CHR 0x5C # CHR ''u'' # t) =
     (case hex4 t of
        None \<Rightarrow> None
      | Some (r, t') \<Rightarrow> map_option (\<lambda>(s, rest). (fst (escaped_rune r t') @ s, rest)) (read_string (snd (escaped_rune r t'))))"
  unfolding read_string.simps(2) by simp

lemma read_unicode_escape:
  assumes "n < 0xD800"
  shows "read_string (unicode_escape n @ t) = map_option (\<lambda>(s, r). (utf8_encode n @ s, r)) (read_string t)"
proof -
  have n: "n < 65536" and plain: "escaped_rune n t = (utf8_encode n, t)" using assms by (simp_all add: escaped_rune_def)
  have "unicode_escape n @ t = CHR 0x5C # CHR ''u'' #
      hex_char (n div 4096) # hex_char (n div 256 mod 16) # hex_char (n div 16 mod 16) # hex_char (n mod 16) # t"
    unfolding unicode_escape_def by (simp only: append.simps)
  then show ?thesis by (simp only: read_u hex4_digits [OF n] option.case prod.case plain fst_conv snd_conv)
qed

lemma low_byte: "\<not> high_byte c \<longleftrightarrow> (of_char c :: nat) < 128"
  by (auto simp: high_byte_def less_eq_char_def)

lemma read_escape_byte:
  assumes "\<not> high_byte c"
  shows "read_string (escape_byte c @ t) = map_option (\<lambda>(s, r). (c # s, r)) (read_string t)"
proof -
  have n: "(of_char c :: nat) < 128" using assms by (simp add: low_byte)
  then have enc: "utf8_encode (of_char c) = [c]" by (simp add: utf8_encode_def)
  have un: "read_string (unicode_escape (of_char c) @ t) = map_option (\<lambda>(s, r). (c # s, r)) (read_string t)"
    using read_unicode_escape [of "of_char c" t] n enc by simp
  show ?thesis using assms
    by (simp add: escape_byte_def un) (simp add: read_string.simps(2) simple_escape_def)
qed

lemma read_rune:
  assumes "high_byte c" "0 < rune_len (c # cs)"
  shows "read_string (take (rune_len (c # cs)) (c # cs) @ t) =
    map_option (\<lambda>(s, r). (take (rune_len (c # cs)) (c # cs) @ s, r)) (read_string t)"
proof -
  obtain m where n: "rune_len (c # cs) = Suc m" using assms(2) by (cases "rune_len (c # cs)") auto
  have len: "rune_len (c # take m cs @ t) = Suc m" using rune_len_take [OF assms(2), of t] n by simp
  have le: "m \<le> length cs" using rune_len_le [of "c # cs"] n by simp
  have first: "c \<noteq> CHR 0x22" "c \<noteq> CHR 0x5C" "\<not> c < CHR 0x20"
    using assms(1) by (auto simp: high_byte_def less_eq_char_def less_char_def)
  show ?thesis using first assms(1) le by (simp add: n read_string.simps(2) len Let_def)
qed

lemma separator_escapes:
  "CHR 0x5C # ''u2028'' = unicode_escape 0x2028" "CHR 0x5C # ''u2029'' = unicode_escape 0x2029"
  "utf8_encode 0x2028 = [CHR 0xE2, CHR 0x80, CHR 0xA8]" "utf8_encode 0x2029 = [CHR 0xE2, CHR 0x80, CHR 0xA9]"
  by (simp_all add: unicode_escape_def hex_char_def digit_char_def utf8_encode_def char_of_def bit_0)

lemma read_string_escape: "valid_utf8 s \<Longrightarrow> read_string (escape s @ CHR 0x22 # r) = Some (s, r)"
proof (induction s rule: valid_utf8.induct)
  case 1
  show ?case by (simp add: read_string.simps(2))
next
  case (2 c cs)
  show ?case
  proof (cases "high_byte c")
    case False
    then show ?thesis using 2 by (simp add: escape.simps(2) valid_utf8.simps(2) read_escape_byte)
  next
    case True
    let ?n = "rune_len (c # cs)" and ?t = "escape (drop (rune_len (c # cs) - 1) cs) @ CHR 0x22 # r"
    have n: "0 < ?n" and rest: "read_string ?t = Some (drop (?n - 1) cs, r)" using 2 True by (simp_all add: valid_utf8.simps(2))
    have whole: "take ?n (c # cs) @ drop (?n - 1) cs = c # cs" using n by (simp add: take_Cons')
    note read = read_rune [OF True n, where t = ?t] read_unicode_escape [where n = "0x2028" and t = ?t]
        read_unicode_escape [where n = "0x2029" and t = ?t]
    let ?p = "take ?n (c # cs)"
    have esc: "escape (c # cs) @ CHR 0x22 # r =
        (if ?p = utf8_encode 0x2028 then unicode_escape 0x2028 else if ?p = utf8_encode 0x2029 then unicode_escape 0x2029 else ?p) @ ?t"
      using True n unfolding separator_escapes(3,4) by (simp add: escape.simps(2) Let_def separator_escapes(1,2))
    have "read_string (escape (c # cs) @ CHR 0x22 # r) = Some (?p @ drop (?n - 1) cs, r)"
      unfolding esc using read rest by simp
    then show ?thesis unfolding whole .
  qed
qed

section \<open>Numbers\<close>

text \<open>What follows a value inside a document.\<close>

definition stops :: "string \<Rightarrow> bool" where
  "stops r = (r = [] \<or> hd r \<in> {CHR '','', CHR '']'', CHR ''}''})"

lemma stops_simps [simp]: "stops []" "stops (CHR '','' # r)" "stops (CHR '']'' # r)" "stops (CHR ''}'' # r)"
  by (simp_all add: stops_def)

lemma digits_append:
  "stops r \<Longrightarrow> takeWhile is_digit (s @ r) = takeWhile is_digit s"
  "stops r \<Longrightarrow> dropWhile is_digit (s @ r) = dropWhile is_digit s @ r"
proof -
  assume "stops r"
  then have "takeWhile is_digit r = []" "dropWhile is_digit r = r"
    by (cases r; auto simp: stops_def is_digit_def less_eq_char_def)+
  then show "takeWhile is_digit (s @ r) = takeWhile is_digit s" "dropWhile is_digit (s @ r) = dropWhile is_digit s @ r"
    by (induction s) auto
qed

lemma read_digits_append: "read_digits s = Some (d, t) \<Longrightarrow> stops r \<Longrightarrow> read_digits (s @ r) = Some (d, t @ r)"
  by (auto simp: read_digits_def digits_append split: if_splits)

lemma read_int_append: "read_int s = Some (d, t) \<Longrightarrow> stops r \<Longrightarrow> read_int (s @ r) = Some (d, t @ r)"
  using read_digits_append [of s d t r] by (cases s) (auto simp: read_int_def read_digits_def split: if_splits)

lemma read_frac_append: "read_frac s = Some (d, t) \<Longrightarrow> stops r \<Longrightarrow> read_frac (s @ r) = Some (d, t @ r)"
  by (cases s) (auto simp: read_frac_def stops_def dest: read_digits_append [where r = r] split: if_splits)

lemma read_exp_append: "read_exp s = Some (d, t) \<Longrightarrow> stops r \<Longrightarrow> read_exp (s @ r) = Some (d, t @ r)"
proof (cases s)
  case (Cons c s')
  assume "read_exp s = Some (d, t)" "stops r"
  then show ?thesis using Cons
    by (cases s') (auto simp: read_exp_def read_digits_def digits_append split: if_splits)
qed (auto simp: read_exp_def stops_def)

definition num_ok :: "string \<Rightarrow> bool" where
  "num_ok n = (read_number n = Some (n, []))"

lemma read_number_append:
  assumes "num_ok n" "stops r"
  shows "read_number (n @ r) = Some (n, r)"
proof -
  let ?neg = "n \<noteq> [] \<and> hd n = CHR ''-''"
  let ?s = "if ?neg then tl n else n"
  obtain i s1 f s2 e where parts: "read_int ?s = Some (i, s1)" "read_frac s1 = Some (f, s2)" "read_exp s2 = Some (e, [])"
      "n = (if ?neg then ''-'' else []) @ i @ f @ e"
    using assms(1) by (auto simp: num_ok_def read_number_def Let_def bind_eq_Some_conv split: if_splits)
  have nonempty: "n \<noteq> []" using parts(1) by (auto simp: read_int_def read_digits_def split: if_splits)
  then have "(if n @ r \<noteq> [] \<and> hd (n @ r) = CHR ''-'' then tl (n @ r) else n @ r) = ?s @ r" by auto
  then show ?thesis
    using nonempty read_int_append [OF parts(1) assms(2)] read_frac_append [OF parts(2) assms(2)] read_exp_append [OF parts(3) assms(2)] parts(4)
    by (auto simp: read_number_def Let_def)
qed

lemma read_int_hd: "read_int s = Some (i, t) \<Longrightarrow> s \<noteq> [] \<and> is_digit (hd s)"
  by (cases s) (auto simp: read_int_def read_digits_def is_digit_def less_eq_char_def split: if_splits)

lemma num_ok_hd: "num_ok n \<Longrightarrow> n \<noteq> [] \<and> (hd n = CHR ''-'' \<or> is_digit (hd n))"
  by (cases n) (auto simp: num_ok_def read_number_def Let_def bind_eq_Some_conv dest!: read_int_hd split: if_splits)

section \<open>Values\<close>

text \<open>A value the writer keeps, nested at most \<open>d\<close> deep.\<close>

fun json_ok :: "nat \<Rightarrow> json \<Rightarrow> bool" where
  "json_ok d JNull = True"
| "json_ok d (JBool b) = True"
| "json_ok d (JNum n) = num_ok n"
| "json_ok d (JStr s) = valid_utf8 s"
| "json_ok d (JArr vs) = (0 < d \<and> (\<forall>v \<in> set vs. json_ok (d - 1) v))"
| "json_ok d (JObj m) = (0 < d \<and> sorted_wrt (<) (map fst m) \<and> (\<forall>p \<in> set m. valid_utf8 (fst p) \<and> json_ok (d - 1) (snd p)))"

lemma skip_ws_no [simp]: "\<not> is_ws c \<Longrightarrow> skip_ws (c # s) = c # s"
  by (simp add: skip_ws_def)

lemma punctuation_no_ws [simp]:
  "\<not> is_ws (CHR 0x22)" "\<not> is_ws (CHR '','')" "\<not> is_ws (CHR '':'')" "\<not> is_ws (CHR ''['')" "\<not> is_ws (CHR '']'')"
  "\<not> is_ws (CHR ''{'')" "\<not> is_ws (CHR ''}'')"
  by (simp_all add: is_ws_def)

lemma read_number_value:
  assumes "num_ok n" "stops r"
  shows "read_value (Suc f) d (n @ r) = Some (JNum n, r)"
proof -
  obtain c cs where n: "n = c # cs" and c: "c = CHR ''-'' \<or> is_digit c" using num_ok_hd [OF assms(1)] by (cases n) auto
  then have first: "\<not> is_ws c" "c \<noteq> CHR ''{''" "c \<noteq> CHR ''[''" "c \<noteq> CHR 0x22" "c \<noteq> CHR ''t''" "c \<noteq> CHR ''f''" "c \<noteq> CHR ''n''"
    by (auto simp: is_ws_def is_digit_def less_eq_char_def)
  show ?thesis using read_number_append [OF assms] first unfolding n by simp
qed

lemma put_last: "sorted_wrt (<) (map fst (m @ (k, v) # m')) \<Longrightarrow> put k v m = m @ [(k, v)]"
  by (induction m) (auto simp: sorted_wrt_append)

text \<open>The tails of a list and of an object after one of its values.\<close>

definition items_tail :: "nat \<Rightarrow> nat \<Rightarrow> string \<Rightarrow> (json list \<times> string) option" where
  "items_tail f d s =
     (case skip_ws s of
        [] \<Rightarrow> None
      | c # r \<Rightarrow> if c = CHR '','' then read_items f d r else if c = CHR '']'' then Some ([], r) else None)"

definition members_tail :: "nat \<Rightarrow> nat \<Rightarrow> members \<Rightarrow> string \<Rightarrow> (members \<times> string) option" where
  "members_tail f d m s =
     (case skip_ws s of
        [] \<Rightarrow> None
      | c # r \<Rightarrow> if c = CHR '','' then read_members f d m r else if c = CHR ''}'' then Some (m, r) else None)"

lemma read_items_tail:
  "read_items (Suc f) d s =
     (case read_value f d s of None \<Rightarrow> None | Some (v, r) \<Rightarrow> map_option (\<lambda>(vs, t). (v # vs, t)) (items_tail f d r))"
  by (simp add: items_tail_def split: option.split prod.split list.split)

lemma read_members_tail:
  "read_members (Suc f) d m (CHR 0x22 # s) =
     (case read_string s of
        None \<Rightarrow> None
      | Some (k, r) \<Rightarrow>
          if skip_ws r = [] \<or> hd (skip_ws r) \<noteq> CHR '':'' then None
          else (case read_value f d (tl (skip_ws r)) of None \<Rightarrow> None | Some (v, r) \<Rightarrow> members_tail f d (put k v m) r))"
  by (simp add: members_tail_def split: option.split prod.split list.split)

lemma quote_append: "quote s @ t = CHR 0x22 # escape s @ CHR 0x22 # t"
  by (simp add: quote_def)

lemma marshal_tails [simp]: "stops (marshal_items vs @ r)" "stops (marshal_members m @ r)"
  by (cases vs; simp) (cases m rule: marshal_members.cases; simp)

declare read_items.simps(2) [simp del] read_members.simps(2) [simp del]

lemma marshal_hd:
  assumes "json_ok d v"
  obtains c cs where "marshal v = c # cs" "\<not> is_ws c" "c \<noteq> CHR '']''"
proof (cases v)
  case (JNum n)
  then have "n \<noteq> []" "hd n = CHR ''-'' \<or> is_digit (hd n)" using num_ok_hd assms by auto
  moreover have "\<not> is_ws c \<and> c \<noteq> CHR '']''" if "c = CHR ''-'' \<or> is_digit c" for c
    using that by (auto simp: is_ws_def is_digit_def less_eq_char_def)
  ultimately show ?thesis using that JNum by (cases n) auto
next
  case (JBool b)
  then show ?thesis using that by (cases b) (auto simp: is_ws_def)
next
  case (JArr vs)
  then show ?thesis using that by (cases vs) auto
next
  case (JObj m)
  then show ?thesis using that by (cases m) auto
qed (use that in \<open>auto simp: quote_def is_ws_def\<close>)

lemma marshal_length: "0 < length (marshal_items vs)" "0 < length (marshal_members m)"
  by (cases vs; simp) (cases m rule: marshal_members.cases; simp)

lemma read_marshal:
  "json_ok d v \<Longrightarrow> stops r \<Longrightarrow> length (marshal v) < f \<Longrightarrow> read_value f d (marshal v @ r) = Some (v, r)"
  "\<forall>v \<in> set vs. json_ok d v \<Longrightarrow> length (marshal_items vs) \<le> f \<Longrightarrow> items_tail f d (marshal_items vs @ r) = Some (vs, r)"
  "\<forall>p \<in> set m. valid_utf8 (fst p) \<and> json_ok d (snd p) \<Longrightarrow> sorted_wrt (<) (map fst (acc @ m)) \<Longrightarrow>
    length (marshal_members m) \<le> f \<Longrightarrow> members_tail f d acc (marshal_members m @ r) = Some (acc @ m, r)"
proof (induction v and vs and m arbitrary: d r f and d r f and d r f acc
    rule: marshal_marshal_items_marshal_members.induct)
  case 1
  then show ?case by (cases f) (auto simp: is_ws_def)
next
  case (2 b)
  then show ?case by (cases f; cases b) (auto simp: is_ws_def)
next
  case 5
  then show ?case by (cases f) auto
next
  case 7
  then show ?case by (cases f) auto
next
  case (3 n)
  then show ?case using read_number_value by (cases f) auto
next
  case (4 s)
  then show ?case by (cases f) (auto simp: quote_append read_string_escape)
next
  case (6 v vs)
  have ok: "json_ok (d - 1) v" "\<forall>v \<in> set vs. json_ok (d - 1) v" "0 < d" using "6.prems" by auto
  obtain c cs where c: "marshal v = c # cs" "\<not> is_ws c" "c \<noteq> CHR '']''" using marshal_hd [OF ok(1)] .
  obtain g where f: "f = Suc (Suc g)" using "6.prems"(3) c by (cases f; cases "f - 1") auto
  have "read_value g (d - 1) (marshal v @ marshal_items vs @ r) = Some (v, marshal_items vs @ r)"
    by (rule "6.IH"(1) [OF ok(1)])
      (use "6.prems"(3) marshal_length(1) [of vs] f in \<open>simp_all del: length_greater_0_conv\<close>)
  moreover have "items_tail g (d - 1) (marshal_items vs @ r) = Some (vs, r)"
    using "6.IH"(2) [OF ok(2)] "6.prems"(3) c f by simp
  ultimately have "read_items (Suc g) (d - 1) (marshal v @ marshal_items vs @ r) = Some (v # vs, r)"
    by (simp add: read_items_tail)
  then show ?case using c ok(3) by (simp add: f)
next
  case (8 k v m)
  have ok: "json_ok (d - 1) v" "\<forall>p \<in> set m. valid_utf8 (fst p) \<and> json_ok (d - 1) (snd p)" "0 < d" "valid_utf8 k"
    "sorted_wrt (<) (map fst ([(k, v)] @ m))" using "8.prems" by auto
  obtain g where f: "f = Suc (Suc g)" using "8.prems"(3) by (cases f; cases "f - 1") auto
  have "read_value g (d - 1) (marshal v @ marshal_members m @ r) = Some (v, marshal_members m @ r)"
    by (rule "8.IH"(1) [OF ok(1)])
      (use "8.prems"(3) marshal_length(2) [of m] f in \<open>simp_all del: length_greater_0_conv\<close>)
  moreover have "members_tail g (d - 1) [(k, v)] (marshal_members m @ r) = Some ((k, v) # m, r)"
    using "8.IH"(2) [OF ok(2,5)] "8.prems"(3) f by simp
  ultimately have "read_members (Suc g) (d - 1) [] (quote k @ CHR '':'' # marshal v @ marshal_members m @ r) = Some ((k, v) # m, r)"
    using ok(4) by (simp add: quote_append read_members_tail read_string_escape)
  then show ?case using ok(3) by (simp add: f quote_append)
next
  case (10 v vs)
  have ok: "json_ok d v" "\<forall>v \<in> set vs. json_ok d v" using "10.prems" by auto
  obtain g where f: "f = Suc g" using "10.prems"(2) by (cases f) auto
  have "read_value g d (marshal v @ marshal_items vs @ r) = Some (v, marshal_items vs @ r)"
    by (rule "10.IH"(1) [OF ok(1)])
      (use "10.prems"(2) marshal_length(1) [of vs] f in \<open>simp_all del: length_greater_0_conv\<close>)
  moreover have "items_tail g d (marshal_items vs @ r) = Some (vs, r)"
    using "10.IH"(2) [OF ok(2)] "10.prems"(2) f by simp
  ultimately show ?case by (simp add: f items_tail_def [of "Suc g"] read_items_tail)
next
  case (12 k v m)
  have ok: "json_ok d v" "\<forall>p \<in> set m. valid_utf8 (fst p) \<and> json_ok d (snd p)" "valid_utf8 k"
    "sorted_wrt (<) (map fst ((acc @ [(k, v)]) @ m))" using "12.prems" by auto
  obtain g where f: "f = Suc g" using "12.prems"(3) by (cases f) auto
  have "read_value g d (marshal v @ marshal_members m @ r) = Some (v, marshal_members m @ r)"
    by (rule "12.IH"(1) [OF ok(1)])
      (use "12.prems"(3) marshal_length(2) [of m] f in \<open>simp_all del: length_greater_0_conv\<close>)
  moreover have "members_tail g d (acc @ [(k, v)]) (marshal_members m @ r) = Some ((acc @ [(k, v)]) @ m, r)"
    using "12.IH"(2) [OF ok(2,4)] "12.prems"(3) f by simp
  moreover have "put k v acc = acc @ [(k, v)]" using put_last "12.prems"(2) by blast
  ultimately show ?case
    using ok(3) by (simp add: f members_tail_def [of "Suc g"] read_members_tail quote_append read_string_escape)
qed (simp_all add: items_tail_def members_tail_def)

text \<open>A value written by \<^verbatim>\<open>Marshal\<close> and read back is the value.\<close>

lemma json_decode_marshal: "json_ok max_depth v \<Longrightarrow> json_decode (marshal v) = Some v"
  using read_marshal(1) [of max_depth v "[]" "Suc (length (marshal v))"] by (simp add: json_decode_def skip_ws_def)

section \<open>What the reader returns\<close>

lemma valid_utf8_rune:
  assumes "p \<noteq> []" "high_byte (hd p)" "rune_len p = length p"
  shows "valid_utf8 (p @ s) = valid_utf8 s"
proof -
  obtain c cs where p: "p = c # cs" using assms(1) by (cases p) auto
  have "rune_len (p @ s) = length p" using rune_len_take [of p s] assms by simp
  then show ?thesis using assms(2) by (simp add: p valid_utf8.simps(2))
qed

lemma valid_utf8_low: "\<not> high_byte c \<Longrightarrow> valid_utf8 (c # s) = valid_utf8 s"
  by (simp add: valid_utf8.simps(2))

lemma char_of_cmp:
  fixes n :: nat
  assumes "n < 256"
  shows "CHR 0x80 \<le> char_of n \<longleftrightarrow> 0x80 \<le> n" "char_of n \<le> c \<longleftrightarrow> n \<le> of_char c" "c \<le> char_of n \<longleftrightarrow> of_char c \<le> n"
    "char_of n = c \<longleftrightarrow> n = of_char c"
  using assms by (auto simp: less_eq_char_def)

lemma utf8_encode_rune:
  assumes "0x80 \<le> r" "r < 0xD800 \<or> 0xDFFF < r" "r < 0x110000"
  shows "utf8_encode r \<noteq> []" "high_byte (hd (utf8_encode r))" "rune_len (utf8_encode r) = length (utf8_encode r)"
proof -
  have q: "r div 64 div 64 = r div 4096" "r div 4096 div 64 = r div 262144" by (simp_all add: div_mult2_eq [symmetric])
  have m: "r mod 64 < 64" "r div 64 mod 64 < 64" "r div 4096 mod 64 < 64" by simp_all
  consider "r < 0x800" | "0x800 \<le> r" "r < 0x10000" | "0x10000 \<le> r" by linarith
  then have "utf8_encode r \<noteq> [] \<and> high_byte (hd (utf8_encode r)) \<and> rune_len (utf8_encode r) = length (utf8_encode r)"
  proof cases
    case 1
    then have "2 \<le> r div 64" "r div 64 < 32" using assms(1) by auto
    then show ?thesis using 1 assms(1) m by (simp add: utf8_encode_def high_byte_def cont_byte_def char_of_cmp)
  next
    case 2
    have split: "r = 4096 * (r div 4096) + 64 * (r div 64 mod 64) + r mod 64"
      using q mult_div_mod_eq [of 64 r] mult_div_mod_eq [of 64 "r div 64"] by linarith
    have "r div 4096 < 16" using 2 by simp
    moreover have "r div 4096 = 0 \<Longrightarrow> 32 \<le> r div 64 mod 64" using split 2 m(1) by linarith
    moreover have "r div 4096 = 13 \<Longrightarrow> r div 64 mod 64 < 32" using split 2 m(1) assms(2) by linarith
    ultimately show ?thesis
      using 2 assms(1) m by (auto simp: utf8_encode_def high_byte_def cont_byte_def second_of_3_def char_of_cmp)
  next
    case 3
    have split: "r = 262144 * (r div 262144) + 4096 * (r div 4096 mod 64) + 64 * (r div 64 mod 64) + r mod 64"
      using q mult_div_mod_eq [of 64 r] mult_div_mod_eq [of 64 "r div 64"] mult_div_mod_eq [of 64 "r div 4096"] by linarith
    have "r div 262144 < 5" using assms(3) by simp
    moreover have "r div 262144 = 0 \<Longrightarrow> 16 \<le> r div 4096 mod 64" using split 3 m(1,2) by linarith
    moreover have "r div 262144 = 4 \<Longrightarrow> r div 4096 mod 64 < 16" using split 3 m(1) assms(3) by linarith
    ultimately show ?thesis
      using 3 assms(1) m by (auto simp: utf8_encode_def high_byte_def cont_byte_def second_of_3_def second_of_4_def char_of_cmp)
  qed
  then show "utf8_encode r \<noteq> []" "high_byte (hd (utf8_encode r))" "rune_len (utf8_encode r) = length (utf8_encode r)" by blast+
qed

lemma utf8_encode_valid:
  assumes "r < 0xD800 \<or> 0xDFFF < r" "r < 0x110000"
  shows "valid_utf8 (utf8_encode r @ s) = valid_utf8 s"
proof (cases "r < 0x80")
  case True
  then have "\<not> high_byte (char_of r)" by (simp add: low_byte)
  then show ?thesis using True by (simp add: utf8_encode_def valid_utf8_low)
next
  case False
  then show ?thesis using utf8_encode_rune [of r] assms by (intro valid_utf8_rune) simp_all
qed

lemma rune_error_valid: "valid_utf8 (rune_error @ s) = valid_utf8 s"
  by (rule valid_utf8_rune) (simp_all add: rune_error_def high_byte_def cont_byte_def second_of_3_def less_eq_char_def)

lemma hex_val_less: "hex_val c = Some v \<Longrightarrow> v < 16"
  by (auto simp: hex_val_def digit_val_def is_digit_alt less_eq_char_def split: if_splits)

lemma hex4_less: "hex4 s = Some (v, t) \<Longrightarrow> v < 65536"
  by (cases s rule: hex4.cases) (auto split: option.splits dest!: hex_val_less)

lemma escaped_rune_valid: "r < 65536 \<Longrightarrow> valid_utf8 (fst (escaped_rune r t) @ s) = valid_utf8 s"
  by (auto simp: escaped_rune_def rune_error_valid utf8_encode_valid split: option.splits)

lemma simple_escape_low: "simple_escape e = Some b \<Longrightarrow> \<not> high_byte b"
  by (auto simp: simple_escape_def high_byte_def less_eq_char_def split: if_splits)

text \<open>One step of the reader: it ends, or it reads a piece that is whole in UTF-8 and goes on behind it.\<close>

lemma read_string_step:
  assumes "read_string (c # cs) = Some (t, r)"
  obtains (close) "t = []" "r = cs"
  | (piece) p cs' u where "t = p @ u" "read_string cs' = Some (u, r)" "length cs' \<le> length cs"
      "\<And>w. valid_utf8 (p @ w) = valid_utf8 w"
proof -
  let ?n = "rune_len (c # cs)"
  consider (quote) "c = CHR 0x22" | (unicode) u where "c = CHR 0x5C" "cs = CHR ''u'' # u"
    | (simple) e u where "c = CHR 0x5C" "cs = e # u" "e \<noteq> CHR ''u''" | (bare) "c = CHR 0x5C" "cs = []"
    | (control) "c \<noteq> CHR 0x22" "c \<noteq> CHR 0x5C" "c < CHR 0x20"
    | (low) "c \<noteq> CHR 0x22" "c \<noteq> CHR 0x5C" "\<not> c < CHR 0x20" "\<not> high_byte c"
    | (broken) "c \<noteq> CHR 0x22" "c \<noteq> CHR 0x5C" "\<not> c < CHR 0x20" "high_byte c" "?n = 0"
    | (high) "c \<noteq> CHR 0x22" "c \<noteq> CHR 0x5C" "\<not> c < CHR 0x20" "high_byte c" "?n \<noteq> 0"
    by (cases cs) auto
  then show thesis
  proof cases
    case unicode
    then obtain v t' u' where u: "hex4 u = Some (v, t')" "t = fst (escaped_rune v t') @ u'"
        "read_string (snd (escaped_rune v t')) = Some (u', r)"
      using assms by (auto simp: read_u split: option.splits)
    show thesis
      by (rule piece [OF u(2,3)])
        (use unicode(2) escaped_rune_valid [OF hex4_less [OF u(1)]] hex4_length [OF u(1)] escaped_rune_length [of v t'] in auto)
  next
    case (simple e u)
    then obtain b u' where "simple_escape e = Some b" "t = [b] @ u'" "read_string u = Some (u', r)"
      using assms by (auto simp: read_string.simps(2) split: option.splits)
    then show thesis using piece [of "[b]" u' u] simple simple_escape_low valid_utf8_low by auto
  next
    case low
    then show thesis using assms piece [of "[c]" _ cs] valid_utf8_low by (auto simp: read_string.simps(2))
  next
    case broken
    then show thesis using assms piece [of rune_error _ cs] rune_error_valid by (auto simp: read_string.simps(2) Let_def)
  next
    case high
    have "valid_utf8 (take ?n (c # cs) @ w) = valid_utf8 w" for w
      using high rune_len_take [of "c # cs" "[]"] rune_len_le [of "c # cs"]
      by (intro valid_utf8_rune) (auto simp: take_Cons' min_def)
    then show thesis
      using assms high piece [of "take ?n (c # cs)" _ "drop (?n - 1) cs"] by (auto simp: read_string.simps(2) Let_def)
  qed (use assms close in \<open>simp_all add: read_string.simps(2)\<close>)
qed

lemma read_string_valid: "read_string s = Some (t, r) \<Longrightarrow> valid_utf8 t \<and> length r < length s"
proof (induction s arbitrary: t r rule: length_induct)
  case (1 s)
  obtain c cs where s: "s = c # cs" using "1.prems" by (cases s) auto
  from "1.prems" [unfolded s] show ?case
  proof (cases rule: read_string_step)
    case close
    then show ?thesis by (simp add: s)
  next
    case (piece p cs' u)
    then have "valid_utf8 u \<and> length r < length cs'" using "1.IH" [rule_format, of cs' u r] s by simp
    then show ?thesis using piece s by auto
  qed
qed

lemma read_digits_self:
  assumes "d \<noteq> []" "list_all is_digit d" "r = [] \<or> \<not> is_digit (hd r)"
  shows "read_digits (d @ r) = Some (d, r)"
proof -
  have "takeWhile is_digit (d @ r) = d \<and> dropWhile is_digit (d @ r) = r"
    using assms(2,3) by (induction d) (cases r; auto)+
  then show ?thesis using assms(1) by (simp add: read_digits_def)
qed

lemma read_digits_digits: "read_digits s = Some (d, r) \<Longrightarrow> d \<noteq> [] \<and> list_all is_digit d"
  by (auto simp: read_digits_def list_all_iff dest: set_takeWhileD split: if_splits)

lemma exp_form:
  assumes "read_exp s = Some (e, r)"
  obtains "e = []"
  | h ds where "h \<in> {CHR ''e'', CHR ''E''}" "ds \<noteq> []" "list_all is_digit ds" "e = h # ds"
  | h g ds where "h \<in> {CHR ''e'', CHR ''E''}" "g \<in> {CHR ''+'', CHR ''-''}" "ds \<noteq> []" "list_all is_digit ds" "e = h # g # ds"
proof -
  show thesis
  proof (cases "s \<noteq> [] \<and> hd s \<in> {CHR ''e'', CHR ''E''}")
    case False
    then have "e = []" using assms unfolding read_exp_def if_not_P [OF False] by simp
    then show thesis by (rule that(1))
  next
    case True
    show thesis
    proof (cases "tl s \<noteq> [] \<and> hd (tl s) \<in> {CHR ''+'', CHR ''-''}")
      case False
      obtain ds where ds: "read_digits (tl s) = Some (ds, r)" "e = hd s # ds"
        using assms unfolding read_exp_def if_P [OF True] if_not_P [OF False] by auto
      show thesis using that(2) [of "hd s" ds] True ds(2) read_digits_digits [OF ds(1)] by blast
    next
      case sign: True
      obtain ds where ds: "read_digits (tl (tl s)) = Some (ds, r)" "e = hd s # hd (tl s) # ds"
        using assms unfolding read_exp_def if_P [OF True] if_P [OF sign] by auto
      show thesis using that(3) [of "hd s" "hd (tl s)" ds] True sign ds(2) read_digits_digits [OF ds(1)] by blast
    qed
  qed
qed

lemma digits_no_sign: "list_all is_digit ds \<Longrightarrow> ds \<noteq> [] \<Longrightarrow> hd ds \<notin> {CHR ''+'', CHR ''-'', CHR ''e'', CHR ''E'', CHR ''.''}"
  by (cases ds) (auto simp: is_digit_def less_eq_char_def)

lemma read_exp_self: "read_exp s = Some (e, r) \<Longrightarrow> read_exp e = Some (e, [])"
proof (elim exp_form)
  fix h ds assume "h \<in> {CHR ''e'', CHR ''E''}" "ds \<noteq> []" "list_all is_digit ds" "e = h # ds"
  then show ?thesis using digits_no_sign [of ds] read_digits_self [of ds "[]"] by (simp add: read_exp_def)
next
  fix h g ds assume "h \<in> {CHR ''e'', CHR ''E''}" "g \<in> {CHR ''+'', CHR ''-''}" "ds \<noteq> []" "list_all is_digit ds" "e = h # g # ds"
  then show ?thesis using read_digits_self [of ds "[]"] by (simp add: read_exp_def)
qed (simp add: read_exp_def)

lemma exp_no_digit: "read_exp s = Some (e, r) \<Longrightarrow> e = [] \<or> \<not> is_digit (hd e) \<and> hd e \<noteq> CHR ''.''"
  by (elim exp_form) (auto simp: is_digit_def less_eq_char_def)

lemma frac_form:
  assumes "read_frac s = Some (f, r)"
  obtains "f = []" | ds where "ds \<noteq> []" "list_all is_digit ds" "f = CHR ''.'' # ds"
  using assms read_digits_digits unfolding read_frac_def by (auto split: if_splits)

lemma read_frac_self:
  assumes "read_frac s = Some (f, t)" "read_exp u = Some (e, r)"
  shows "read_frac (f @ e) = Some (f, e)"
  using assms(1) exp_no_digit [OF assms(2)] read_digits_self [where r = e]
  by (elim frac_form) (auto simp: read_frac_def)

lemma frac_no_digit:
  assumes "read_frac s = Some (f, t)" "read_exp u = Some (e, r)"
  shows "f @ e = [] \<or> \<not> is_digit (hd (f @ e))"
  using assms(1) exp_no_digit [OF assms(2)] by (elim frac_form) (auto simp: is_digit_def less_eq_char_def)

lemma read_int_self:
  assumes "read_int s = Some (i, t)" "r = [] \<or> \<not> is_digit (hd r)"
  shows "read_int (i @ r) = Some (i, r)"
proof (cases "s \<noteq> [] \<and> hd s = CHR ''0''")
  case False
  then have d: "read_digits s = Some (i, t)" using assms(1) by (auto simp: read_int_def)
  then have "i \<noteq> []" "hd i = hd s" by (cases s; auto simp: read_digits_def split: if_splits)+
  then show ?thesis using False read_digits_self [OF _ _ assms(2), of i] read_digits_digits [OF d] d
    by (auto simp: read_int_def read_digits_def)
qed (use assms in \<open>auto simp: read_int_def\<close>)

lemma read_number_ok: "read_number s = Some (n, r) \<Longrightarrow> num_ok n"
proof -
  assume "read_number s = Some (n, r)"
  then obtain s0 i s1 f s2 e where parts: "read_int s0 = Some (i, s1)" "read_frac s1 = Some (f, s2)" "read_exp s2 = Some (e, r)"
      "n = i @ f @ e \<or> n = CHR ''-'' # i @ f @ e"
    by (auto simp: read_number_def Let_def bind_eq_Some_conv split: if_splits)
  have int: "read_int (i @ f @ e) = Some (i, f @ e)" by (rule read_int_self [OF parts(1) frac_no_digit [OF parts(2,3)]])
  then have "i @ f @ e \<noteq> []" "hd (i @ f @ e) \<noteq> CHR ''-''"
    using read_int_hd [OF int] by (auto simp: is_digit_def less_eq_char_def)
  then show ?thesis
    using int read_frac_self [OF parts(2,3)] read_exp_self [OF parts(3)] parts(4)
    by (auto simp: num_ok_def read_number_def Let_def)
qed

lemma read_members_cases:
  assumes "read_members (Suc f) d m s = Some (m', r)"
  obtains cs k r1 v r2 where "skip_ws s = CHR 0x22 # cs" "read_string cs = Some (k, r1)" "skip_ws r1 \<noteq> []"
    "hd (skip_ws r1) = CHR '':''" "read_value f d (tl (skip_ws r1)) = Some (v, r2)" "members_tail f d (put k v m) r2 = Some (m', r)"
  using assms by (auto simp: read_members.simps(2) members_tail_def split: list.splits option.splits if_splits)

lemma items_tail_cases:
  assumes "items_tail f d s = Some (vs, r)"
  obtains "skip_ws s = CHR '']'' # r" "vs = []" | s' where "skip_ws s = CHR '','' # s'" "read_items f d s' = Some (vs, r)"
  using assms by (auto simp: items_tail_def split: list.splits if_splits)

lemma members_tail_cases:
  assumes "members_tail f d m s = Some (m', r)"
  obtains "skip_ws s = CHR ''}'' # r" "m' = m" | s' where "skip_ws s = CHR '','' # s'" "read_members f d m s' = Some (m', r)"
  using assms by (auto simp: members_tail_def split: list.splits if_splits)

lemma put_ok:
  assumes "\<forall>p \<in> set m. valid_utf8 (fst p) \<and> json_ok d (snd p)" "valid_utf8 k" "json_ok d v"
  shows "\<forall>p \<in> set (put k v m). valid_utf8 (fst p) \<and> json_ok d (snd p)"
  using assms put_set [of k v m] by auto

lemma read_value_ok:
  "read_value f d s = Some (v, r) \<Longrightarrow> json_ok d v"
  "read_items f d s = Some (vs, r) \<Longrightarrow> \<forall>v \<in> set vs. json_ok d v"
  "read_members f d m s = Some (m', r) \<Longrightarrow> sorted_wrt (<) (map fst m) \<Longrightarrow> \<forall>p \<in> set m. valid_utf8 (fst p) \<and> json_ok d (snd p) \<Longrightarrow>
    sorted_wrt (<) (map fst m') \<and> (\<forall>p \<in> set m'. valid_utf8 (fst p) \<and> json_ok d (snd p))"
proof (induction f d s and f d s and f d m s arbitrary: v r and vs r and m' r rule: read_value_read_items_read_members.induct)
  case (2 f d s)
  obtain c cs where s: "skip_ws s = c # cs" using "2.prems" by (cases "skip_ws s") auto
  show ?case
    using "2.prems" "2.IH"(1) [OF s] "2.IH"(2) [OF s] read_string_valid read_number_ok
    by (auto simp: s split: if_splits)
next
  case (4 f d s)
  then show ?case by (auto simp: read_items_tail items_tail_def split: option.splits list.splits if_splits)
next
  case (6 f d m s)
  obtain cs k r1 v r2 where step: "skip_ws s = CHR 0x22 # cs" "read_string cs = Some (k, r1)" "skip_ws r1 \<noteq> []"
    "hd (skip_ws r1) = CHR '':''" "read_value f d (tl (skip_ws r1)) = Some (v, r2)" "members_tail f d (put k v m) r2 = Some (m', r)"
    using read_members_cases [OF "6.prems"(1)] .
  have "json_ok d v" by (rule "6.IH"(1)) (use step in auto)
  then have ok: "\<forall>p \<in> set (put k v m). valid_utf8 (fst p) \<and> json_ok d (snd p)" "sorted_wrt (<) (map fst (put k v m))"
    using put_ok "6.prems" read_string_valid [OF step(2)] put_sorted by blast+
  from step(6) show ?case
  proof (cases rule: members_tail_cases)
    case 1
    then show ?thesis using ok by simp
  next
    case (2 s')
    show ?thesis by (rule "6.IH"(2)) (use step 2 ok in auto)
  qed
qed simp_all

text \<open>A document that was read is written and read back without change.\<close>

lemma json_decode_ok: "json_decode s = Some v \<Longrightarrow> json_ok max_depth v"
  using read_value_ok(1) by (auto simp: json_decode_def simp del: read_value.simps split: option.splits if_splits)

section \<open>The bound on the recursion\<close>

lemma skip_ws_length: "length (skip_ws s) \<le> length s"
  by (simp add: skip_ws_def length_dropWhile_le)

lemma read_digits_split: "read_digits s = Some (d, r) \<Longrightarrow> s = d @ r"
  by (auto simp: read_digits_def split: if_splits)

lemma read_int_split: "read_int s = Some (d, r) \<Longrightarrow> s = d @ r"
  by (cases s) (auto simp: read_int_def dest: read_digits_split split: if_splits)

lemma read_frac_split: "read_frac s = Some (d, r) \<Longrightarrow> s = d @ r"
  by (cases s) (auto simp: read_frac_def dest: read_digits_split split: if_splits)

lemma read_exp_split: "read_exp s = Some (d, r) \<Longrightarrow> s = d @ r"
  by (cases s; cases "tl s") (auto simp: read_exp_def dest: read_digits_split split: if_splits)

lemma read_number_split: "read_number s = Some (n, r) \<Longrightarrow> s = n @ r \<and> n \<noteq> []"
  using num_ok_hd [OF read_number_ok [of s n r]]
  by (cases s) (auto simp: read_number_def Let_def bind_eq_Some_conv dest!: read_int_split read_frac_split read_exp_split split: if_splits)

lemma plain_length:
  assumes "(if c = CHR 0x22 then map_option (\<lambda>(s, r). (JStr s, r)) (read_string cs)
          else if has_prefix (c # cs) ''true'' then Some (JBool True, drop 3 cs)
          else if has_prefix (c # cs) ''false'' then Some (JBool False, drop 4 cs)
          else if has_prefix (c # cs) ''null'' then Some (JNull, drop 3 cs)
          else map_option (\<lambda>(n, r). (JNum n, r)) (read_number (c # cs))) = Some (v, r)"
  shows "length r \<le> length cs"
proof -
  consider t where "read_string cs = Some (t, r)" | "r = drop 3 cs" | "r = drop 4 cs" | n where "read_number (c # cs) = Some (n, r)"
    using assms by (auto split: if_splits)
  then show ?thesis
  proof cases
    case (4 n)
    then have "c # cs = n @ r" "n \<noteq> []" using read_number_split by blast+
    then show ?thesis by (cases n) auto
  qed (auto dest: read_string_valid)
qed

lemma read_enough:
  "read_value f d s = Some (v, r) \<Longrightarrow> length r < length s \<and> (\<forall>g. length s < g + length r \<longrightarrow> read_value g d s = Some (v, r))"
  "read_items f d s = Some (vs, r) \<Longrightarrow> length r < length s \<and> (\<forall>g. length s < g + length r \<longrightarrow> read_items g d s = Some (vs, r))"
  "read_members f d m s = Some (m', r) \<Longrightarrow> length r < length s \<and> (\<forall>g. length s < g + length r \<longrightarrow> read_members g d m s = Some (m', r))"
proof (induction f d s and f d s and f d m s arbitrary: v r and vs r and m' r rule: read_value_read_items_read_members.induct)
  case (2 f d s)
  obtain c cs where s: "skip_ws s = c # cs" using "2.prems" by (cases "skip_ws s") auto
  then have len: "Suc (length cs) \<le> length s" using skip_ws_length [of s] by simp
  have short: "length r < length s \<and> (\<forall>g. length s < g + length r \<longrightarrow> read_value g d s = Some (v, r))"
    if "length r \<le> length cs" "\<And>g. length cs < g + length r \<Longrightarrow> read_value (Suc g) d s = Some (v, r)"
  proof (intro conjI allI impI)
    show "length r < length s" using that(1) len by simp
    fix g assume "length s < g + length r"
    then show "read_value g d s = Some (v, r)" using that len by (cases g) auto
  qed
  consider (obj) "c = CHR ''{''" "d \<noteq> 0" "\<not> (skip_ws cs \<noteq> [] \<and> hd (skip_ws cs) = CHR ''}'')"
    | (arr) "c = CHR ''[''" "d \<noteq> 0" "\<not> (skip_ws cs \<noteq> [] \<and> hd (skip_ws cs) = CHR '']'')"
    | (empty) "c = CHR ''{''" "skip_ws cs \<noteq> []" "hd (skip_ws cs) = CHR ''}''"
    | (nil) "c = CHR ''[''" "skip_ws cs \<noteq> []" "hd (skip_ws cs) = CHR '']''"
    | (plain) "c \<noteq> CHR ''{''" "c \<noteq> CHR ''[''" | (deep) "d = 0" "c = CHR ''{'' \<or> c = CHR ''[''" by blast
  then show ?case
  proof cases
    case obj
    then obtain m where m: "read_members f (d - 1) [] cs = Some (m, r)" "v = JObj m" using "2.prems" by (auto simp: s)
    note IH = "2.IH"(1) [OF s obj(1,2,3) m(1)]
    show ?thesis by (rule short) (use IH m(2) obj s in auto)
  next
    case arr
    then obtain vs where m: "read_items f (d - 1) cs = Some (vs, r)" "v = JArr vs" using "2.prems" by (auto simp: s)
    have IH: "length r < length cs \<and> (\<forall>g. length cs < g + length r \<longrightarrow> read_items g (d - 1) cs = Some (vs, r))"
      by (rule "2.IH"(2)) (use s arr m in simp_all)
    show ?thesis by (rule short) (use IH m(2) arr s in auto)
  next
    case empty
    then show ?thesis using "2.prems" skip_ws_length [of cs] by (intro short) (auto simp: s split: if_splits)
  next
    case nil
    then show ?thesis using "2.prems" skip_ws_length [of cs] by (intro short) (auto simp: s split: if_splits)
  next
    case plain
    show ?thesis
    proof (rule short)
      show "length r \<le> length cs"
        using "2.prems" plain by (simp only: read_value.simps(2) s list.case if_False) (rule plain_length)
    qed (use plain "2.prems" in \<open>simp add: s\<close>)
  next
    case deep
    then show ?thesis using "2.prems" by (auto simp: s)
  qed
next
  case (4 f d s)
  obtain v r1 us where step: "read_value f d s = Some (v, r1)" "items_tail f d r1 = Some (us, r)" "vs = v # us"
    using "4.prems" by (auto simp: read_items_tail split: option.splits)
  note IH = "4.IH"(1) [OF step(1)]
  have tail: "length r < length r1 \<and> (\<forall>g. length r1 \<le> g + length r \<longrightarrow> items_tail g d r1 = Some (us, r))"
    using step(2)
  proof (cases rule: items_tail_cases)
    case 1
    then show ?thesis using skip_ws_length [of r1] by (auto simp: items_tail_def)
  next
    case (2 s')
    have "length r < length s' \<and> (\<forall>g. length s' < g + length r \<longrightarrow> read_items g d s' = Some (us, r))"
      by (rule "4.IH"(2)) (use step 2 in auto)
    then show ?thesis using 2 skip_ws_length [of r1] by (auto simp: items_tail_def)
  qed
  show ?case
  proof (intro conjI allI impI)
    show "length r < length s" using IH tail by simp
    fix g assume "length s < g + length r"
    then show "read_items g d s = Some (vs, r)"
      using IH tail step(3) by (cases g) (auto simp: read_items_tail)
  qed
next
  case (6 f d m s)
  obtain cs k r1 v r2 where step: "skip_ws s = CHR 0x22 # cs" "read_string cs = Some (k, r1)" "skip_ws r1 \<noteq> []"
    "hd (skip_ws r1) = CHR '':''" "read_value f d (tl (skip_ws r1)) = Some (v, r2)" "members_tail f d (put k v m) r2 = Some (m', r)"
    using read_members_cases [OF "6.prems"] .
  have IH: "length r2 < length (tl (skip_ws r1)) \<and>
      (\<forall>g. length (tl (skip_ws r1)) < g + length r2 \<longrightarrow> read_value g d (tl (skip_ws r1)) = Some (v, r2))"
    by (rule "6.IH"(1)) (use step in auto)
  have len: "length (tl (skip_ws r1)) < length r1" "length r1 < length cs" "length cs < length s"
    using step(1-3) skip_ws_length [of r1] skip_ws_length [of s] read_string_valid [OF step(2)] by (auto simp: neq_Nil_conv)
  have tail: "length r < length r2 \<and> (\<forall>g. length r2 \<le> g + length r \<longrightarrow> members_tail g d (put k v m) r2 = Some (m', r))"
    using step(6)
  proof (cases rule: members_tail_cases)
    case 1
    then show ?thesis using skip_ws_length [of r2] by (auto simp: members_tail_def)
  next
    case (2 s')
    have "length r < length s' \<and> (\<forall>g. length s' < g + length r \<longrightarrow> read_members g d (put k v m) s' = Some (m', r))"
      by (rule "6.IH"(2)) (use step 2 in auto)
    then show ?thesis using 2 skip_ws_length [of r2] by (auto simp: members_tail_def)
  qed
  show ?case
  proof (intro conjI allI impI)
    show "length r < length s" using IH tail len by simp
    fix g assume g: "length s < g + length r"
    then obtain h where h: "g = Suc h" using IH tail len by (cases g) auto
    have "read_value h d (tl (skip_ws r1)) = Some (v, r2)" "members_tail h d (put k v m) r2 = Some (m', r)"
      using IH tail len g h by auto
    then show "read_members g d m s = Some (m', r)"
      using step by (simp add: h read_members.simps(2) members_tail_def)
  qed
qed simp_all

text \<open>The bound of \<open>json_decode\<close> is never the reason for a refusal.\<close>

lemma json_decode_bound:
  "json_decode s = Some v \<longleftrightarrow> (\<exists>f r. read_value f max_depth s = Some (v, r) \<and> skip_ws r = [])"
proof
  assume "json_decode s = Some v"
  then obtain r where "read_value (Suc (length s)) max_depth s = Some (v, r)" "skip_ws r = []"
    by (auto simp: json_decode_def simp del: read_value.simps split: option.splits if_splits)
  then show "\<exists>f r. read_value f max_depth s = Some (v, r) \<and> skip_ws r = []" by blast
next
  assume "\<exists>f r. read_value f max_depth s = Some (v, r) \<and> skip_ws r = []"
  then obtain f r where r: "read_value f max_depth s = Some (v, r)" "skip_ws r = []" by blast
  have "read_value (Suc (length s)) max_depth s = Some (v, r)" using read_enough(1) [OF r(1)] by (simp del: read_value.simps)
  then show "json_decode s = Some v" using r(2) by (simp add: json_decode_def del: read_value.simps)
qed

end
