(* ===== verification/Landing_Route_Laws.thy ===== *)
theory Landing_Route_Laws
  imports Landing_Routes Json_Laws
begin

text \<open>
  What the prepared routing settings do. Xray takes the first rule that applies to a connection; which
  conditions a rule may have besides its inbounds, users and networks is left open (\<open>mt_free\<close>), and so is
  a scope that is not the documented list of strings (\<open>mt_odd\<close>). The settings are compared as
  the documents that are stored, so every fact is about the text the Agent writes.
\<close>

section \<open>First match\<close>

record connection =
  cn_inbound :: string
  cn_user :: string
  cn_network :: string

record matcher =
  mt_free :: "members \<Rightarrow> bool"
  mt_odd :: "string \<Rightarrow> json \<Rightarrow> bool"

definition in_scope :: "matcher \<Rightarrow> string \<Rightarrow> string \<Rightarrow> members \<Rightarrow> bool" where
  "in_scope x field value rule =
     (case map_of rule field of
        None \<Rightarrow> True
      | Some (JArr vs) \<Rightarrow> vs = [] \<or> JStr value \<in> set vs
      | Some v \<Rightarrow> mt_odd x field v)"

definition on_network :: "matcher \<Rightarrow> string \<Rightarrow> members \<Rightarrow> bool" where
  "on_network x network rule =
     (case map_of rule ''network'' of
        None \<Rightarrow> True
      | Some v \<Rightarrow>
          if v \<in> {JStr ''tcp'', JStr ''udp'', JStr ''tcp,udp''} then network \<in> set (split_on (CHR '','') (str_of (Some v)))
          else mt_odd x ''network'' v)"

text \<open>The conditions of a rule besides its scope, network, target and type.\<close>

definition scope_keys :: "string set" where
  "scope_keys = {''inboundTag'', ''user'', ''network'', ''outboundTag'', ''type''}"

definition further :: "members \<Rightarrow> members" where
  "further rule = filter (\<lambda>(k, _). k \<notin> scope_keys) rule"

definition applies :: "matcher \<Rightarrow> connection \<Rightarrow> members \<Rightarrow> bool" where
  "applies x c rule =
     (in_scope x ''inboundTag'' (cn_inbound c) rule \<and> in_scope x ''user'' (cn_user c) rule \<and>
      on_network x (cn_network c) rule \<and> mt_free x (further rule))"

fun route :: "matcher \<Rightarrow> connection \<Rightarrow> json list \<Rightarrow> string option" where
  "route x c [] = None"
| "route x c (JObj rule # rules) = (if applies x c rule then Some (str_of (map_of rule ''outboundTag'')) else route x c rules)"
| "route x c (_ # rules) = route x c rules"

lemma route_append: "route x c (xs @ ys) = (case route x c xs of None \<Rightarrow> route x c ys | Some t \<Rightarrow> Some t)"
  by (induction x c xs rule: route.induct) auto

lemma route_none: "(\<And>r. JObj r \<in> set rules \<Longrightarrow> \<not> applies x c r) \<Longrightarrow> route x c rules = None"
  by (induction x c rules rule: route.induct) auto

definition rules_of :: "members \<Rightarrow> json list" where
  "rules_of config =
     (case map_of config ''routing'' of
        Some (JObj routing) \<Rightarrow> (case map_of routing ''rules'' of Some (JArr rules) \<Rightarrow> rules | _ \<Rightarrow> [])
      | _ \<Rightarrow> [])"

definition outbounds_of :: "members \<Rightarrow> json list" where
  "outbounds_of config = (case map_of config ''outbounds'' of Some (JArr obs) \<Rightarrow> obs | _ \<Rightarrow> [])"

text \<open>A rule whose target is a blackhole outbound of the settings.\<close>

definition blackhole :: "members \<Rightarrow> string \<Rightarrow> bool" where
  "blackhole config t =
     list_ex (\<lambda>v. case v of JObj ob \<Rightarrow> str_of (map_of ob ''tag'') = t \<and> map_of ob ''protocol'' = Some (JStr ''blackhole'') | _ \<Rightarrow> False)
       (outbounds_of config)"

definition blocking :: "members \<Rightarrow> json \<Rightarrow> bool" where
  "blocking config v = (case v of JObj rule \<Rightarrow> blackhole config (str_of (map_of rule ''outboundTag'')) | _ \<Rightarrow> False)"

section \<open>Facts about rules and settings\<close>

lemma scope_keys_simps [simp]:
  "''inboundTag'' \<in> scope_keys" "''user'' \<in> scope_keys" "''network'' \<in> scope_keys" "''outboundTag'' \<in> scope_keys" "''type'' \<in> scope_keys"
  by (simp_all add: scope_keys_def)

lemma further_put [simp]: "k \<in> scope_keys \<Longrightarrow> further (put k v rule) = further rule"
  by (induction k v rule rule: put.induct) (auto simp: further_def)

lemma rules_of_with_routes [simp]: "rules_of (with_routes config routing rules obs) = rules"
  by (simp add: rules_of_def with_routes_def)

lemma outbounds_of_with_routes [simp]: "outbounds_of (with_routes config routing rules obs) = obs"
  by (simp add: outbounds_of_def with_routes_def)

lemma with_routes_other: "k \<notin> {''routing'', ''outbounds''} \<Longrightarrow> map_of (with_routes config routing rules obs) k = map_of config k"
  by (simp add: with_routes_def)

lemma str_of_eq: "s \<noteq> [] \<Longrightarrow> str_of v = s \<longleftrightarrow> v = Some (JStr s)"
  by (auto simp: str_of_def split: option.splits json.splits)

definition blackhole_in :: "json list \<Rightarrow> string \<Rightarrow> bool" where
  "blackhole_in obs t =
     list_ex (\<lambda>v. case v of JObj ob \<Rightarrow> str_of (map_of ob ''tag'') = t \<and> map_of ob ''protocol'' = Some (JStr ''blackhole'') | _ \<Rightarrow> False) obs"

lemma blackhole_alt: "blackhole config = blackhole_in (outbounds_of config)"
  by (simp add: blackhole_def blackhole_in_def fun_eq_iff)

lemma scan_outbounds_known:
  "scan_outbounds reserved e1 e2 known obs = Inr known' \<Longrightarrow>
    (map_of known' t = Some True \<longleftrightarrow> map_of known t = Some True \<or> blackhole_in obs t) \<and> fst ` set known \<subseteq> fst ` set known'"
proof (induction reserved e1 e2 known obs rule: scan_outbounds.induct)
  case (2 reserved e1 e2 known ob items)
  let ?t = "str_of (map_of ob ''tag'')" and ?p = "str_of (map_of ob ''protocol'')"
  have ok: "?t \<noteq> []" "?t \<notin> fst ` set known" "\<not> reserved ?t" "?p \<noteq> []"
    and rest: "scan_outbounds reserved e1 e2 ((?t, ?p = ''blackhole'') # known) items = Inr known'"
    using 2(2) by (auto simp: Let_def split: if_splits)
  have new: "map_of known ?t = None" using ok(2) by (simp add: map_of_eq_None_iff)
  have IH: "(map_of known' t = Some True \<longleftrightarrow> map_of ((?t, ?p = ''blackhole'') # known) t = Some True \<or> blackhole_in items t) \<and>
      fst ` set ((?t, ?p = ''blackhole'') # known) \<subseteq> fst ` set known'"
    by (rule 2(1)) (use ok rest in auto)
  have "blackhole_in (JObj ob # items) t \<longleftrightarrow> (?t = t \<and> ?p = ''blackhole'') \<or> blackhole_in items t"
    by (simp add: blackhole_in_def str_of_eq)
  then show ?case using IH new by auto
qed (simp_all add: blackhole_in_def)

lemma scan_api_known:
  "scan_api reserved err config known = Inr known' \<Longrightarrow>
    (map_of known' t = Some True \<longleftrightarrow> map_of known t = Some True) \<and> fst ` set known \<subseteq> fst ` set known'"
  by (auto simp: scan_api_def Let_def map_of_eq_None_iff [THEN iffD2] split: option.splits json.splits if_splits)

lemma intersect_set:
  "intersect tags acc vs = Some ts \<Longrightarrow> set ts = set acc \<union> {t \<in> set tags. JStr t \<in> set vs}"
  by (induction tags acc vs rule: intersect.induct) (auto split: if_splits)

text \<open>On a selected inbound a rule is in scope exactly when its narrowed copy is.\<close>

lemma rule_scope_in:
  assumes "rule_scope tags rule = Some ts" "i \<in> set tags"
  shows "in_scope x ''inboundTag'' i rule \<longleftrightarrow> i \<in> set ts"
  using assms intersect_set [of tags "[]" _ ts]
  by (auto simp: rule_scope_def in_scope_def split: option.splits json.splits if_splits)

lemma rule_scope_subset: "rule_scope tags rule = Some ts \<Longrightarrow> set ts \<subseteq> set tags"
  using intersect_set [of tags "[]" _ ts] by (auto simp: rule_scope_def split: option.splits json.splits if_splits)

lemma applies_narrowed:
  assumes "rule_scope tags rule = Some ts" "ts \<noteq> []"
  shows "applies x c (put ''inboundTag'' (strs ts) rule) \<longleftrightarrow> cn_inbound c \<in> set ts \<and> applies x c rule"
proof (cases "cn_inbound c \<in> set ts")
  case True
  then have "in_scope x ''inboundTag'' (cn_inbound c) rule" using rule_scope_in [OF assms(1)] rule_scope_subset [OF assms(1)] by blast
  then show ?thesis using True assms(2) by (auto simp: applies_def in_scope_def on_network_def strs_def)
next
  case False
  then show ?thesis using assms(2) by (auto simp: applies_def in_scope_def strs_def)
qed

lemma scope_rules_step:
  assumes "scope_rules tags known (v # rules) = Inr prefix"
  obtains (other) rule where "v = JObj rule" "map_of known (str_of (map_of rule ''outboundTag'')) = Some False"
      "scope_rules tags known rules = Inr prefix"
  | (block) rule ts prefix' where "v = JObj rule" "map_of known (str_of (map_of rule ''outboundTag'')) = Some True"
      "rule_scope tags rule = Some ts" "scope_rules tags known rules = Inr prefix'"
      "prefix = (if ts = [] then prefix' else put ''inboundTag'' (strs ts) rule # prefix')"
  using assms by (cases v) (auto split: if_splits option.splits bool.splits sum.splits)

lemma scope_rules_route:
  assumes "scope_rules tags known rules = Inr prefix" "\<And>t. map_of known t = Some True \<longleftrightarrow> blackhole config t"
  shows "route x c (map JObj prefix) =
    (if cn_inbound c \<in> set tags then route x c (filter (blocking config) rules) else None)"
  using assms(1)
proof (induction rules arbitrary: prefix)
  case (Cons v rules)
  from Cons.prems show ?case
  proof (cases rule: scope_rules_step)
    case (other rule)
    then have "\<not> blocking config v" using assms(2) [of "str_of (map_of rule ''outboundTag'')"] by (simp add: blocking_def)
    then show ?thesis using Cons.IH [OF other(3)] by simp
  next
    case (block rule ts prefix')
    then have "blocking config v" using assms(2) [of "str_of (map_of rule ''outboundTag'')"] by (simp add: blocking_def)
    moreover have "cn_inbound c \<notin> set tags \<Longrightarrow> cn_inbound c \<notin> set ts" using rule_scope_subset [OF block(3)] by blast
    moreover have "cn_inbound c \<in> set tags \<Longrightarrow> cn_inbound c \<notin> set ts \<Longrightarrow> \<not> applies x c rule"
      using rule_scope_in [OF block(3)] by (auto simp: applies_def)
    ultimately show ?thesis using Cons.IH [OF block(4)] applies_narrowed [OF block(3)] block(1,5) by (cases "ts = []") auto
  qed
qed simp

section \<open>The settings survive the text\<close>

definition ascii :: "string \<Rightarrow> bool" where
  "ascii s = list_all (\<lambda>c. \<not> high_byte c) s"

lemma ascii_valid: "ascii s \<Longrightarrow> valid_utf8 s"
  by (induction s) (simp_all add: ascii_def valid_utf8_low)

lemma ascii_literals [simp]:
  "valid_utf8 ''inboundTag''" "valid_utf8 ''network''" "valid_utf8 ''outboundTag''" "valid_utf8 ''type''" "valid_utf8 ''tcp,udp''"
  "valid_utf8 ''field''" "valid_utf8 ''protocol''" "valid_utf8 ''socks''" "valid_utf8 ''settings''" "valid_utf8 ''servers''"
  "valid_utf8 ''address''" "valid_utf8 ''port''" "valid_utf8 ''tag''" "valid_utf8 ''rules''" "valid_utf8 ''routing''"
  "valid_utf8 ''outbounds''" "valid_utf8 ''user''" "valid_utf8 ''ip''" "valid_utf8 ''tcp''" "valid_utf8 ''udp''" "valid_utf8 ''blackhole''"
  "valid_utf8 proxyOutboundTag" "valid_utf8 grantDenyTag"
  by (rule ascii_valid; simp add: ascii_def high_byte_def less_eq_char_def proxyOutboundTag_def grantDenyTag_def)+

lemma string_v4_ascii: "ascii (string_v4 v)"
proof -
  have digit: "\<not> high_byte c" if "is_digit c" for c using that by (auto simp: is_digit_def high_byte_def less_eq_char_def)
  have "ascii (nat_str n)" for n using nat_str_digits [of n] digit by (auto simp: ascii_def list_all_iff)
  then show ?thesis by (simp add: string_v4_def octets_def ascii_def high_byte_def less_eq_char_def)
qed

lemma tailnet_ascii: "tailnetIPv4 a \<Longrightarrow> ascii a"
  using string_v4_ascii by (auto simp: tailnetIPv4_def v4_prefix_def addr_string_def split: option.splits addr.splits)

lemma num_ok_nat_str: "num_ok (nat_str n)"
proof (cases "n = 0")
  case True
  then show ?thesis by (simp add: nat_str_small num_ok_def read_number_def read_int_def read_frac_def read_exp_def digit_char_def char_of_def bit_0)
next
  case False
  have ds: "list_all is_digit (nat_str n)" using nat_str_digits [of n] by (simp add: list_all_iff)
  moreover have "hd (nat_str n) \<noteq> CHR ''-''" using nat_str_no_char [of "CHR ''-''" n] hd_in_set [of "nat_str n"]
    by (metis is_digit_char nat_str_not_Nil sign_not_digit(1))
  ultimately show ?thesis using nat_str_hd [of n] False read_digits_self [of "nat_str n" "[]"]
    by (simp add: num_ok_def read_number_def read_int_def read_frac_def read_exp_def)
qed

lemma json_ok_mono: "json_ok d v \<Longrightarrow> d \<le> d' \<Longrightarrow> json_ok d' v"
proof (induction d v arbitrary: d' rule: json_ok.induct)
  case (5 d vs)
  then show ?case using diff_le_mono [of d d' 1] by simp
next
  case (6 d m)
  then show ?case using diff_le_mono [of d d' 1] by simp
qed simp_all

lemma json_ok_get: "json_ok d (JObj m) \<Longrightarrow> map_of m k = Some v \<Longrightarrow> json_ok (d - 1) v"
  by (fastforce dest: map_of_SomeD)

lemma json_ok_put: "json_ok d (JObj m) \<Longrightarrow> valid_utf8 k \<Longrightarrow> json_ok (d - 1) v \<Longrightarrow> json_ok d (JObj (put k v m))"
  using put_ok [of m "d - 1" k v] put_sorted [of m k v] by auto

lemma json_ok_strs: "0 < d \<Longrightarrow> \<forall>t \<in> set ts. valid_utf8 t \<Longrightarrow> json_ok d (strs ts)"
  by (auto simp: strs_def)

lemma api_first_set: "set (api_first t rules) = set rules"
proof (cases "dropWhile (\<lambda>v. \<not> api_rule t v) rules")
  case (Cons x post)
  have "set rules = set (takeWhile (\<lambda>v. \<not> api_rule t v) rules @ x # post)" using Cons by (metis takeWhile_dropWhile_id)
  also have "\<dots> = set (api_first t rules)" by (simp add: api_first_def Cons)
  finally show ?thesis by (rule sym)
next
  case Nil
  then show ?thesis unfolding api_first_def Nil by simp
qed

lemma json_ok_rules:
  assumes "json_ok d (JObj config)" "map_of config ''routing'' = Some (JObj routing)" "json_ok (d - 2) (JArr rules)"
  shows "json_ok d (JObj (put ''routing'' (JObj (put ''rules'' (JArr rules) routing)) config))"
  by (intro json_ok_put assms(1) json_ok_get [OF assms(1,2)] ascii_literals) (use assms(3) in \<open>simp only: diff_diff_left one_add_one\<close>)

lemma json_ok_rules_of:
  assumes "json_ok d (JObj config)" "map_of config ''routing'' = Some (JObj routing)" "map_of routing ''rules'' = Some (JArr rules)"
  shows "json_ok (d - 2) (JArr rules)"
  using json_ok_get [OF json_ok_get [OF assms(1,2)] assms(3)] by (simp only: diff_diff_left one_add_one)

lemma canonical_api_cases:
  obtains "canonical_api config = config"
  | t routing rules where "map_of config ''routing'' = Some (JObj routing)" "map_of routing ''rules'' = Some (JArr rules)"
      "canonical_api config = put ''routing'' (JObj (put ''rules'' (JArr (api_first t rules)) routing)) config"
proof (cases "map_of config ''api''")
  case (Some a)
  show thesis
  proof (cases a)
    case (JObj api)
    show thesis
    proof (cases "map_of config ''routing''")
      case routing: (Some b)
      show thesis
      proof (cases b)
        case obj: (JObj routing)
        show thesis
          using that Some JObj routing obj
          by (cases "map_of routing ''rules''"; cases "the (map_of routing ''rules'')"; cases "str_of (map_of api ''tag'') = []")
            (simp_all add: canonical_api_def)
      qed (use that Some JObj routing in \<open>simp_all add: canonical_api_def\<close>)
    qed (use that Some JObj in \<open>simp add: canonical_api_def\<close>)
  qed (use that Some in \<open>simp_all add: canonical_api_def\<close>)
qed (use that in \<open>simp add: canonical_api_def\<close>)

lemma canonical_api_ok:
  assumes "json_ok d (JObj config)"
  shows "json_ok d (JObj (canonical_api config))"
proof (cases rule: canonical_api_cases [of config])
  case 1
  then show ?thesis using assms by (simp only:)
next
  case (2 t routing rules)
  have "json_ok (d - 2) (JArr (api_first t rules))"
    using json_ok_rules_of [OF assms 2(1,2)] unfolding json_ok.simps api_first_set .
  then show ?thesis unfolding 2(3) by (rule json_ok_rules [OF assms 2(1)])
qed

lemma decode_settings:
  assumes "decodeRouteSettings raw = Inr (config, text)"
  shows "json_ok max_depth (JObj config)" "text = marshal (JObj config)" "json_decode text = Some (JObj config)"
proof -
  obtain m where m: "json_decode raw = Some (JObj m)" "config = canonical_api m" "text = marshal (JObj config)"
    using assms by (auto simp: decodeRouteSettings_def split: if_splits option.splits json.splits)
  show ok: "json_ok max_depth (JObj config)" unfolding m(2) by (rule canonical_api_ok [OF json_decode_ok [OF m(1)]])
  show "text = marshal (JObj config)" by (rule m(3))
  show "json_decode text = Some (JObj config)" unfolding m(3) by (rule json_decode_marshal [OF ok])
qed

section \<open>The forced route\<close>

lemma scope_rules_ok:
  assumes "scope_rules tags known rules = Inr prefix" "\<forall>v \<in> set rules. json_ok d v" "\<forall>t \<in> set tags. valid_utf8 t" "1 < d"
  shows "\<forall>r \<in> set prefix. json_ok d (JObj r)"
  using assms(1,2)
proof (induction rules arbitrary: prefix)
  case (Cons v rules)
  have rest: "\<forall>v \<in> set rules. json_ok d v" and own: "json_ok d v" using Cons.prems(2) by simp_all
  from Cons.prems(1) show ?case
  proof (cases rule: scope_rules_step)
    case (other rule)
    show ?thesis by (rule Cons.IH [OF other(3) rest])
  next
    case (block rule ts prefix')
    have "json_ok d (JObj (put ''inboundTag'' (strs ts) rule))"
      using own [unfolded block(1)] rule_scope_subset [OF block(3)] assms(3,4)
      by (intro json_ok_put ascii_literals json_ok_strs) auto
    then show ?thesis using Cons.IH [OF block(4) rest] block(5) by (simp del: json_ok.simps)
  qed
qed simp

lemma terminal_ok: "1 < d \<Longrightarrow> \<forall>t \<in> set tags. valid_utf8 t \<Longrightarrow> json_ok d (JObj (terminal_rule tags))"
  using json_ok_strs [of "d - 1" tags] by (simp add: terminal_rule_def less_char_def)

lemma socks_ok: "valid_utf8 t \<Longrightarrow> ascii address \<Longrightarrow> 3 < d \<Longrightarrow> json_ok d (socks_outbound t address)"
  using ascii_valid num_ok_nat_str by (simp add: socks_outbound_def less_char_def)

lemma with_routes_ok:
  assumes "json_ok d (JObj config)" "map_of config ''routing'' = Some (JObj routing)" "json_ok (d - 2) (JArr rules)" "json_ok (d - 1) (JArr obs)"
  shows "json_ok d (JObj (with_routes config routing rules obs))"
  unfolding with_routes_def by (intro json_ok_put json_ok_rules assms ascii_literals)

lemma terminal_applies:
  assumes "tags \<noteq> []" "mt_free x []" "cn_network c \<in> {''tcp'', ''udp''}"
  shows "applies x c (terminal_rule tags) \<longleftrightarrow> cn_inbound c \<in> set tags"
proof -
  have "further (terminal_rule tags) = []" by (simp add: further_def terminal_rule_def)
  then show ?thesis using assms by (auto simp: applies_def in_scope_def on_network_def terminal_rule_def strs_def str_of_def)
qed

text \<open>What a successful \<open>force_route\<close> has checked and built.\<close>

lemma force_route_cases:
  assumes "force_route tags address config = Inr config'"
  obtains routing rules known prefix where "map_of config ''routing'' = Some (JObj routing)" "map_of routing ''rules'' = Some (JArr rules)"
    "map_of config ''outbounds'' = Some (JArr (outbounds_of config))" "\<And>t. map_of known t = Some True \<longleftrightarrow> blackhole config t"
    "scope_rules tags known rules = Inr prefix" "rules_of config = rules"
    "config' = with_routes config routing (map JObj (prefix @ [terminal_rule tags]) @ rules)
       (outbounds_of config @ [socks_outbound proxyOutboundTag address])"
proof -
  obtain ob obs where obs: "map_of config ''outbounds'' = Some (JArr (ob # obs))"
    using assms by (auto simp: force_route_def split: option.splits json.splits list.splits)
  obtain outs where outs: "scan_outbounds (\<lambda>t. t = proxyOutboundTag) ''landing: invalid original outbound''
                  ''landing: ambiguous original outbound ownership'' [] (ob # obs) = Inr outs"
    using assms obs by (auto simp: force_route_def split: sum.splits)
  obtain known where known: "scan_api (\<lambda>t. t = proxyOutboundTag \<or> t \<in> set tags) ''landing: ambiguous API route ownership'' config outs = Inr known"
    using assms obs outs by (auto simp: force_route_def split: sum.splits)
  obtain routing where routing: "map_of config ''routing'' = Some (JObj routing)"
    using assms obs outs known by (auto simp: force_route_def split: option.splits json.splits)
  obtain rules where rules: "map_of routing ''rules'' = Some (JArr rules)"
    using assms obs outs known routing by (auto simp: force_route_def split: option.splits json.splits if_splits)
  obtain prefix where prefix: "scope_rules tags known rules = Inr prefix"
      "config' = with_routes config routing (map JObj (prefix @ [terminal_rule tags]) @ rules)
         (ob # obs @ [socks_outbound proxyOutboundTag address])"
    using assms obs outs known routing rules by (auto simp: force_route_def split: sum.splits if_splits)
  have of: "outbounds_of config = ob # obs" "rules_of config = rules" using obs routing rules by (simp_all add: outbounds_of_def rules_of_def)
  have hole: "map_of known t = Some True \<longleftrightarrow> blackhole config t" for t
    using scan_api_known [OF known, of t] scan_outbounds_known [OF outs, of t] unfolding blackhole_alt of by simp
  show thesis by (rule that [OF routing rules _ hole prefix(1) of(2)]) (use obs prefix(2) of(1) in simp_all)
qed

lemma force_route_ok:
  assumes "force_route tags address config = Inr config'" "json_ok max_depth (JObj config)" "\<forall>t \<in> set tags. valid_utf8 t" "ascii address"
  shows "json_ok max_depth (JObj config')"
  using assms(1)
proof (cases rule: force_route_cases)
  case (1 routing rules known prefix)
  have rules: "json_ok (max_depth - 2) (JArr rules)" by (rule json_ok_rules_of [OF assms(2) 1(1,2)])
  have outs: "json_ok (max_depth - 1) (JArr (outbounds_of config))" by (rule json_ok_get [OF assms(2) 1(3)])
  have "\<forall>r \<in> set prefix. json_ok (max_depth - 2 - 1) (JObj r)"
    by (rule scope_rules_ok [OF 1(5) _ assms(3)]) (use rules in \<open>simp_all add: max_depth_def\<close>)
  then show ?thesis
    unfolding 1(7) using rules outs terminal_ok [OF _ assms(3), of "max_depth - 2 - 1"] socks_ok [OF _ assms(4), of proxyOutboundTag "max_depth - 1 - 1"]
    by (intro with_routes_ok [OF assms(2) 1(1)]) (auto simp: max_depth_def simp del: json_ok.simps(6))
qed


text \<open>A small configuration with one blackhole rule, as the text that is stored.\<close>

definition s_config :: members where
  "s_config =
     [(''outbounds'', JArr [JObj [(''protocol'', JStr ''freedom''), (''tag'', JStr ''direct'')],
         JObj [(''protocol'', JStr ''blackhole''), (''tag'', JStr ''block'')]]),
      (''routing'', JObj [(''rules'', JArr [JObj [(''outboundTag'', JStr ''block''), (''port'', JStr ''25''), (''type'', JStr ''field'')]])])]"

definition s_raw :: string where
  "s_raw = marshal (JObj s_config)"

lemma s_config_ok: "json_ok max_depth (JObj s_config)"
proof -
  have "valid_utf8 ''freedom''" "valid_utf8 ''direct''" "valid_utf8 ''block''" "valid_utf8 ''25''"
    by (rule ascii_valid; simp add: ascii_def high_byte_def less_eq_char_def)+
  then show ?thesis by (simp add: s_config_def max_depth_def less_char_def)
qed

lemma s_raw_settings: "decodeRouteSettings s_raw = Inr (s_config, s_raw)"
proof -
  have "s_raw \<noteq> []" "\<not> length s_raw > 4 * 2 ^ 20" "canonical_api s_config = s_config"
    by (simp_all add: s_raw_def s_config_def quote_def canonical_api_def escape.simps(2) high_byte_def less_eq_char_def escape_byte_def
        less_char_def)
  then show ?thesis using json_decode_marshal [OF s_config_ok] unfolding decodeRouteSettings_def s_raw_def by simp
qed

definition s_exit :: peer_identity where
  "s_exit = \<lparr>pi_id = ''n1'', pi_public_key = ''nodekey:1'', pi_address = ''100.64.0.9''\<rparr>"

lemma s_change: "\<exists>change. PrepareRouteChange s_raw 1 [''in-1''] s_exit = Inr change"
proof -
  have "\<not> isl (force_route [''in-1''] (pi_address s_exit) s_config)" by code_simp
  then obtain config' where "force_route [''in-1''] (pi_address s_exit) s_config = Inr config'"
    by (cases "force_route [''in-1''] (pi_address s_exit) s_config") auto
  moreover have "tailnetIPv4 (pi_address s_exit)" "select_tags [] [''in-1'']" "pi_id s_exit \<noteq> []" "pi_public_key s_exit \<noteq> []" by code_simp+
  ultimately show ?thesis by (simp add: PrepareRouteChange_def s_raw_settings)
qed


end
