(* ===== verification/Landing_Grant_Laws.thy ===== *)
theory Landing_Grant_Laws
  imports Landing_Route_Laws
begin

text \<open>
  Client grants compose with the original routing: a fixed identity reaches its exit or nothing, in
  spite of rules for other identities, and connections of users without a grant are routed as before.
\<close>

section \<open>Validated grants\<close>

definition well_tagged :: "(string \<Rightarrow> string) \<Rightarrow> bool" where
  "well_tagged tag = (\<forall>i. list_all hex_lower (tag i))"

lemma check_grants_valid:
  "check_grants tag ids scopes fixed gs = None \<Longrightarrow>
    (\<forall>g \<in> set gs. client_grant_Validate tag g = None \<and> cg_fixed_user g \<notin> set fixed - {[]}) \<and> distinct (fixed_users gs)"
proof (induction gs arbitrary: ids scopes fixed)
  case (Cons g gs)
  let ?fixed = "if cg_fixed_user g \<noteq> [] then cg_fixed_user g # fixed else fixed"
  have own: "client_grant_Validate tag g = None" "cg_fixed_user g \<notin> set fixed - {[]}"
    and rest: "check_grants tag (cg_id g # ids) (grant_scope g # scopes) ?fixed gs = None"
    using Cons.prems by (auto split: option.splits if_splits)
  note IH = Cons.IH [OF rest]
  have later: "cg_fixed_user h \<notin> set fixed - {[]}" "cg_fixed_user g \<noteq> [] \<Longrightarrow> cg_fixed_user h \<noteq> cg_fixed_user g" if "h \<in> set gs" for h
    using IH that by (auto split: if_splits)
  have "cg_fixed_user g \<noteq> [] \<Longrightarrow> cg_fixed_user g \<notin> set (fixed_users gs)" using later(2) by (fastforce simp: fixed_users_def)
  then have "distinct (fixed_users (g # gs))" using IH by (simp add: fixed_users_def)
  then show ?case using own later IH by auto
qed (simp add: fixed_users_def)

lemma valid_user: "validRouteUser u \<Longrightarrow> CHR 0x00 \<notin> set u"
  by (auto simp: validRouteUser_def contains_any_def list_ex_iff)

lemma hex_no_nul: "list_all hex_lower s \<Longrightarrow> CHR 0x00 \<notin> set s"
  by (auto simp: list_all_iff hex_lower_def is_digit_def less_eq_char_def)

lemma hex_ascii: "list_all hex_lower s \<Longrightarrow> ascii s"
  by (auto simp: list_all_iff ascii_def hex_lower_def is_digit_def high_byte_def less_eq_char_def)

lemma grant_valid:
  assumes "client_grant_Validate tag g = None" "well_tagged tag"
  shows "CHR 0x00 \<notin> set (cg_base_user g)" "CHR 0x00 \<notin> set (cg_fixed_user g)" "ascii (cg_fixed_user g)" "tailnetIPv4 (pi_address (cg_peer g))"
    "cg_base_user g \<noteq> []" "mode_Valid (cg_mode g)"
proof -
  have fixed: "cg_fixed_user g = [] \<or> cg_fixed_user g = FixedUser tag (cg_id g)" and base: "validRouteUser (cg_base_user g)"
    and peer: "tailnetIPv4 (pi_address (cg_peer g))" and mode: "mode_Valid (cg_mode g)"
    using assms(1) by (auto simp: client_grant_Validate_def split: if_splits)
  have tag: "list_all hex_lower (tag (cg_id g))" using assms(2) by (simp add: well_tagged_def)
  show "CHR 0x00 \<notin> set (cg_base_user g)" "cg_base_user g \<noteq> []" using valid_user [OF base] base by (auto simp: validRouteUser_def)
  show "CHR 0x00 \<notin> set (cg_fixed_user g)" using fixed hex_no_nul [OF tag] by (auto simp: FixedUser_def)
  show "ascii (cg_fixed_user g)" using fixed hex_ascii [OF tag] by (auto simp: FixedUser_def ascii_def high_byte_def less_eq_char_def)
  show "tailnetIPv4 (pi_address (cg_peer g))" "mode_Valid (cg_mode g)" by (rule peer, rule mode)
qed

lemma nul_split:
  assumes "CHR 0x00 \<notin> set u" "CHR 0x00 \<notin> set v" "i @ CHR 0x00 # u = j @ CHR 0x00 # v"
  shows "i = j \<and> u = v"
proof -
  have last: "takeWhile (\<lambda>c. c \<noteq> CHR 0x00) (rev (k @ CHR 0x00 # w)) = rev w" if "CHR 0x00 \<notin> set w" for k w :: string
    using that by (simp add: takeWhile_append)
  have "rev u = rev v" using last [OF assms(1), of i] last [OF assms(2), of j] assms(3) by simp
  then show ?thesis using assms(3) by simp
qed

section \<open>Rejections for granted identities\<close>

definition narrowed :: "members \<Rightarrow> string \<Rightarrow> string \<Rightarrow> members" where
  "narrowed rule i u = put ''user'' (strs [u]) (put ''inboundTag'' (strs [i]) rule)"

definition reject_key :: "string \<Rightarrow> string \<Rightarrow> string" where
  "reject_key i u = i @ CHR 0x00 # u"

definition reachable_users :: "members \<Rightarrow> string list \<Rightarrow> string set" where
  "reachable_users rule users = {u \<in> set users. u \<noteq> [] \<and> reaches rule ''user'' u}"

lemma reachable_users_Cons:
  "reachable_users rule (u # users) = (if u \<noteq> [] \<and> reaches rule ''user'' u then insert u (reachable_users rule users) else reachable_users rule users)"
  by (auto simp: reachable_users_def)

lemma reject_users_set:
  "reject_users rule i seen users = (rs, seen') \<Longrightarrow>
    set rs = narrowed rule i ` {u \<in> reachable_users rule users. reject_key i u \<notin> set seen} \<and>
    set seen' = set seen \<union> reject_key i ` reachable_users rule users"
proof (induction users arbitrary: seen rs seen')
  case (Cons u users)
  show ?case
  proof (cases "u = [] \<or> reject_key i u \<in> set seen \<or> \<not> reaches rule ''user'' u")
    case True
    then have "reject_users rule i seen users = (rs, seen')" using Cons.prems by (auto simp: reject_key_def)
    note IH = Cons.IH [OF this]
    show ?thesis
    proof (cases "u \<noteq> [] \<and> reaches rule ''user'' u")
      case False
      show ?thesis unfolding reachable_users_Cons if_not_P [OF False] by (rule IH)
    next
      case reach: True
      then have seen: "reject_key i u \<in> set seen" using True by blast
      then have "{v \<in> insert u (reachable_users rule users). reject_key i v \<notin> set seen} = {v \<in> reachable_users rule users. reject_key i v \<notin> set seen}"
        by blast
      then show ?thesis using IH reach seen by (auto simp: reachable_users_Cons)
    qed
  next
    case False
    then obtain rs0 where rest: "reject_users rule i (reject_key i u # seen) users = (rs0, seen')" "rs = narrowed rule i u # rs0"
      using Cons.prems by (auto simp: reject_key_def narrowed_def Let_def split: prod.splits)
    note IH = Cons.IH [OF rest(1)]
    have "{v \<in> insert u (reachable_users rule users). reject_key i v \<notin> set seen} =
        insert u {v \<in> reachable_users rule users. reject_key i v \<notin> set (reject_key i u # seen)}"
      using False by (auto simp: reject_key_def)
    then show ?thesis using IH rest(2) False by (simp add: reachable_users_Cons)
  qed
qed (simp add: reachable_users_def)

text \<open>The identities a rule rejects.\<close>

definition rejected :: "members \<Rightarrow> client_grant list \<Rightarrow> (string \<times> string) set" where
  "rejected rule gs =
     {(cg_inbound g, u) | g u. g \<in> set gs \<and> reaches rule ''inboundTag'' (cg_inbound g) \<and>
        u \<in> reachable_users rule [cg_base_user g, cg_fixed_user g]}"

lemma rejected_Cons:
  "rejected rule (g # gs) =
     (if reaches rule ''inboundTag'' (cg_inbound g) then Pair (cg_inbound g) ` reachable_users rule [cg_base_user g, cg_fixed_user g] else {}) \<union>
     rejected rule gs"
  by (auto simp: rejected_def)

lemma reject_loop_set:
  assumes "\<forall>g \<in> set gs. CHR 0x00 \<notin> set (cg_base_user g) \<and> CHR 0x00 \<notin> set (cg_fixed_user g)"
    and "\<forall>k \<in> set seen. \<exists>i u. k = reject_key i u \<and> CHR 0x00 \<notin> set u"
  shows "set (reject_loop rule seen gs) = (\<lambda>(i, u). narrowed rule i u) ` {(i, u) \<in> rejected rule gs. reject_key i u \<notin> set seen}"
  using assms
proof (induction gs arbitrary: seen)
  case (Cons g gs)
  show ?case
  proof (cases "reaches rule ''inboundTag'' (cg_inbound g)")
    case False
    then show ?thesis using Cons by (simp add: rejected_Cons)
  next
    case True
    let ?i = "cg_inbound g" and ?us = "reachable_users rule [cg_base_user g, cg_fixed_user g]"
    obtain rs seen' where run: "reject_users rule ?i seen [cg_base_user g, cg_fixed_user g] = (rs, seen')" by fastforce
    note users = reject_users_set [OF run, THEN conjunct1] reject_users_set [OF run, THEN conjunct2]
    have nul: "CHR 0x00 \<notin> set u" if "u \<in> ?us" for u using that Cons.prems(1) by (auto simp: reachable_users_def)
    have later: "CHR 0x00 \<notin> set u" if "(i, u) \<in> rejected rule gs" for i u
      using that Cons.prems(1) by (auto simp: rejected_def reachable_users_def)
    have "\<forall>k \<in> set seen'. \<exists>i u. k = reject_key i u \<and> CHR 0x00 \<notin> set u" using users(2) Cons.prems(2) nul by blast
    then have IH: "set (reject_loop rule seen' gs) = (\<lambda>(i, u). narrowed rule i u) ` {(i, u) \<in> rejected rule gs. reject_key i u \<notin> set seen'}"
      using Cons.IH Cons.prems(1) by simp
    have key: "reject_key i u \<in> reject_key ?i ` ?us \<longleftrightarrow> (i, u) \<in> Pair ?i ` ?us" if "(i, u) \<in> rejected rule gs" for i u
      using nul_split [of u _ i ?i] later [OF that] nul by (auto simp: reject_key_def)
    have split: "{(i, u) \<in> rejected rule (g # gs). reject_key i u \<notin> set seen} =
        Pair ?i ` {u \<in> ?us. reject_key ?i u \<notin> set seen} \<union> {(i, u) \<in> rejected rule gs. reject_key i u \<notin> set seen'}"
      using True key unfolding users(2) rejected_Cons by (auto simp: image_iff)
    have step: "reject_loop rule seen (g # gs) = rs @ reject_loop rule seen' gs"
      by (simp only: reject_loop.simps True not_True_eq_False if_False run Let_def prod.case)
    show ?thesis unfolding step set_append split image_Un users(1) IH by (simp add: image_image)
  qed
qed (simp add: rejected_def)

lemma applies_reject:
  assumes "scope_well rule ''inboundTag''" "scope_well rule ''user''" "reaches rule ''inboundTag'' i" "reaches rule ''user'' u"
  shows "applies x c (narrowed rule i u) \<longleftrightarrow> cn_inbound c = i \<and> cn_user c = u \<and> applies x c rule"
proof -
  have scope: "in_scope x f v rule = reaches rule f v" if "scope_well rule f" for f v
    using that by (auto simp: in_scope_def reaches_def scope_well_def split: option.splits json.splits)
  show ?thesis
    using assms(3,4) scope [OF assms(1)] scope [OF assms(2)]
    by (auto simp: applies_def narrowed_def in_scope_def [of x _ _ "put _ _ _"] on_network_def strs_def)
qed

lemma route_same_target:
  "\<forall>r \<in> set rs. str_of (map_of r ''outboundTag'') = t \<Longrightarrow>
    route x c (map JObj rs) = (if \<exists>r \<in> set rs. applies x c r then Some t else None)"
  by (induction rs) auto

lemma applies_reaches:
  assumes "scope_well rule ''inboundTag''" "scope_well rule ''user''" "applies x c rule"
  shows "reaches rule ''inboundTag'' (cn_inbound c)" "reaches rule ''user'' (cn_user c)"
  using assms by (auto simp: applies_def in_scope_def reaches_def scope_well_def split: option.splits json.splits)

text \<open>A blackhole rule rejects a granted identity on its inbound exactly when it applies there.\<close>

lemma rejects_route:
  assumes "\<forall>g \<in> set gs. CHR 0x00 \<notin> set (cg_base_user g) \<and> CHR 0x00 \<notin> set (cg_fixed_user g)"
    and "scope_well rule ''inboundTag''" "scope_well rule ''user''"
  shows "route x c (map JObj (scopedGrantRejects rule gs)) =
    (if (\<exists>g \<in> set gs. cn_inbound c = cg_inbound g \<and> cn_user c \<in> {cg_base_user g, cg_fixed_user g} - {[]}) \<and> applies x c rule
     then Some (str_of (map_of rule ''outboundTag'')) else None)"
proof -
  have set: "set (scopedGrantRejects rule gs) = (\<lambda>(i, u). narrowed rule i u) ` rejected rule gs"
    using reject_loop_set [OF assms(1), of "[]"] by (simp add: scopedGrantRejects_def)
  have "str_of (map_of r ''outboundTag'') = str_of (map_of rule ''outboundTag'')" if "r \<in> set (scopedGrantRejects rule gs)" for r
    using that unfolding set by (auto simp: narrowed_def)
  then have route: "route x c (map JObj (scopedGrantRejects rule gs)) =
      (if \<exists>(i, u) \<in> rejected rule gs. applies x c (narrowed rule i u) then Some (str_of (map_of rule ''outboundTag'')) else None)"
    using route_same_target [of "scopedGrantRejects rule gs" _ x c] unfolding set by (auto simp: case_prod_unfold)
  have "(\<exists>(i, u) \<in> rejected rule gs. applies x c (narrowed rule i u)) \<longleftrightarrow> (cn_inbound c, cn_user c) \<in> rejected rule gs \<and> applies x c rule"
    using applies_reject [OF assms(2,3)] by (fastforce simp: rejected_def reachable_users_def)
  moreover have "(cn_inbound c, cn_user c) \<in> rejected rule gs \<longleftrightarrow>
      (\<exists>g \<in> set gs. cn_inbound c = cg_inbound g \<and> cn_user c \<in> {cg_base_user g, cg_fixed_user g} - {[]})" if "applies x c rule"
    using applies_reaches [OF assms(2,3) that] by (auto simp: rejected_def reachable_users_def)
  ultimately show ?thesis unfolding route by auto
qed

definition granted_identity :: "client_grant list \<Rightarrow> connection \<Rightarrow> bool" where
  "granted_identity gs c =
     (\<exists>g \<in> set gs. cn_inbound c = cg_inbound g \<and> cn_user c \<in> {cg_base_user g, cg_fixed_user g} - {[]})"

lemma all_rejects_route:
  assumes "\<forall>g \<in> set gs. CHR 0x00 \<notin> set (cg_base_user g) \<and> CHR 0x00 \<notin> set (cg_fixed_user g)"
    and "check_rules known rules = None" "\<And>t. map_of known t = Some True \<longleftrightarrow> blackhole config t"
  shows "route x c (map JObj (concat (map (rejects known gs) rules))) =
    (if granted_identity gs c then route x c (filter (blocking config) rules) else None)"
  using assms(2)
proof (induction rules)
  case (Cons v rules)
  obtain rule where v: "v = JObj rule" using Cons.prems by (cases v) auto
  have well: "scope_well rule ''inboundTag''" "scope_well rule ''user''" and rest: "check_rules known rules = None"
    using Cons.prems v by (auto split: if_splits)
  have hole: "map_of known (str_of (map_of rule ''outboundTag'')) = Some True \<longleftrightarrow> blocking config v"
    by (simp add: assms(3) blocking_def v)
  show ?case
  proof (cases "blocking config v")
    case True
    then have "rejects known gs v = scopedGrantRejects rule gs" using hole by (simp add: rejects_def v)
    then show ?thesis
      using rejects_route [OF assms(1) well, of x c, folded granted_identity_def] Cons.IH [OF rest] True
      by (auto simp: route_append v)
  next
    case False
    then show ?thesis using hole Cons.IH [OF rest] by (simp add: rejects_def v)
  qed
qed simp

section \<open>Fixed identities\<close>

text \<open>The exit of a fixed identity, or the denial.\<close>

definition fixed_target :: "(string \<Rightarrow> string) \<Rightarrow> client_grant \<Rightarrow> connection \<Rightarrow> string" where
  "fixed_target tag g c =
     (if cg_enabled g \<and> cn_inbound c = cg_inbound g \<and> cn_network c = ''tcp''
      then FixedOutbound tag (cg_id g) else grantDenyTag)"

lemma own_rules_apply:
  assumes "mt_free x []"
  shows "applies x c (fixed_scope g n t) \<longleftrightarrow>
      cn_inbound c = cg_inbound g \<and> cn_user c = cg_fixed_user g \<and> on_network x (cn_network c) [(''network'', JStr n)]"
    "applies x c (deny_user u) \<longleftrightarrow> cn_user c = u"
    "applies x c (private_rule g) \<Longrightarrow> cn_user c = cg_base_user g"
proof -
  have "further (fixed_scope g n t) = []" "further (deny_user u) = []" by (simp_all add: further_def fixed_scope_def deny_user_def)
  then show "applies x c (fixed_scope g n t) \<longleftrightarrow>
      cn_inbound c = cg_inbound g \<and> cn_user c = cg_fixed_user g \<and> on_network x (cn_network c) [(''network'', JStr n)]"
    "applies x c (deny_user u) \<longleftrightarrow> cn_user c = u"
    using assms by (auto simp: applies_def fixed_scope_def deny_user_def in_scope_def on_network_def strs_def)
  show "applies x c (private_rule g) \<Longrightarrow> cn_user c = cg_base_user g"
    by (auto simp: applies_def private_rule_def in_scope_def strs_def)
qed

lemma fixed_rules_route:
  assumes "mt_free x []" "mode_Valid (cg_mode g)"
  shows "route x c (map JObj (fixed_rules tag g)) =
    (if cg_fixed_user g \<noteq> [] \<and> cn_user c = cg_fixed_user g then Some (fixed_target tag g c) else None)"
proof -
  have net: "on_network x n [(''network'', JStr ''udp'')] \<longleftrightarrow> n = ''udp''" "on_network x n [(''network'', JStr ''tcp'')] \<longleftrightarrow> n = ''tcp''" for n
    by (simp_all add: on_network_def str_of_def)
  have target: "str_of (map_of (fixed_scope g n t) ''outboundTag'') = t" "str_of (map_of (deny_user u) ''outboundTag'') = grantDenyTag" for n t u
    by (simp_all add: fixed_scope_def deny_user_def str_of_def)
  show ?thesis
    by (auto simp: fixed_rules_def own_rules_apply [OF assms(1)] assms(2) net target fixed_target_def)
qed

lemma all_fixed_route:
  assumes "mt_free x []" "distinct (fixed_users gs)" "g \<in> set gs" "\<forall>h \<in> set gs. mode_Valid (cg_mode h)"
    and "cg_fixed_user g \<noteq> []" "cn_user c = cg_fixed_user g"
  shows "route x c (map JObj (concat (map (fixed_rules tag) gs))) = Some (fixed_target tag g c)"
  using assms(2,3,4)
proof (induction gs)
  case (Cons h gs)
  have mode: "mode_Valid (cg_mode h)" using Cons.prems(3) by simp
  show ?case
  proof (cases "h = g")
    case True
    then show ?thesis using assms(5,6) mode by (simp add: route_append fixed_rules_route [OF assms(1)])
  next
    case False
    then have "g \<in> set gs" using Cons.prems(2) by simp
    then have "cg_fixed_user h \<noteq> [] \<Longrightarrow> cg_fixed_user h \<noteq> cg_fixed_user g"
      using Cons.prems(1) assms(5) by (auto simp: fixed_users_def)
    then show ?thesis using Cons.IH Cons.prems(1,3) \<open>g \<in> set gs\<close> assms(6)
      by (auto simp: route_append fixed_rules_route [OF assms(1) mode] fixed_users_def split: if_splits)
  qed
qed simp

lemma distinct_fixed_users:
  "distinct (fixed_users gs) \<Longrightarrow> g \<in> set gs \<Longrightarrow> h \<in> set gs \<Longrightarrow> cg_fixed_user h = cg_fixed_user g \<Longrightarrow> cg_fixed_user g \<noteq> [] \<Longrightarrow> h = g"
  by (induction gs) (auto simp: fixed_users_def image_iff split: if_splits)

lemma other_fixed_route:
  assumes "mt_free x []" "\<forall>h \<in> set gs. mode_Valid (cg_mode h)" "cn_user c \<notin> set (fixed_users gs)"
  shows "route x c (map JObj (concat (map (fixed_rules tag) gs))) = None"
  using assms(2,3)
  by (induction gs) (auto simp: route_append fixed_rules_route [OF assms(1)] fixed_users_def split: if_splits)

lemma private_route:
  "route x c (map JObj (map private_rule gs)) = (if \<exists>g \<in> set gs. applies x c (private_rule g) then Some grantDenyTag else None)"
proof -
  have "\<forall>r \<in> set (map private_rule gs). str_of (map_of r ''outboundTag'') = grantDenyTag" by (simp add: private_rule_def str_of_def)
  from route_same_target [OF this, of x c] show ?thesis by simp
qed

section \<open>The composed settings\<close>

lemma grant_routes_cases:
  assumes "grant_routes tag grants config = Inr config'"
  obtains routing rules known gs where "map_of config ''routing'' = Some (JObj routing)" "map_of routing ''rules'' = Some (JArr rules)"
    "map_of config ''outbounds'' = Some (JArr (outbounds_of config))" "\<And>t. map_of known t = Some True \<longleftrightarrow> blackhole config t"
    "rules_of config = rules" "gs = sort_key cg_id grants" "check_grants tag [] [] [] gs = None"
    "\<forall>g \<in> set gs. cg_base_user g \<notin> set (fixed_users gs)" "check_rules known rules = None"
    "config' = with_routes config routing
       (map JObj (map private_rule gs @ concat (map (rejects known gs) rules) @ concat (map (fixed_rules tag) gs)) @ rules)
       (outbounds_of config @ concat (map (fixed_outbounds tag) gs) @ [deny_outbound])"
proof -
  let ?reserved = "\<lambda>t. t = grantDenyTag \<or> has_prefix t grantPrivateTag \<or> has_prefix t ''vastora-combination-''"
  obtain ob obs where obs: "map_of config ''outbounds'' = Some (JArr (ob # obs))"
    using assms by (auto simp: grant_routes_def split: option.splits json.splits list.splits)
  obtain routing where routing: "map_of config ''routing'' = Some (JObj routing)"
    using assms obs by (auto simp: grant_routes_def split: option.splits json.splits)
  obtain rules where rules: "map_of routing ''rules'' = Some (JArr rules)"
    using assms obs routing by (auto simp: grant_routes_def split: option.splits json.splits)
  obtain outs where outs: "scan_outbounds ?reserved ''landing: invalid original outbound''
      ''landing: conflicting client route ownership'' [] (ob # obs) = Inr outs"
    using assms obs routing rules by (auto simp: grant_routes_def split: sum.splits if_splits)
  obtain known where known: "scan_api (\<lambda>t. t = grantDenyTag \<or> has_prefix t grantPrivateTag) ''landing: ambiguous API route'' config outs = Inr known"
    using assms obs routing rules outs by (auto simp: grant_routes_def split: sum.splits if_splits)
  note run = assms [unfolded grant_routes_def, simplified obs routing rules outs known Let_def option.case json.case list.case sum.case]
  have of: "outbounds_of config = ob # obs" "rules_of config = rules" using obs routing rules by (simp_all add: outbounds_of_def rules_of_def)
  have hole: "map_of known t = Some True \<longleftrightarrow> blackhole config t" for t
    using scan_api_known [OF known, of t] scan_outbounds_known [OF outs, of t] unfolding blackhole_alt of by simp
  show thesis
    by (rule that [OF routing rules _ hole of(2) refl]) (use run obs of(1) in \<open>auto simp: list_ex_iff split: option.splits if_splits\<close>)
qed

lemma rejects_ok:
  assumes "\<forall>g \<in> set gs. CHR 0x00 \<notin> set (cg_base_user g) \<and> CHR 0x00 \<notin> set (cg_fixed_user g)"
    and "\<forall>g \<in> set gs. valid_utf8 (cg_inbound g) \<and> valid_utf8 (cg_base_user g) \<and> valid_utf8 (cg_fixed_user g)"
    and "json_ok d v" "1 < d" "r \<in> set (rejects known gs v)"
  shows "json_ok d (JObj r)"
proof -
  obtain rule where v: "v = JObj rule" and "r \<in> set (scopedGrantRejects rule gs)"
    using assms(5) by (auto simp: rejects_def split: json.splits if_splits)
  then obtain i u where r: "r = narrowed rule i u" and "(i, u) \<in> rejected rule gs"
    using reject_loop_set [OF assms(1), of "[]" rule] by (auto simp: scopedGrantRejects_def)
  then have "valid_utf8 i" "valid_utf8 u" using assms(2) by (auto simp: rejected_def reachable_users_def)
  then show ?thesis unfolding r narrowed_def using assms(3,4) v by (intro json_ok_put ascii_literals json_ok_strs) auto
qed

lemma own_rules_ok:
  assumes "client_grant_Validate tag g = None" "well_tagged tag" "valid_utf8 (cg_inbound g)" "valid_utf8 (cg_base_user g)" "1 < d"
  shows "json_ok d (JObj (private_rule g))" "r \<in> set (fixed_rules tag g) \<Longrightarrow> json_ok d (JObj r)"
    "3 < d \<Longrightarrow> v \<in> set (fixed_outbounds tag g) \<Longrightarrow> json_ok d v"
proof -
  have addr: "ascii (pi_address (cg_peer g))" and fixed: "valid_utf8 (cg_fixed_user g)"
    using grant_valid [OF assms(1,2)] tailnet_ascii ascii_valid by blast+
  have "ascii (pi_address (cg_peer g) @ ''/32'')" using addr by (simp add: ascii_def high_byte_def less_eq_char_def)
  note cidr = ascii_valid [OF this]
  have "ascii (FixedOutbound tag (cg_id g))"
    using assms(2) hex_ascii [of "tag (cg_id g)"] by (simp add: well_tagged_def FixedOutbound_def ascii_def high_byte_def less_eq_char_def)
  note exit = ascii_valid [OF this]
  have strs: "json_ok (d - 1) (strs [t])" if "valid_utf8 t" for t using json_ok_strs [of "d - 1" "[t]"] that assms(5) by simp
  show "json_ok d (JObj (private_rule g))"
    using strs assms(3,4,5) cidr by (simp add: private_rule_def less_char_def)
  have scope: "json_ok d (JObj (fixed_scope g n t))" if "valid_utf8 n" "valid_utf8 t" for n t
    using strs assms(3,5) fixed that by (simp add: fixed_scope_def less_char_def)
  have "json_ok d (JObj (deny_user (cg_fixed_user g)))" using strs assms(5) fixed by (simp add: deny_user_def less_char_def)
  then show "r \<in> set (fixed_rules tag g) \<Longrightarrow> json_ok d (JObj r)"
    using scope exit by (auto simp: fixed_rules_def simp del: json_ok.simps split: if_splits)
  show "3 < d \<Longrightarrow> v \<in> set (fixed_outbounds tag g) \<Longrightarrow> json_ok d v"
    using socks_ok [OF exit addr] by (auto simp: fixed_outbounds_def simp del: json_ok.simps split: if_splits)
qed

lemma grant_routes_ok:
  assumes "grant_routes tag grants config = Inr config'" "json_ok max_depth (JObj config)" "well_tagged tag"
    and "\<forall>g \<in> set grants. valid_utf8 (cg_inbound g) \<and> valid_utf8 (cg_base_user g)"
  shows "json_ok max_depth (JObj config')"
  using assms(1)
proof (cases rule: grant_routes_cases)
  case (1 routing rules known gs)
  let ?d = "max_depth - 2 - 1"
  have d: "1 < ?d" "3 < max_depth - 1 - 1" "1 < max_depth - 1 - 1" by (simp_all add: max_depth_def)
  have rules: "json_ok (max_depth - 2) (JArr rules)" by (rule json_ok_rules_of [OF assms(2) 1(1,2)])
  have outs: "json_ok (max_depth - 1) (JArr (outbounds_of config))" by (rule json_ok_get [OF assms(2) 1(3)])
  have valid: "client_grant_Validate tag g = None" "valid_utf8 (cg_inbound g)" "valid_utf8 (cg_base_user g)" if "g \<in> set gs" for g
    using check_grants_valid [OF 1(7)] assms(4) that 1(6) by auto
  note own = own_rules_ok [OF valid(1) assms(3) valid(2,3)]
  have "json_ok ?d (JObj r)" if "v \<in> set rules" "r \<in> set (rejects known gs v)" for v r
    by (rule rejects_ok [OF _ _ _ d(1) that(2)])
      (use rules that(1) valid(2,3) grant_valid [OF valid(1) assms(3)] ascii_valid in auto)
  moreover have "json_ok (max_depth - 1 - 1) deny_outbound" by (simp add: deny_outbound_def max_depth_def less_char_def)
  ultimately show ?thesis
    unfolding 1(10) using rules outs own(1) [OF _ _ _ d(1)] own(2) [OF _ _ _ d(1)] own(3) [OF _ _ _ d(3,2)]
    by (intro with_routes_ok [OF assms(2) 1(1)]) (auto simp del: json_ok.simps(6))
qed

text \<open>Routing under the composed rules, first for fixed identities and then for everyone else.\<close>

lemma grant_routes_route:
  assumes "grant_routes tag grants config = Inr config'" "well_tagged tag" "mt_free x []"
  shows "g \<in> set grants \<Longrightarrow> cg_fixed_user g \<noteq> [] \<Longrightarrow> cn_user c = cg_fixed_user g \<Longrightarrow>
      route x c (rules_of config') =
        Some (case if cn_inbound c = cg_inbound g then route x c (filter (blocking config) (rules_of config)) else None of
                Some t \<Rightarrow> t | None \<Rightarrow> fixed_target tag g c)"
    and "cn_user c \<notin> set (fixed_users grants) \<Longrightarrow>
      route x c (rules_of config') =
        (if \<exists>h \<in> set grants. applies x c (private_rule h) then Some grantDenyTag
         else case if granted_identity grants c then route x c (filter (blocking config) (rules_of config)) else None of
           Some t \<Rightarrow> Some t | None \<Rightarrow> route x c (rules_of config))"
proof -
  obtain routing known gs where gs: "gs = sort_key cg_id grants" and checked: "check_grants tag [] [] [] gs = None"
    and base: "\<forall>g \<in> set gs. cg_base_user g \<notin> set (fixed_users gs)" and rules: "check_rules known (rules_of config) = None"
    and hole: "\<And>t. map_of known t = Some True \<longleftrightarrow> blackhole config t"
    and after: "config' = with_routes config routing
       (map JObj (map private_rule gs @ concat (map (rejects known gs) (rules_of config)) @ concat (map (fixed_rules tag) gs)) @ rules_of config)
       (outbounds_of config @ concat (map (fixed_outbounds tag) gs) @ [deny_outbound])"
    using grant_routes_cases [OF assms(1)] by metis
  have same: "set gs = set grants" using gs by simp
  have sets: "granted_identity gs c = granted_identity grants c" "set (fixed_users gs) = set (fixed_users grants)"
    using same by (simp_all add: granted_identity_def fixed_users_def)
  note valid = check_grants_valid [OF checked]
  have vd: "client_grant_Validate tag g = None" if "g \<in> set gs" for g using valid that by blast
  have modes: "\<forall>h \<in> set gs. mode_Valid (cg_mode h)" and
    nul: "\<forall>g \<in> set gs. CHR 0x00 \<notin> set (cg_base_user g) \<and> CHR 0x00 \<notin> set (cg_fixed_user g)"
    using grant_valid [OF vd assms(2)] by blast+
  note rejects = all_rejects_route [OF nul rules hole, of x c]
  note split = after rules_of_with_routes map_append append_assoc route_append private_route rejects
  have fixed: "cg_fixed_user h \<in> set (fixed_users gs)" if "h \<in> set gs" "cg_fixed_user h \<noteq> []" for h
    using that by (simp add: fixed_users_def)
  show "route x c (rules_of config') =
        Some (case if cn_inbound c = cg_inbound g then route x c (filter (blocking config) (rules_of config)) else None of
                Some t \<Rightarrow> t | None \<Rightarrow> fixed_target tag g c)"
    if g: "g \<in> set grants" "cg_fixed_user g \<noteq> []" "cn_user c = cg_fixed_user g"
  proof -
    have mem: "g \<in> set gs" using g(1) same by simp
    have priv: "\<not> (\<exists>h \<in> set gs. applies x c (private_rule h))"
      using own_rules_apply(3) [of x c] fixed [OF mem g(2)] base g(3) assms(3) by metis
    have own: "h = g" if "h \<in> set gs" "cg_fixed_user h = cg_fixed_user g" for h
      using valid mem that g(2) by (metis distinct_fixed_users)
    have "granted_identity gs c \<longleftrightarrow> cn_inbound c = cg_inbound g"
      using own fixed [OF mem g(2)] base g(2,3) mem unfolding granted_identity_def by (metis Diff_iff insert_iff singletonD)
    then show ?thesis
      using all_fixed_route [OF assms(3) _ mem modes g(2,3), of tag] valid
      by (simp only: split priv if_False option.case) (auto split: option.split)
  qed
  show "route x c (rules_of config') =
        (if \<exists>h \<in> set grants. applies x c (private_rule h) then Some grantDenyTag
         else case if granted_identity grants c then route x c (filter (blocking config) (rules_of config)) else None of
           Some t \<Rightarrow> Some t | None \<Rightarrow> route x c (rules_of config))"
    if "cn_user c \<notin> set (fixed_users grants)"
    using other_fixed_route [OF assms(3) modes, of c tag] that sets
    by (simp only: split same) (auto split: option.split)
qed


definition s_tag :: "string \<Rightarrow> string" where
  "s_tag i = ''00ff''"

definition s_grant :: client_grant where
  "s_grant = \<lparr>cg_id = ''g1'', cg_parent = replicate 64 CHR ''a'', cg_inbound = ''in-1'', cg_base_user = ''ann'',
     cg_base_identity = replicate 64 CHR ''a'', cg_fixed_user = FixedUser s_tag ''g1'', cg_fixed_identity = replicate 64 CHR ''b'',
     cg_peer = s_exit, cg_mode = ''fixed'', cg_enabled = True, cg_hide_base = False\<rparr>"

lemma s_client_change: "\<exists>change. PrepareClientRoutes s_tag s_raw 1 None [s_grant] = Inr change"
proof -
  have "\<not> isl (grant_routes s_tag [s_grant] s_config)" by code_simp
  then obtain config' where "grant_routes s_tag [s_grant] s_config = Inr config'" by (cases "grant_routes s_tag [s_grant] s_config") auto
  then show ?thesis by (simp add: PrepareClientRoutes_def s_raw_settings client_base_def)
qed


end
