(* ===== verification/Landing_Checkpoint.thy ===== *)
theory Landing_Checkpoint
  imports Landing_Route_Laws
begin

text \<open>
  The checkpoint of a route change: what \<^verbatim>\<open>NextWrite\<close> lets an agent write over the current settings,
  that a repeated write is recognised, and that a prepared change can be applied and undone.
\<close>

section \<open>Canonical settings\<close>

definition settings_of :: "string \<Rightarrow> members option" where
  "settings_of raw = (case decodeRouteSettings raw of Inr (config, _) \<Rightarrow> Some config | Inl _ \<Rightarrow> None)"

text \<open>The texts whose hashes a write compares. The digest is assumed to tell them apart.\<close>

definition canonical_text :: "string \<Rightarrow> string" where
  "canonical_text raw = (case decodeRouteSettings raw of Inr (_, doc) \<Rightarrow> doc | Inl err \<Rightarrow> [])"

definition digest_ok :: "(string \<Rightarrow> string) \<Rightarrow> route_change \<Rightarrow> string \<Rightarrow> bool" where
  "digest_ok sha change current = inj_on sha (canonical_text ` {rc_before change, rc_after change, rc_replaces change, current})"

lemma hash_settings:
  assumes "RouteSettingsHash sha a = Inr h" "RouteSettingsHash sha b = Inr h'" "inj_on sha (canonical_text ` {a, b})"
  shows "h = h' \<longleftrightarrow> settings_of a = settings_of b"
proof -
  obtain m doc where a: "decodeRouteSettings a = Inr (m, doc)" "h = sha doc"
    using assms(1) by (auto simp: RouteSettingsHash_def split: sum.splits)
  obtain m' doc' where b: "decodeRouteSettings b = Inr (m', doc')" "h' = sha doc'"
    using assms(2) by (auto simp: RouteSettingsHash_def split: sum.splits)
  have "sha doc = sha doc' \<longleftrightarrow> doc = doc'" using assms(3) a(1) b(1) by (auto simp: canonical_text_def)
  moreover have "doc = doc' \<longleftrightarrow> m = m'" using decode_settings(2,3) [OF a(1)] decode_settings(2,3) [OF b(1)] by (metis json.inject(5) option.inject)
  ultimately show ?thesis using a b by (simp add: settings_of_def)
qed

lemma hash_defined: "(\<exists>h. RouteSettingsHash sha raw = Inr h) \<longleftrightarrow> settings_of raw \<noteq> None"
  by (auto simp: RouteSettingsHash_def settings_of_def split: sum.splits)

section \<open>Writing\<close>

text \<open>\<^verbatim>\<open>NextWrite\<close> over settings instead of hashes.\<close>

definition next_write :: "route_change \<Rightarrow> string \<Rightarrow> bool \<Rightarrow> (string \<times> bool) option" where
  "next_write change current enable =
     (let want = if enable then rc_after change else rc_before change
      in if rc_revision change = 0 \<or> None \<in> settings_of ` {rc_before change, rc_after change, current} \<or>
            settings_of (rc_before change) = settings_of (rc_after change) then None
         else if settings_of current = (if enable then settings_of (rc_after change) else settings_of (rc_before change)) then Some (want, False)
         else if settings_of current = (if enable then settings_of (rc_before change) else settings_of (rc_after change)) \<or>
             rc_replaces change \<noteq> [] \<and> settings_of current = settings_of (rc_replaces change)
         then Some (want, True) else None)"

lemma write_choice:
  assumes "b = a \<longleftrightarrow> sb = sa" "c = a \<longleftrightarrow> sc = sa" "c = b \<longleftrightarrow> sc = sb"
  shows "(if b = a then Inl e
      else if c = (if enable then a else b) then Inr (want, False)
      else if c \<noteq> (if enable then b else a) then (if replaced then Inr (want, True) else Inl e') else Inr (want, True)) = Inr r \<longleftrightarrow>
    (if sb = sa then None
     else if sc = (if enable then sa else sb) then Some (want, False)
     else if sc = (if enable then sb else sa) \<or> replaced then Some (want, True) else None) = Some r"
  using assms by (cases enable) auto

lemma NextWrite_hashes:
  assumes "NextWrite sha change current enable = Inr r"
  shows "rc_revision change \<noteq> 0" "\<exists>b. RouteSettingsHash sha (rc_before change) = Inr b"
    "\<exists>a. RouteSettingsHash sha (rc_after change) = Inr a" "\<exists>c. RouteSettingsHash sha current = Inr c"
  using assms unfolding NextWrite_def
  by (cases "rc_revision change = 0"; cases "RouteSettingsHash sha (rc_before change)"; cases "RouteSettingsHash sha (rc_after change)";
      cases "RouteSettingsHash sha current"; simp split: if_split_asm)+

lemma NextWrite_settings:
  assumes "digest_ok sha change current"
  shows "NextWrite sha change current enable = Inr r \<longleftrightarrow> next_write change current enable = Some r"
proof (cases "rc_revision change = 0 \<or> None \<in> settings_of ` {rc_before change, rc_after change, current}")
  case True
  have "NextWrite sha change current enable \<noteq> Inr r"
  proof
    assume "NextWrite sha change current enable = Inr r"
    note run = NextWrite_hashes [OF this]
    show False using True run(1) run(2-4) [unfolded hash_defined] by auto
  qed
  moreover have "next_write change current enable = None" unfolding next_write_def Let_def by (rule if_P) (use True in blast)
  ultimately show ?thesis by simp
next
  case False
  then obtain b a c where hash: "RouteSettingsHash sha (rc_before change) = Inr b" "RouteSettingsHash sha (rc_after change) = Inr a"
      "RouteSettingsHash sha current = Inr c"
    using hash_defined [of sha "rc_before change"] hash_defined [of sha "rc_after change"] hash_defined [of sha current] by auto
  have inj: "inj_on sha (canonical_text ` {x, y})" if "{x, y} \<subseteq> {rc_before change, rc_after change, rc_replaces change, current}" for x y
    using assms unfolding digest_ok_def by (rule inj_on_subset) (use that in blast)
  have eqs: "b = a \<longleftrightarrow> settings_of (rc_before change) = settings_of (rc_after change)"
      "c = a \<longleftrightarrow> settings_of current = settings_of (rc_after change)" "c = b \<longleftrightarrow> settings_of current = settings_of (rc_before change)"
    by (rule hash_settings [OF hash(1,2) inj], simp, rule hash_settings [OF hash(3,2) inj], simp, rule hash_settings [OF hash(3,1) inj], simp)
  have replaced: "RouteSettingsHash sha (rc_replaces change) = Inr c \<longleftrightarrow> settings_of current = settings_of (rc_replaces change)"
  proof (cases "settings_of (rc_replaces change) = None")
    case True
    then show ?thesis using hash_defined [of sha "rc_replaces change"] False by (metis imageI insertCI)
  next
    case False
    then obtain r where r: "RouteSettingsHash sha (rc_replaces change) = Inr r" using hash_defined [of sha "rc_replaces change"] by auto
    show ?thesis using hash_settings [OF hash(3) r inj] r by auto
  qed
  have live: "(rc_revision change = 0) = False" "(None \<in> settings_of ` {rc_before change, rc_after change, current}) = False"
    using False by blast+
  show ?thesis
    unfolding NextWrite_def next_write_def Let_def hash sum.case live replaced HOL.simp_thms if_False
    by (rule write_choice [OF eqs])
qed

lemma digest_ok_mono:
  "digest_ok sha change current \<Longrightarrow> c \<in> {rc_before change, rc_after change, rc_replaces change, current} \<Longrightarrow> digest_ok sha change c"
  unfolding digest_ok_def by (erule inj_on_subset) auto

lemma next_write_own:
  assumes "next_write change current enable = Some (doc, write)"
  shows "doc = (if enable then rc_after change else rc_before change)" "write \<longleftrightarrow> settings_of current \<noteq> settings_of doc"
    "settings_of current \<in> settings_of ` ({rc_before change, rc_after change} \<union> (if rc_replaces change = [] then {} else {rc_replaces change}))"
    "next_write change doc enable = Some (doc, False)"
    "next_write change doc (\<not> enable) = Some (if enable then rc_before change else rc_after change, True)"
proof -
  have some: "rc_revision change \<noteq> 0" "None \<notin> settings_of ` {rc_before change, rc_after change, current}"
      "settings_of (rc_before change) \<noteq> settings_of (rc_after change)"
    using assms unfolding next_write_def Let_def by (metis option.distinct(1))+
  show doc: "doc = (if enable then rc_after change else rc_before change)"
    using assms unfolding next_write_def Let_def by (simp split: if_split_asm)
  show "write \<longleftrightarrow> settings_of current \<noteq> settings_of doc"
    using assms doc unfolding next_write_def Let_def by (cases enable) (simp_all split: if_split_asm)
  show "settings_of current \<in> settings_of ` ({rc_before change, rc_after change} \<union> (if rc_replaces change = [] then {} else {rc_replaces change}))"
    using assms unfolding next_write_def Let_def 
    by (cases enable; cases "rc_replaces change = []"; simp split: if_split_asm) (rule disj_commute [THEN iffD1], assumption)+
  have own: "None \<notin> settings_of ` {rc_before change, rc_after change, doc}" using some(2) doc by (cases enable) simp_all
  show "next_write change doc enable = Some (doc, False)"
    unfolding next_write_def Let_def using some(1,3) own doc by (cases enable) simp_all
  show "next_write change doc (\<not> enable) = Some (if enable then rc_before change else rc_after change, True)"
    unfolding next_write_def Let_def using some(1,3) some(3) [symmetric] own doc by (cases enable) simp_all
qed

text \<open>
  C11. The agent never overwrites routing settings it does not own. A write is offered only when the
  current settings are those before or after the change, or those the change replaces; it offers the
  side asked for, and is needed exactly when the current settings differ from it. Asking again after the
  write reports that nothing is left to do, and asking for the other side then undoes it.
\<close>

theorem route_write_owned:
  assumes "digest_ok sha change current" "NextWrite sha change current enable = Inr (doc, write)"
  shows "doc = (if enable then rc_after change else rc_before change) \<and> (write \<longleftrightarrow> settings_of current \<noteq> settings_of doc) \<and>
    settings_of current \<in> settings_of ` ({rc_before change, rc_after change} \<union> (if rc_replaces change = [] then {} else {rc_replaces change})) \<and>
    NextWrite sha change doc enable = Inr (doc, False) \<and>
    NextWrite sha change doc (\<not> enable) = Inr (if enable then rc_before change else rc_after change, True)"
proof -
  have "next_write change current enable = Some (doc, write)" using assms(2) NextWrite_settings [OF assms(1)] by blast
  note own = next_write_own [OF this]
  have "digest_ok sha change doc" by (rule digest_ok_mono [OF assms(1)]) (use own(1) in \<open>cases enable; simp\<close>)
  then show ?thesis using own NextWrite_settings by blast
qed

section \<open>Applying and undoing a prepared change\<close>

lemma put_put [simp]: "put k v (put k w m) = put k v m"
  by (induction k w m rule: put.induct) auto

lemma api_first_twice [simp]: "api_first t (api_first t rules) = api_first t rules"
proof (cases "dropWhile (\<lambda>v. \<not> api_rule t v) rules")
  case (Cons v post)
  then have "api_rule t v" using hd_dropWhile [of "\<lambda>v. \<not> api_rule t v" rules] by simp
  then show ?thesis by (simp add: api_first_def Cons)
next
  case Nil
  then have "api_first t rules = rules" by (simp only: api_first_def list.case)
  then show ?thesis by simp
qed

lemma canonical_api_twice: "canonical_api (canonical_api config) = canonical_api config"
  by (auto simp: canonical_api_def split: option.splits json.splits)

lemma canonical_api_outbounds: "outbounds_of (canonical_api config) = outbounds_of config"
  by (auto simp: canonical_api_def outbounds_of_def split: option.splits json.splits)

lemma settings_of_marshal:
  assumes "json_ok max_depth (JObj config)" "length (marshal (JObj config)) \<le> 4 * 2 ^ 20"
  shows "settings_of (marshal (JObj config)) = Some (canonical_api config)"
proof -
  have "marshal (JObj config) \<noteq> []" by (cases config) auto
  then have "(marshal (JObj config) = [] \<or> 4 * 2 ^ 20 < length (marshal (JObj config))) = False"
    using leD [OF assms(2)] by blast
  then show ?thesis
    by (simp only: settings_of_def decodeRouteSettings_def json_decode_marshal [OF assms(1)] if_False option.case json.case sum.case prod.case)
qed

lemma prepared_settings:
  assumes "PrepareRouteChange raw revision tags peer = Inr change" "\<forall>t \<in> set tags. valid_utf8 t"
    and "length (rc_before change) \<le> 4 * 2 ^ 20" "length (rc_after change) \<le> 4 * 2 ^ 20"
  obtains config config' where "settings_of raw = Some config" "settings_of (rc_before change) = Some config"
    "settings_of (rc_after change) = Some config'" "config \<noteq> config'" "rc_revision change \<noteq> 0" "rc_replaces change = []"
proof -
  obtain config doc config' where plan: "tailnetIPv4 (pi_address peer)" and dec: "decodeRouteSettings raw = Inr (config, doc)"
    and force: "force_route tags (pi_address peer) config = Inr config'"
    and change: "rc_before change = doc" "rc_after change = marshal (JObj config')" "rc_revision change \<noteq> 0" "rc_replaces change = []"
    using assms(1) by (auto simp: PrepareRouteChange_def split: if_splits sum.splits prod.splits)
  note doc = decode_settings [OF dec]
  have raw: "settings_of raw = Some config" by (simp only: settings_of_def dec sum.case prod.case)
  obtain m where m: "config = canonical_api m"
    using dec by (auto simp: decodeRouteSettings_def split: if_splits option.splits json.splits)
  have before: "settings_of (rc_before change) = Some config"
    using settings_of_marshal [OF doc(1)] assms(3) m canonical_api_twice by (simp only: change(1) doc(2))
  have ok: "json_ok max_depth (JObj config')" by (rule force_route_ok [OF force doc(1) assms(2) tailnet_ascii [OF plan]])
  have after: "settings_of (rc_after change) = Some (canonical_api config')"
    using settings_of_marshal [OF ok] assms(4) by (simp only: change(2))
  have "outbounds_of config' = outbounds_of config @ [socks_outbound proxyOutboundTag (pi_address peer)]"
    using force by (cases rule: force_route_cases) simp
  then have "outbounds_of (canonical_api config') \<noteq> outbounds_of config" by (simp add: canonical_api_outbounds)
  then have "config \<noteq> canonical_api config'" by metis
  from that [OF raw before after this change(3,4)] show thesis .
qed

text \<open>The sample change, with the identity in place of the digest.\<close>

lemma s_change_sizes:
  assumes "PrepareRouteChange s_raw 1 [''in-1''] s_exit = Inr change"
  shows "length (rc_before change) \<le> 4 * 2 ^ 20" "length (rc_after change) \<le> 4 * 2 ^ 20"
proof -
  obtain config' where force: "force_route [''in-1''] (pi_address s_exit) s_config = Inr config'"
    and change: "rc_before change = s_raw" "rc_after change = marshal (JObj config')"
    using assms by (auto simp: PrepareRouteChange_def s_raw_settings split: if_splits sum.splits)
  have "length s_raw < 1000" by code_simp
  then show "length (rc_before change) \<le> 4 * 2 ^ 20" by (simp add: change(1))
  have "case force_route [''in-1''] (pi_address s_exit) s_config of Inr c \<Rightarrow> length (marshal (JObj c)) < 1000 | Inl _ \<Rightarrow> False" by code_simp
  then have "length (marshal (JObj config')) < 1000" unfolding force by (simp only: sum.case)
  then show "length (rc_after change) \<le> 4 * 2 ^ 20" unfolding change(2) by (rule order_trans [OF less_imp_le]) simp
qed

lemma digest_ok_id: "digest_ok (\<lambda>s. s) change current"
  by (simp add: digest_ok_def)

lemma in_1_valid: "\<forall>t \<in> set [''in-1'']. valid_utf8 t"
proof -
  have "valid_utf8 ''in-1''" by (rule ascii_valid) (simp add: ascii_def high_byte_def less_eq_char_def)
  then show ?thesis by simp
qed

text \<open>
  C37. A prepared change can be applied to the settings it was prepared from and undone again. As long as
  both documents keep within the size the reader accepts, the first write offers the new document, a
  repetition reports it in place, and undoing it offers a document with exactly the original settings.
\<close>

theorem prepared_change_applies_and_undoes:
  assumes "PrepareRouteChange raw revision tags peer = Inr change" "\<forall>t \<in> set tags. valid_utf8 t"
    and "length (rc_before change) \<le> 4 * 2 ^ 20" "length (rc_after change) \<le> 4 * 2 ^ 20" "digest_ok sha change raw"
  shows "NextWrite sha change raw True = Inr (rc_after change, True) \<and>
    NextWrite sha change (rc_after change) True = Inr (rc_after change, False) \<and>
    NextWrite sha change (rc_after change) False = Inr (rc_before change, True) \<and>
    NextWrite sha change (rc_before change) False = Inr (rc_before change, False) \<and>
    settings_of (rc_before change) = settings_of raw"
proof -
  obtain config config' where settings: "settings_of raw = Some config" "settings_of (rc_before change) = Some config"
      "settings_of (rc_after change) = Some config'" "config \<noteq> config'" and live: "rc_revision change \<noteq> 0"
    using prepared_settings [OF assms(1-4)] by metis
  have apply_it: "next_write change raw True = Some (rc_after change, True)"
    using live settings by (simp add: next_write_def)
  note applied = next_write_own [OF apply_it, simplified]
  note undone = next_write_own(4) [OF applied(5)]
  have ok: "digest_ok sha change raw" "digest_ok sha change (rc_before change)" "digest_ok sha change (rc_after change)"
    by (rule digest_ok_mono [OF assms(5)], simp)+
  show ?thesis
    using apply_it applied(4,5) undone settings(1,2) by (simp add: NextWrite_settings [OF ok(1)] NextWrite_settings [OF ok(2)] NextWrite_settings [OF ok(3)])
qed

theorem prepared_change_applies_and_undoes_witness:
  "\<exists>change. PrepareRouteChange s_raw 1 [''in-1''] s_exit = Inr change \<and>
     NextWrite (\<lambda>s. s) change s_raw True = Inr (rc_after change, True) \<and>
     NextWrite (\<lambda>s. s) change (rc_after change) False = Inr (rc_before change, True)"
proof -
  obtain change where change: "PrepareRouteChange s_raw 1 [''in-1''] s_exit = Inr change" using s_change by blast
  show ?thesis using prepared_change_applies_and_undoes [OF change in_1_valid s_change_sizes [OF change] digest_ok_id] change by blast
qed

theorem route_write_owned_witness:
  "\<exists>change. NextWrite (\<lambda>s. s) change s_raw True = Inr (rc_after change, True) \<and> settings_of s_raw \<noteq> settings_of (rc_after change) \<and>
     NextWrite (\<lambda>s. s) change (rc_after change) True = Inr (rc_after change, False)"
proof -
  obtain change where change: "PrepareRouteChange s_raw 1 [''in-1''] s_exit = Inr change" using s_change by blast
  obtain config config' where "settings_of s_raw = Some config" "settings_of (rc_before change) = Some config"
      "settings_of (rc_after change) = Some config'" "config \<noteq> config'" "rc_revision change \<noteq> 0"
    using prepared_settings [OF change in_1_valid s_change_sizes [OF change]] by metis
  then have "next_write change s_raw True = Some (rc_after change, True)" by (simp add: next_write_def)
  then have run: "NextWrite (\<lambda>s. s) change s_raw True = Inr (rc_after change, True)" using NextWrite_settings [OF digest_ok_id] by blast
  show ?thesis using route_write_owned [OF digest_ok_id run] run by blast
qed

end
