(* ===== verification/Landing_Block_Laws.thy ===== *)
theory Landing_Block_Laws
  imports Landing_Grant_Laws Landing_Checkpoint
begin

text \<open>
  The routes of a complete desired state: blocked users are denied ahead of every other rule, and a
  replaced route keeps the way back to the settings from before the first landing route.
\<close>

section \<open>Blocked users\<close>

text \<open>Literals that come back from \<^verbatim>\<open>float64\<close> as JSON numbers.\<close>

definition prints_numbers :: "(string \<Rightarrow> string option) \<Rightarrow> bool" where
  "prints_numbers refloat = (\<forall>n m. refloat n = Some m \<longrightarrow> num_ok m)"

lemma renumber_ok:
  "prints_numbers refloat \<Longrightarrow> json_ok d v \<Longrightarrow> renumber refloat v = Some w \<Longrightarrow> json_ok d w"
  "prints_numbers refloat \<Longrightarrow> \<forall>v \<in> set vs. json_ok d v \<Longrightarrow> renumber_items refloat vs = Some ws \<Longrightarrow> \<forall>w \<in> set ws. json_ok d w"
  "prints_numbers refloat \<Longrightarrow> \<forall>p \<in> set m. valid_utf8 (fst p) \<and> json_ok d (snd p) \<Longrightarrow> renumber_members refloat m = Some m' \<Longrightarrow>
    map fst m' = map fst m \<and> (\<forall>p \<in> set m'. valid_utf8 (fst p) \<and> json_ok d (snd p))"
proof (induction refloat v and refloat vs and refloat m arbitrary: d w and d ws and d m' rule: renumber_renumber_items_renumber_members.induct)
  case (1 refloat n)
  then show ?case by (auto simp: prints_numbers_def)
next
  case (3 refloat m)
  obtain m' where m': "renumber_members refloat m = Some m'" "w = JObj m'" using "3.prems" by auto
  have "map fst m' = map fst m \<and> (\<forall>p \<in> set m'. valid_utf8 (fst p) \<and> json_ok (d - 1) (snd p))"
    by (rule "3.IH" [OF "3.prems"(1) _ m'(1)]) (use "3.prems"(2) in simp)
  then show ?case using "3.prems"(2) m'(2) by simp
next
  case (2 refloat vs)
  obtain ws where ws: "renumber_items refloat vs = Some ws" "w = JArr ws" using "2.prems"(3) by auto
  have "\<forall>w \<in> set ws. json_ok (d - 1) w" by (rule "2.IH" [OF "2.prems"(1) _ ws(1)]) (use "2.prems"(2) in simp)
  then show ?case using "2.prems"(2) ws(2) by simp
next
  case (6 refloat v vs)
  obtain x xs where x: "renumber refloat v = Some x" "renumber_items refloat vs = Some xs" "ws = x # xs"
    using "6.prems"(3) by (auto split: option.split_asm)
  have "json_ok d x" by (rule "6.IH"(1) [OF "6.prems"(1) _ x(1)]) (use "6.prems"(2) in simp)
  moreover have "\<forall>w \<in> set xs. json_ok d w" by (rule "6.IH"(2) [OF "6.prems"(1) _ x(2)]) (use "6.prems"(2) in simp)
  ultimately show ?case using x(3) by simp
next
  case (8 refloat k v m)
  obtain x xs where x: "renumber refloat v = Some x" "renumber_members refloat m = Some xs" "m' = (k, x) # xs"
    using "8.prems"(3) by (auto split: option.split_asm)
  have "json_ok d x" by (rule "8.IH"(1) [OF "8.prems"(1) _ x(1)]) (use "8.prems"(2) in simp)
  moreover have "map fst xs = map fst m \<and> (\<forall>p \<in> set xs. valid_utf8 (fst p) \<and> json_ok d (snd p))"
    by (rule "8.IH"(2) [OF "8.prems"(1) _ x(2)]) (use "8.prems"(2) in simp)
  ultimately show ?case using x(3) "8.prems"(2) by simp
qed auto

lemma deny_ok: "1 < d \<Longrightarrow> valid_utf8 u \<Longrightarrow> json_ok d (JObj (deny_user u))"
  using json_ok_strs [of "d - 1" "[u]"] by (simp add: deny_user_def less_char_def)

lemma block_users_ok:
  assumes "block_users blocks config = Some config'" "json_ok max_depth (JObj config)" "\<forall>b \<in> set blocks. valid_utf8 (cb_user b)"
  shows "json_ok max_depth (JObj config')" "rules_of config' = map (\<lambda>b. JObj (deny_user (cb_user b))) blocks @ rules_of config"
proof -
  obtain routing rules where of: "map_of config ''routing'' = Some (JObj routing)" "map_of routing ''rules'' = Some (JArr rules)"
    and config': "config' = put ''routing'' (JObj (put ''rules'' (JArr (map (\<lambda>b. JObj (deny_user (cb_user b))) blocks @ rules)) routing)) config"
    using assms(1) by (auto simp: block_users_def split: option.splits json.splits)
  have "json_ok (max_depth - 2) (JArr rules)" by (rule json_ok_rules_of [OF assms(2) of])
  moreover have "1 < max_depth - 2 - 1" by (simp add: max_depth_def)
  note deny_ok [OF this]
  ultimately have "json_ok (max_depth - 2) (JArr (map (\<lambda>b. JObj (deny_user (cb_user b))) blocks @ rules))"
    using assms(3) by (auto simp del: json_ok.simps(6))
  then show "json_ok max_depth (JObj config')" unfolding config' by (rule json_ok_rules [OF assms(2) of(1)])
  show "rules_of config' = map (\<lambda>b. JObj (deny_user (cb_user b))) blocks @ rules_of config"
    by (simp add: config' rules_of_def of)
qed

lemma denied_first:
  assumes "mt_free x []" "cn_user c \<in> cb_user ` set blocks"
  shows "route x c (map (\<lambda>b. JObj (deny_user (cb_user b))) blocks @ rules) = Some grantDenyTag"
proof -
  have "str_of (map_of (deny_user u) ''outboundTag'') = grantDenyTag" for u by (simp add: deny_user_def str_of_def)
  then show ?thesis using assms(2) by (induction blocks) (auto simp: own_rules_apply(2) [OF assms(1)])
qed

text \<open>A blocked user is denied on every inbound and network, whatever grants and rules there are.\<close>

theorem blocked_user_denied:
  assumes "PrepareRoutes tag refloat state raw = Inr change" "ds_clients state = Some clients" "prints_numbers refloat"
    and "\<forall>b \<in> set (cp_blocked clients). valid_utf8 (cb_user b)"
  shows "\<exists>after. json_decode (rc_after change) = Some (JObj after) \<and>
    (\<forall>x c. mt_free x [] \<and> cn_user c \<in> cb_user ` set (cp_blocked clients) \<longrightarrow> route x c (rules_of after) = Some grantDenyTag)"
proof -
  obtain base :: route_change and v config config' where v: "json_decode (rc_after base) = Some v" and config: "renumber refloat v = Some (JObj config)"
    and run: "block_users (cp_blocked clients) config = Some config'" and change: "rc_after change = marshal (JObj config')"
    using assms(1,2) by (auto simp: PrepareRoutes_def bind_eq_Some_conv split: sum.splits option.splits json.splits)
  have "json_ok max_depth (JObj config)" by (rule renumber_ok(1) [OF assms(3) json_decode_ok [OF v] config])
  note after = block_users_ok [OF run this assms(4)]
  have decoded: "json_decode (rc_after change) = Some (JObj config')" unfolding change by (rule json_decode_marshal [OF after(1)])
  have "route x c (rules_of config') = Some grantDenyTag" if "mt_free x [] \<and> cn_user c \<in> cb_user ` set (cp_blocked clients)" for x c
    unfolding after(2) by (rule denied_first) (use that in blast)+
  then show ?thesis using decoded by blast
qed

section \<open>Replacing an applied route\<close>

lemma replacement_plan:
  assumes "PrepareRouteReplacement sha previous current revision tags peer = Inr change"
  shows "rc_revision previous < rc_revision change" "rc_replaces change = rc_after previous"
    "\<exists>nxt. PrepareRouteChange (rc_before previous) revision tags peer = Inr nxt \<and> change = nxt\<lparr>rc_replaces := rc_after previous\<rparr>"
    "NextWrite sha previous current True = Inr (rc_after previous, False)"
proof -
  obtain doc nxt where run: "revision > rc_revision previous" "NextWrite sha previous current True = Inr (doc, False)"
      "PrepareRouteChange (rc_before previous) revision tags peer = Inr nxt" "change = nxt\<lparr>rc_replaces := rc_after previous\<rparr>"
    using assms by (auto simp: PrepareRouteReplacement_def split: if_splits sum.splits prod.splits bool.splits)
  then show "rc_replaces change = rc_after previous"
    "\<exists>nxt. PrepareRouteChange (rc_before previous) revision tags peer = Inr nxt \<and> change = nxt\<lparr>rc_replaces := rc_after previous\<rparr>" by auto
  have "rc_revision nxt = revision" using run(3) by (auto simp: PrepareRouteChange_def split: if_splits sum.splits prod.splits)
  then show "rc_revision previous < rc_revision change" using run by simp
  have "doc = rc_after previous" using run(2) by (auto simp: NextWrite_def Let_def split: if_splits sum.splits)
  then show "NextWrite sha previous current True = Inr (rc_after previous, False)" using run(2) by simp
qed

end
