(* ===== verification/Landing_Readiness.thy ===== *)
theory Landing_Readiness
  imports Landing_State
begin

text \<open>
  The wait before a landing route is enabled for the first time (src/internal/landing/readiness.go): a
  bounded number of attempts, each one a direct link, a business check and again a direct link, under
  one deadline. The probes are inputs: a function of the number of the call, the end of the context it
  runs under and the instant it starts, with its result and the instant it returns.
\<close>

definition initialReadyTimeout :: gotime where
  "initialReadyTimeout = 30 * second"

definition initialProbeTimeout :: gotime where
  "initialProbeTimeout = 8 * second"

definition initialAttempts :: nat where
  "initialAttempts = 3"

definition initialRetryDelay :: gotime where
  "initialRetryDelay = second"

datatype ready_error = DeadlineExceeded | Canceled | ProbeError string string | BusinessFailed string | NotReady

record ready_world =
  rw_cancel :: "(gotime \<times> ready_error) option"
  rw_link :: "nat \<Rightarrow> gotime \<Rightarrow> gotime \<Rightarrow> link_result \<times> gotime"
  rw_business :: "nat \<Rightarrow> gotime \<Rightarrow> gotime \<Rightarrow> ready_error option \<times> gotime"

text \<open>A context: when it is done, and its error from then on. \<open>with_timeout\<close> is \<^verbatim>\<open>context.WithTimeout\<close>.\<close>

type_synonym ctx = "(gotime \<times> ready_error) option"

definition with_timeout :: "ctx \<Rightarrow> gotime \<Rightarrow> gotime \<Rightarrow> gotime \<times> ready_error" where
  "with_timeout parent now timeout =
     (case parent of
        Some (d, cause) \<Rightarrow> if d \<le> now + timeout then (d, cause) else (now + timeout, DeadlineExceeded)
      | None \<Rightarrow> (now + timeout, DeadlineExceeded))"

definition ctx_err :: "gotime \<times> ready_error \<Rightarrow> gotime \<Rightarrow> ready_error option" where
  "ctx_err c now = (if fst c \<le> now then Some (snd c) else None)"

definition readinessAttempt :: "ready_world \<Rightarrow> gotime \<times> ready_error \<Rightarrow> nat \<Rightarrow> gotime \<Rightarrow> ready_error option \<times> gotime" where
  "readinessAttempt w c attempt t0 =
     (let (link, t1) = rw_link w (2 * attempt) (fst c) t0 in
      if lr_state link \<noteq> ''direct'' then (Some (ProbeError ''direct_before'' (lr_reason link)), t1)
      else let businessCtx = with_timeout (Some c) t1 initialProbeTimeout;
               (checked, t2) = rw_business w attempt (fst businessCtx) t1;
               err = (if checked = None then ctx_err businessCtx t2 else checked)
        in if err \<noteq> None then (err, t2)
           else let (link', t3) = rw_link w (2 * attempt + 1) (fst c) t2 in
             if lr_state link' \<noteq> ''direct'' then (Some (ProbeError ''direct_after'' (lr_reason link')), t3)
             else (ctx_err c t3, t3))"

text \<open>The error, the instant of the return and the attempts made.\<close>

function wait_loop :: "ready_world \<Rightarrow> gotime \<times> ready_error \<Rightarrow> nat \<Rightarrow> gotime \<Rightarrow> ready_error option \<times> gotime \<times> nat" where
  "wait_loop w c attempt t =
     (if initialAttempts < attempt then (Some NotReady, t, attempt - 1)
      else if ctx_err c t \<noteq> None then (ctx_err c t, t, attempt - 1)
      else let (err, t') = readinessAttempt w c attempt t in
        if err = None then (None, t', attempt)
        else if ctx_err c t' \<noteq> None then (ctx_err c t', t', attempt)
        else if attempt < initialAttempts
        then (if fst c \<le> t' + initialRetryDelay then (Some (snd c), fst c, attempt)
              else wait_loop w c (Suc attempt) (t' + initialRetryDelay))
        else wait_loop w c (Suc attempt) t')"
  by pat_completeness auto
termination
  by (relation "measure (\<lambda>(w, c, attempt, t). Suc initialAttempts - attempt)") auto

declare wait_loop.simps [simp del]

definition waitReady :: "ready_world \<Rightarrow> gotime \<Rightarrow> ready_error option \<times> gotime \<times> nat" where
  "waitReady w now = wait_loop w (with_timeout (rw_cancel w) now initialReadyTimeout) 1 now"

section \<open>The wait is bounded\<close>

text \<open>Probes that give up at most \<open>g\<close> after the end of their context, or after their start when it is already over.\<close>

definition prompt :: "gotime \<Rightarrow> ready_world \<Rightarrow> bool" where
  "prompt g w =
     (\<forall>k d t. t \<le> snd (rw_link w k d t) \<and> snd (rw_link w k d t) \<le> max d t + g \<and>
        t \<le> snd (rw_business w k d t) \<and> snd (rw_business w k d t) \<le> max d t + g)"

text \<open>The evidence of a successful attempt under a context that ends at \<open>d\<close>.\<close>

definition proven :: "ready_world \<Rightarrow> gotime \<Rightarrow> nat \<Rightarrow> gotime \<Rightarrow> gotime \<Rightarrow> bool" where
  "proven w d k t t' =
     (\<exists>t1 t2. lr_state (fst (rw_link w (2 * k) d t)) = ''direct'' \<and> snd (rw_link w (2 * k) d t) = t1 \<and>
        rw_business w k (min d (t1 + initialProbeTimeout)) t1 = (None, t2) \<and> t2 < min d (t1 + initialProbeTimeout) \<and>
        lr_state (fst (rw_link w (2 * k + 1) d t2)) = ''direct'' \<and> snd (rw_link w (2 * k + 1) d t2) = t' \<and> t' < d)"

lemma with_timeout_end: "fst (with_timeout (Some c) now timeout) = min (fst c) (now + timeout)"
  by (cases c) (simp add: with_timeout_def min_def)

lemma ctx_err_None: "ctx_err c t = None \<longleftrightarrow> t < fst c"
  by (auto simp: ctx_err_def)

lemma attempt_time:
  assumes "prompt g w" "readinessAttempt w c k t = (err, t')" "t < fst c" "0 \<le> g"
  shows "t \<le> t' \<and> t' \<le> fst c + 2 * g"
proof -
  obtain link t1 where link: "rw_link w (2 * k) (fst c) t = (link, t1)" by fastforce
  have l: "t \<le> t1" "t1 \<le> fst c + g"
    using assms(1,3) link unfolding prompt_def by (metis snd_conv, metis max.absorb1 less_imp_le snd_conv)
  show ?thesis
  proof (cases "lr_state link = ''direct''")
    case False
    then show ?thesis using assms(2,4) link l by (simp add: readinessAttempt_def)
  next
    case True
    let ?b = "with_timeout (Some c) t1 initialProbeTimeout"
    obtain checked t2 where business: "rw_business w k (fst ?b) t1 = (checked, t2)" by fastforce
    have "t1 \<le> t2" "t2 \<le> max (fst ?b) t1 + g" using assms(1) business unfolding prompt_def by (metis snd_conv)+
    moreover have "max (fst ?b) t1 \<le> fst c + g" using l(2) assms(4) by (simp add: with_timeout_end)
    ultimately have b: "t1 \<le> t2" "t2 \<le> fst c + 2 * g" by linarith+
    show ?thesis
    proof (cases "checked = None \<and> t2 < fst ?b")
      case False
      then have "t' = t2" using assms(2) link True business by (auto simp: readinessAttempt_def ctx_err_def Let_def split: if_splits)
      then show ?thesis using l b by simp
    next
      case ok: True
      then have early: "t2 < fst c" by (simp add: with_timeout_end)
      obtain link' t3 where link': "rw_link w (2 * k + 1) (fst c) t2 = (link', t3)" by fastforce
      have "t2 \<le> t3" "t3 \<le> fst c + g"
        using assms(1) early link' unfolding prompt_def by (metis snd_conv, metis max.absorb1 less_imp_le snd_conv)
      moreover have "t' = t3" using assms(2) link True business ok link' by (simp add: readinessAttempt_def ctx_err_def Let_def split: if_splits)
      ultimately show ?thesis using l b assms(4) by simp
    qed
  qed
qed

lemma attempt_proven:
  assumes "readinessAttempt w c k t = (None, t')"
  shows "proven w (fst c) k t t'"
  using assms
  by (auto simp: readinessAttempt_def proven_def with_timeout_end ctx_err_None Let_def split: prod.splits if_splits)

lemma wait_loop_bounded:
  assumes "prompt g w" "0 \<le> g" "wait_loop w c k t = (err, t', n)" "1 \<le> k" "k \<le> Suc initialAttempts" "t < fst c"
  shows "n \<le> initialAttempts \<and> t \<le> t' \<and> t' \<le> fst c + 2 * g \<and>
    (err = None \<longrightarrow> (\<exists>j u. k \<le> j \<and> j \<le> initialAttempts \<and> t \<le> u \<and> proven w (fst c) j u t'))"
  using assms(3-6)
proof (induction "Suc initialAttempts - k" arbitrary: k t rule: less_induct)
  case less
  obtain e u where run: "readinessAttempt w c k t = (e, u)" by fastforce
  show ?case
  proof (cases "initialAttempts < k")
    case True
    then show ?thesis using less.prems assms(2) by (subst (asm) wait_loop.simps) auto
  next
    case False
    note u = attempt_time [OF assms(1) run less.prems(4) assms(2)]
    have live: "ctx_err c t = None" using less.prems(4) by (simp add: ctx_err_None)
    consider (ready) "e = None" | (late) "e \<noteq> None" "fst c \<le> u" | (pause) "e \<noteq> None" "u < fst c" "k < initialAttempts" "fst c \<le> u + initialRetryDelay"
      | (again) "e \<noteq> None" "u + initialRetryDelay < fst c" "k < initialAttempts" | (last) "e \<noteq> None" "u < fst c" "k = initialAttempts"
      using False by linarith
    then show ?thesis
    proof cases
      case ready
      then have "(err, t', n) = (None, u, k)" using less.prems(1) False live run by (simp add: wait_loop.simps [of w c k t])
      then show ?thesis using attempt_proven [of w c k t u] run ready u False by auto
    next
      case late
      then have "(err, t', n) = (ctx_err c u, u, k)" "ctx_err c u \<noteq> None"
        using less.prems(1) False live run by (auto simp: wait_loop.simps [of w c k t] ctx_err_def)
      then show ?thesis using u False by auto
    next
      case pause
      then have "(err, t', n) = (Some (snd c), fst c, k)"
        using less.prems(1) False live run by (auto simp: wait_loop.simps [of w c k t] ctx_err_def)
      then show ?thesis using u False assms(2) less.prems(4) by auto
    next
      case again
      have d: "0 \<le> initialRetryDelay" by (simp add: initialRetryDelay_def second_def)
      then have rest: "wait_loop w c (Suc k) (u + initialRetryDelay) = (err, t', n)"
        using less.prems(1) False live run again by (auto simp: wait_loop.simps [of w c k t] ctx_err_def split: if_splits)
      have "n \<le> initialAttempts \<and> u + initialRetryDelay \<le> t' \<and> t' \<le> fst c + 2 * g \<and>
          (err = None \<longrightarrow> (\<exists>j v. Suc k \<le> j \<and> j \<le> initialAttempts \<and> u + initialRetryDelay \<le> v \<and> proven w (fst c) j v t'))"
        by (rule less.hyps [OF _ rest]) (use again less.prems in auto)
      then show ?thesis using d u by (meson Suc_leD add_increasing2 order_trans)
    next
      case last
      then have "wait_loop w c k t = wait_loop w c (Suc k) u"
        using False live run by (subst wait_loop.simps) (auto simp: ctx_err_def)
      then have "wait_loop w c (Suc k) u = (err, t', n)" using less.prems(1) by simp
      then have "(err, t', n) = (Some NotReady, u, k)" using last by (subst (asm) wait_loop.simps) simp
      then show ?thesis using u False by auto
    qed
  qed
qed

text \<open>
  C38. The wait before the first enable ends. With probes that return no later than \<open>g\<close> after the end of
  their context, it returns within thirty seconds and twice \<open>g\<close>, after at most three attempts, whatever
  the probes report and whenever the caller gives up. It reports success only on the evidence of
  one attempt: a direct link, a business check that ended in time and again a direct link, all
  before the deadline.
\<close>

theorem readiness_wait_ends:
  assumes "prompt g w" "0 \<le> g"
  shows "\<exists>err t' n. waitReady w now = (err, t', n) \<and> n \<le> initialAttempts \<and> now \<le> t' \<and> t' \<le> now + initialReadyTimeout + 2 * g \<and>
    (err = None \<longrightarrow> (\<exists>k u d. 1 \<le> k \<and> k \<le> initialAttempts \<and> now \<le> u \<and> d \<le> now + initialReadyTimeout \<and> proven w d k u t'))"
proof -
  let ?c = "with_timeout (rw_cancel w) now initialReadyTimeout"
  obtain err t' n where run: "waitReady w now = (err, t', n)" by (metis prod_cases3)
  have d: "fst ?c \<le> now + initialReadyTimeout" by (auto simp: with_timeout_def split: option.splits)
  have long: "0 < initialReadyTimeout" by (simp add: initialReadyTimeout_def second_def)
  show ?thesis
  proof (cases "now < fst ?c")
    case True
    have "1 \<le> Suc initialAttempts" by simp
    from wait_loop_bounded [OF assms run [unfolded waitReady_def] order.refl this True]
    have b: "n \<le> initialAttempts" "now \<le> t'" "t' \<le> fst ?c + 2 * g"
      "err = None \<Longrightarrow> \<exists>j u. 1 \<le> j \<and> j \<le> initialAttempts \<and> now \<le> u \<and> proven w (fst ?c) j u t'" by blast+
    then show ?thesis using run d by (intro exI [of _ err] exI [of _ t'] exI [of _ n]) fastforce
  next
    case False
    then have "wait_loop w ?c 1 now = (Some (snd ?c), now, 0)" by (subst wait_loop.simps) (simp add: ctx_err_def initialAttempts_def)
    then have "(err, t', n) = (Some (snd ?c), now, 0)" using run by (simp only: waitReady_def)
    then show ?thesis using run assms(2) long by (intro exI [of _ err] exI [of _ t'] exI [of _ n]) auto
  qed
qed

text \<open>Probes that answer after a second, the first link relayed.\<close>

definition s_world :: ready_world where
  "s_world = \<lparr>rw_cancel = None,
     rw_link = (\<lambda>k d t. (\<lparr>lr_state = (if k = 2 then ''relayed'' else ''direct''), lr_reason = [], lr_started_at = t,
       lr_checked_at = t + second\<rparr>, t + second)),
     rw_business = (\<lambda>k d t. (None, t + second))\<rparr>"

theorem readiness_wait_ends_witness:
  "\<exists>t'. waitReady s_world 0 = (None, t', 2) \<and> t' = 5 * second \<and> t' \<le> 0 + initialReadyTimeout + 2 * second"
proof -
  have "prompt second s_world" by (auto simp: prompt_def s_world_def second_def)
  then obtain err t' n where run: "waitReady s_world 0 = (err, t', n)" "t' \<le> 0 + initialReadyTimeout + 2 * second"
    using readiness_wait_ends [of second s_world 0] by (auto simp: second_def)
  have "waitReady s_world 0 = (None, 5 * second, 2)" by code_simp
  then show ?thesis using run by simp
qed

end
