(* ===== verification/Regexps.thy ===== *)
theory Regexps
  imports Prelude
begin

text \<open>
  The part of Go's \<^verbatim>\<open>regexp\<close> that the host name patterns of the sources use: character classes,
  sequences, groups repeated a bounded or any number of times, anchored at both ends. A pattern is
  matched by derivatives, which the second part shows to decide the language of the pattern.
\<close>

datatype re = Zero | One | Cls "char \<Rightarrow> bool" | Seq re re | Alt re re | UpTo nat re | Many re

text \<open>\<^verbatim>\<open>r?\<close> and \<^verbatim>\<open>r+\<close>.\<close>

definition Opt :: "re \<Rightarrow> re" where
  "Opt r = UpTo 1 r"

definition Plus :: "re \<Rightarrow> re" where
  "Plus r = Seq r (Many r)"

fun nullable :: "re \<Rightarrow> bool" where
  "nullable Zero = False"
| "nullable One = True"
| "nullable (Cls p) = False"
| "nullable (Seq r s) = (nullable r \<and> nullable s)"
| "nullable (Alt r s) = (nullable r \<or> nullable s)"
| "nullable (UpTo n r) = True"
| "nullable (Many r) = True"

text \<open>Sequences and alternatives that drop what cannot match.\<close>

definition seq :: "re \<Rightarrow> re \<Rightarrow> re" where
  "seq r s = (case r of Zero \<Rightarrow> Zero | One \<Rightarrow> s | _ \<Rightarrow> Seq r s)"

definition alt :: "re \<Rightarrow> re \<Rightarrow> re" where
  "alt r s = (case r of Zero \<Rightarrow> s | _ \<Rightarrow> (case s of Zero \<Rightarrow> r | _ \<Rightarrow> Alt r s))"

fun der :: "char \<Rightarrow> re \<Rightarrow> re" where
  "der c Zero = Zero"
| "der c One = Zero"
| "der c (Cls p) = (if p c then One else Zero)"
| "der c (Seq r s) = (if nullable r then alt (seq (der c r) s) (der c s) else seq (der c r) s)"
| "der c (Alt r s) = alt (der c r) (der c s)"
| "der c (UpTo n r) = (case n of 0 \<Rightarrow> Zero | Suc m \<Rightarrow> seq (der c r) (UpTo m r))"
| "der c (Many r) = seq (der c r) (Many r)"

definition match_string :: "re \<Rightarrow> string \<Rightarrow> bool" where
  "match_string r s = nullable (foldl (\<lambda>q c. der c q) r s)"

section \<open>The language of a pattern\<close>

definition conc :: "string set \<Rightarrow> string set \<Rightarrow> string set" where
  "conc A B = {s @ t | s t. s \<in> A \<and> t \<in> B}"

primrec rounds :: "nat \<Rightarrow> string set \<Rightarrow> string set" where
  "rounds 0 A = {[]}"
| "rounds (Suc n) A = conc A (rounds n A)"

primrec lang :: "re \<Rightarrow> string set" where
  "lang Zero = {}"
| "lang One = {[]}"
| "lang (Cls p) = {[c] | c. p c}"
| "lang (Seq r s) = conc (lang r) (lang s)"
| "lang (Alt r s) = lang r \<union> lang s"
| "lang (UpTo n r) = (\<Union>k \<le> n. rounds k (lang r))"
| "lang (Many r) = (\<Union>k. rounds k (lang r))"

lemma conc_simps [simp]: "conc {} B = {}" "conc {[]} B = B"
  by (auto simp: conc_def)

lemma concI: "s \<in> A \<Longrightarrow> t \<in> B \<Longrightarrow> s @ t \<in> conc A B"
  by (auto simp: conc_def)

lemma nil_conc [simp]: "[] \<in> conc A B \<longleftrightarrow> [] \<in> A \<and> [] \<in> B"
  by (auto simp: conc_def)

lemma nullable_lang: "nullable r \<longleftrightarrow> [] \<in> lang r"
proof (induction r)
  case (UpTo n r)
  have "[] \<in> lang (UpTo n r)" unfolding lang.simps by (rule UN_I [of 0]) simp_all
  then show ?case by simp
next
  case (Many r)
  have "[] \<in> lang (Many r)" unfolding lang.simps by (rule UN_I [of 0]) simp_all
  then show ?case by simp
qed auto

lemma lang_seq [simp]: "lang (seq r s) = conc (lang r) (lang s)"
  by (cases r) (simp_all add: seq_def)

lemma lang_alt [simp]: "lang (alt r s) = lang r \<union> lang s"
  by (cases r; cases s) (simp_all add: alt_def)

lemma cons_conc: "c # s \<in> conc A B \<longleftrightarrow> (\<exists>t u. s = t @ u \<and> c # t \<in> A \<and> u \<in> B) \<or> [] \<in> A \<and> c # s \<in> B"
  by (auto simp: conc_def Cons_eq_append_conv)

text \<open>A word of a repetition that starts with a character starts with it in some round.\<close>

lemma cons_rounds:
  "c # s \<in> rounds n A \<Longrightarrow> \<exists>m t u. m < n \<and> s = t @ u \<and> c # t \<in> A \<and> u \<in> rounds m A"
proof (induction n)
  case (Suc n)
  from Suc.prems have "(\<exists>t u. s = t @ u \<and> c # t \<in> A \<and> u \<in> rounds n A) \<or> [] \<in> A \<and> c # s \<in> rounds n A"
    by (simp add: cons_conc)
  then show ?case
  proof
    assume "\<exists>t u. s = t @ u \<and> c # t \<in> A \<and> u \<in> rounds n A"
    then show ?thesis by blast
  next
    assume "[] \<in> A \<and> c # s \<in> rounds n A"
    then show ?thesis using Suc.IH less_SucI by blast
  qed
qed simp

lemma rounds_cons: "c # t \<in> A \<Longrightarrow> u \<in> rounds m A \<Longrightarrow> c # t @ u \<in> rounds (Suc m) A"
  using concI [of "c # t" A u "rounds m A"] by simp

lemma der_lang: "s \<in> lang (der c r) \<longleftrightarrow> c # s \<in> lang r"
proof (induction r arbitrary: s)
  case (Seq r1 r2)
  then show ?case by (auto simp: nullable_lang cons_conc) (auto simp: conc_def)
next
  case (UpTo n r)
  show ?case
  proof
    assume "s \<in> lang (der c (UpTo n r))"
    then obtain m t u k where "n = Suc m" "s = t @ u" "c # t \<in> lang r" "k \<le> m" "u \<in> rounds k (lang r)"
      using UpTo.IH by (auto simp: conc_def split: nat.splits)
    then show "c # s \<in> lang (UpTo n r)" unfolding lang.simps by (intro UN_I [of "Suc k"]) (simp_all add: rounds_cons del: rounds.simps)
  next
    assume "c # s \<in> lang (UpTo n r)"
    then obtain k where "k \<le> n" "c # s \<in> rounds k (lang r)" by auto
    then obtain m t u where "m < n" "s = t @ u" "c # t \<in> lang r" "u \<in> rounds m (lang r)" using cons_rounds less_le_trans by metis
    then show "s \<in> lang (der c (UpTo n r))" using UpTo.IH by (cases n) (auto simp: conc_def less_Suc_eq_le)
  qed
next
  case (Many r)
  show ?case
  proof
    assume "s \<in> lang (der c (Many r))"
    then obtain t u k where "s = t @ u" "c # t \<in> lang r" "u \<in> rounds k (lang r)" using Many.IH by (auto simp: conc_def)
    then show "c # s \<in> lang (Many r)" unfolding lang.simps by (intro UN_I [of "Suc k"]) (simp_all add: rounds_cons del: rounds.simps)
  next
    assume "c # s \<in> lang (Many r)"
    then obtain k where "c # s \<in> rounds k (lang r)" by auto
    then obtain m t u where "s = t @ u" "c # t \<in> lang r" "u \<in> rounds m (lang r)" using cons_rounds by blast
    then show "s \<in> lang (der c (Many r))" using Many.IH by (auto simp: conc_def)
  qed
qed auto

lemma match_string_lang: "match_string r s \<longleftrightarrow> s \<in> lang r"
  by (induction s arbitrary: r) (simp_all add: match_string_def nullable_lang der_lang)

end
