(* ===== verification/Slices.thy ===== *)
theory Slices
  imports Prelude
begin

text \<open>
  Go's \<^verbatim>\<open>sort.Slice\<close>, and when its result does not depend on the order of the elements.
\<close>

text \<open>
  \<^verbatim>\<open>sort.Slice\<close> as the insertion sort it runs on up to twelve elements; on longer slices it may order
  elements that compare equal differently.
\<close>

fun insert_by :: "('a \<Rightarrow> 'a \<Rightarrow> bool) \<Rightarrow> 'a \<Rightarrow> 'a list \<Rightarrow> 'a list" where
  "insert_by lt x [] = [x]"
| "insert_by lt x (y # ys) = (if lt y x then y # insert_by lt x ys else x # y # ys)"

definition sort_slice :: "('a \<Rightarrow> 'a \<Rightarrow> bool) \<Rightarrow> 'a list \<Rightarrow> 'a list" where
  "sort_slice lt xs = foldr (insert_by lt) xs []"

text \<open>
  A comparison by a key. Sorting by it keeps the elements, and elements with different keys come out
  in the same order however they went in.
\<close>

locale sort_order =
  fixes lt :: "'a \<Rightarrow> 'a \<Rightarrow> bool" and key :: "'a \<Rightarrow> 'b :: linorder"
  assumes lt_key: "lt a b \<longleftrightarrow> key a < key b"
begin

lemma sort_slice_key: "sort_slice lt xs = sort_key key xs"
proof -
  have "insert_by lt x ys = insort_key key x ys" for x ys
    by (induction ys) (auto simp: lt_key)
  then have "insert_by lt = insort_key key" by (intro ext)
  then show ?thesis by (simp add: sort_slice_def sort_key_def)
qed

lemma sorted_mset: "mset (sort_slice lt xs) = mset xs"
  by (simp add: sort_slice_key)

lemma sorted_map_mset: "mset (map f (sort_slice lt xs)) = mset (map f xs)"
  by (simp add: sorted_mset)

lemma sorted_order: "mset xs = mset ys \<Longrightarrow> inj_on key (set xs) \<Longrightarrow> sort_slice lt xs = sort_slice lt ys"
  unfolding sort_slice_key by (rule sort_key_inj_key_eq) simp_all

end

text \<open>A comparison that tells all elements apart: sorting is a normal form of the bag of elements.\<close>

locale total_sort_order = sort_order +
  assumes inj_key: "inj key"
begin

lemma sorted_normal: "sort_slice lt xs = sort_slice lt ys \<longleftrightarrow> mset xs = mset ys"
  using sorted_mset [of xs] sorted_mset [of ys] sorted_order [of xs ys] inj_on_subset [OF inj_key] by auto

end

end
