(* ===== verification/Gateway_Model.thy ===== *)
theory Gateway_Model
  imports Regexps Slices Json
begin

text \<open>
  The desired state of a site gateway and of a node listener (src/internal/gateway/model.go): the host
  name patterns, validation of listeners, routes and the shared HTTPS frontend, the canonical order,
  and the hash of a configuration with its certificates. \<open>sha\<close> is SHA-256 in hexadecimal; of formatted
  error texts the constant part is kept. The checks of certificate contents, which
  are \<^verbatim>\<open>crypto/x509\<close>, are not part of the model.
\<close>

section \<open>Host names\<close>

definition alnum :: "char \<Rightarrow> bool" where
  "alnum c = (is_lower_alpha c \<or> is_digit c)"

definition ldh :: "char \<Rightarrow> bool" where
  "ldh c = (is_lower_alpha c \<or> is_digit c \<or> c = CHR ''-'')"

definition label_re :: re where
  "label_re = Seq (Cls alnum) (Opt (Seq (UpTo 61 (Cls ldh)) (Cls alnum)))"

definition dot_label_re :: re where
  "dot_label_re = Seq (Cls (\<lambda>c. c = CHR ''.'')) label_re"

definition hostnamePattern :: re where
  "hostnamePattern = Seq label_re (Plus dot_label_re)"

definition containerHostnamePattern :: re where
  "containerHostnamePattern = Seq label_re (Many dot_label_re)"

section \<open>Desired state\<close>

record upstream =
  up_address :: string
  up_port :: int

record listener =
  li_kind :: string
  li_address :: string
  li_http :: int
  li_https :: int

record gateway_route =
  rt_id :: string
  rt_hostname :: string
  rt_path :: string
  rt_protocol :: string
  rt_upstreams :: "upstream list"
  rt_tls :: bool
  rt_listener :: string
  rt_system :: bool

record certificate =
  ce_hostname :: string
  ce_pem :: string
  ce_key :: string

record layer4_route =
  l4_id :: string
  l4_hostname :: string
  l4_node :: string
  l4_reality :: bool
  l4_proxy :: string
  l4_upstreams :: "upstream list"

record shared_https =
  sh_address :: string
  sh_port :: int
  sh_caddy_address :: string
  sh_caddy_port :: int
  sh_reject :: bool
  sh_routes :: "layer4_route list"

record node_listener_state =
  nl_revision :: int
  nl_node :: string
  nl_listener :: shared_https

record gateway_state =
  gs_revision :: int
  gs_listeners :: "listener list"
  gs_routes :: "gateway_route list"
  gs_shared :: "shared_https option"

definition LocalTLSOrigin :: "gateway_route \<Rightarrow> bool" where
  "LocalTLSOrigin r = (rt_listener r = ''public'' \<and> rt_tls r \<and> \<not> rt_system r \<and> rt_path r = [])"

section \<open>Validation\<close>

definition ip4 :: "string \<Rightarrow> bool" where
  "ip4 s = (case parse_ip s of Some ip \<Rightarrow> to4 ip \<noteq> None | None \<Rightarrow> False)"

definition port_ok :: "int \<Rightarrow> bool" where
  "port_ok p = (1 \<le> p \<and> p \<le> 65535)"

definition validUpstreamAddress :: "string \<Rightarrow> bool" where
  "validUpstreamAddress value =
     (let v = to_lower (trim_space value) in
      case parse_ip v of Some ip \<Rightarrow> to4 ip \<noteq> None | None \<Rightarrow> match_string containerHostnamePattern v)"

definition upstream_ok :: "upstream \<Rightarrow> bool" where
  "upstream_ok u = (validUpstreamAddress (up_address u) \<and> port_ok (up_port u))"

definition listener_kinds :: "string list" where
  "listener_kinds = [''lan'', ''headscale'', ''public'', ''system'']"

fun listener_loop :: "listener list \<Rightarrow> listener list \<Rightarrow> string option" where
  "listener_loop seen [] = None"
| "listener_loop seen (l # ls) =
     (if li_kind l \<notin> set listener_kinds then Some ''gateway: unsupported listener kind''
      else if li_kind l \<in> set (map li_kind seen) then Some ''gateway: duplicate listener kind''
      else if \<not> ip4 (li_address l) \<or> \<not> port_ok (li_http l) \<or> \<not> port_ok (li_https l) then Some ''gateway: invalid listener''
      else listener_loop (l # seen) ls)"

definition path_ok :: "string \<Rightarrow> bool" where
  "path_ok p = (p = [] \<or> has_prefix p ''/'' \<and> \<not> contains_any p ''?#'' \<and> length p \<le> 2048)"

definition match_key :: "gateway_route \<Rightarrow> string" where
  "match_key r = rt_listener r @ CHR 0x00 # rt_hostname r @ CHR 0x00 # rt_path r"

fun route_loop :: "listener list \<Rightarrow> string list \<Rightarrow> string list \<Rightarrow> gateway_route list \<Rightarrow> string option" where
  "route_loop listeners ids matches [] = None"
| "route_loop listeners ids matches (r # rs) =
     (if trim_space (rt_id r) = [] then Some ''gateway: route id is required''
      else if rt_id r \<in> set ids then Some ''gateway: duplicate route id''
      else if \<not> match_string hostnamePattern (rt_hostname r) then Some ''gateway: invalid hostname''
      else if \<not> path_ok (rt_path r) then Some ''gateway: route has an invalid exact path''
      else if match_key r \<in> set matches then Some ''gateway: duplicate hostname and path''
      else if rt_listener r \<notin> set (map li_kind listeners) then Some ''gateway: route references an unavailable listener''
      else if rt_protocol r \<noteq> ''http'' \<and> rt_protocol r \<noteq> ''https'' then Some ''gateway: unsupported protocol''
      else if rt_upstreams r = [] then Some ''gateway: route requires an upstream''
      else if \<not> list_all upstream_ok (rt_upstreams r) then Some ''gateway: route has an invalid upstream''
      else route_loop listeners (rt_id r # ids) (match_key r # matches) rs)"

definition web_hosts :: "gateway_route list \<Rightarrow> string list" where
  "web_hosts rs = map rt_hostname (filter (\<lambda>r. rt_listener r = ''public'' \<and> rt_tls r) rs)"

definition ProxyProtocolV2 :: string where
  "ProxyProtocolV2 = ''v2''"

fun layer4_loop :: "string list \<Rightarrow> string list \<Rightarrow> layer4_route list \<Rightarrow> string option" where
  "layer4_loop web seen [] = None"
| "layer4_loop web seen (r # rs) =
     (if trim_space (l4_id r) = [] \<or> \<not> match_string hostnamePattern (l4_hostname r) \<or> l4_upstreams r = []
      then Some ''gateway: invalid shared HTTPS route''
      else if l4_proxy r \<noteq> [] \<and> l4_proxy r \<noteq> ProxyProtocolV2 then Some ''gateway: shared HTTPS route has an invalid Proxy Protocol mode''
      else if l4_hostname r \<in> set seen \<or> l4_hostname r \<in> set web then Some ''gateway: duplicate shared HTTPS hostname''
      else if \<not> list_all upstream_ok (l4_upstreams r) then Some ''gateway: shared HTTPS route has an invalid upstream''
      else layer4_loop web (l4_hostname r # seen) rs)"

definition shared_error :: "listener list \<Rightarrow> gateway_route list \<Rightarrow> shared_https \<Rightarrow> string option" where
  "shared_error listeners routes shared =
     (if \<not> ip4 (sh_address shared) \<or> \<not> port_ok (sh_port shared) then Some ''gateway: invalid shared HTTPS frontend''
      else if \<not> sh_reject shared \<and> (\<not> validUpstreamAddress (sh_caddy_address shared) \<or> \<not> port_ok (sh_caddy_port shared))
      then Some ''gateway: shared HTTPS frontend requires a Caddy backend''
      else if \<not> sh_reject shared \<and> sh_address shared = sh_caddy_address shared \<and> sh_port shared = sh_caddy_port shared
      then Some ''gateway: shared HTTPS frontend and Caddy backend must use different sockets''
      else case find (\<lambda>l. li_kind l = ''public'') listeners of
        None \<Rightarrow> Some ''gateway: shared HTTPS frontend requires the matching public listener''
      | Some l \<Rightarrow>
          if li_address l \<noteq> sh_address shared \<or> li_https l \<noteq> sh_port shared
          then Some ''gateway: shared HTTPS frontend requires the matching public listener''
          else layer4_loop (web_hosts routes) [] (sh_routes shared))"

definition gateway_Validate :: "gateway_state \<Rightarrow> string option" where
  "gateway_Validate s =
     (if gs_revision s < 1 then Some ''gateway: revision must be positive''
      else case listener_loop [] (gs_listeners s) of
        Some err \<Rightarrow> Some err
      | None \<Rightarrow>
          (case route_loop (gs_listeners s) [] [] (gs_routes s) of
             Some err \<Rightarrow> Some err
           | None \<Rightarrow>
               (case gs_shared s of
                  None \<Rightarrow> None
                | Some shared \<Rightarrow> shared_error (gs_listeners s) (gs_routes s) shared)))"

text \<open>The state a node listener is checked and sorted as.\<close>

definition listener_probe :: "node_listener_state \<Rightarrow> gateway_state" where
  "listener_probe s =
     \<lparr>gs_revision = nl_revision s,
      gs_listeners = [\<lparr>li_kind = ''public'', li_address = sh_address (nl_listener s), li_http = 80, li_https = sh_port (nl_listener s)\<rparr>],
      gs_routes = [], gs_shared = Some (nl_listener s)\<rparr>"

definition node_listener_Validate :: "node_listener_state \<Rightarrow> string option" where
  "node_listener_Validate s =
     (if nl_revision s < 1 then Some ''node listener: revision must be positive''
      else if trim_space (nl_node s) = [] then Some ''node listener: accepting node is required''
      else if list_ex (\<lambda>r. l4_node r \<noteq> nl_node s) (sh_routes (nl_listener s))
      then Some ''node listener: every upstream must belong to the accepting application node''
      else gateway_Validate (listener_probe s))"

section \<open>Canonical order\<close>

definition upstream_less :: "upstream \<Rightarrow> upstream \<Rightarrow> bool" where
  "upstream_less a b = (if up_address a = up_address b then up_port a < up_port b else up_address a < up_address b)"

definition route_less :: "gateway_route \<Rightarrow> gateway_route \<Rightarrow> bool" where
  "route_less a b =
     (if rt_listener a \<noteq> rt_listener b then rt_listener a < rt_listener b
      else if rt_hostname a \<noteq> rt_hostname b then rt_hostname a < rt_hostname b
      else if (rt_path a \<noteq> []) \<noteq> (rt_path b \<noteq> []) then rt_path a \<noteq> []
      else if rt_path a \<noteq> rt_path b then rt_path a < rt_path b
      else rt_id a < rt_id b)"

definition certificate_less :: "certificate \<Rightarrow> certificate \<Rightarrow> bool" where
  "certificate_less a b =
     (if ce_hostname a \<noteq> ce_hostname b then ce_hostname a < ce_hostname b
      else if ce_pem a \<noteq> ce_pem b then ce_pem a < ce_pem b
      else ce_key a < ce_key b)"

definition sorted_shared :: "shared_https \<Rightarrow> shared_https" where
  "sorted_shared sh =
     sh\<lparr>sh_routes := sort_slice (\<lambda>a b. l4_id a < l4_id b)
          (map (\<lambda>r. r\<lparr>l4_upstreams := sort_slice upstream_less (l4_upstreams r)\<rparr>) (sh_routes sh))\<rparr>"

definition gateway_Sorted :: "gateway_state \<Rightarrow> gateway_state" where
  "gateway_Sorted s =
     \<lparr>gs_revision = gs_revision s,
      gs_listeners = sort_slice (\<lambda>a b. li_kind a < li_kind b) (gs_listeners s),
      gs_routes = sort_slice route_less
        (map (\<lambda>r. r\<lparr>rt_upstreams := sort_slice upstream_less (rt_upstreams r)\<rparr>) (gs_routes s)),
      gs_shared = map_option sorted_shared (gs_shared s)\<rparr>"

definition node_listener_Sorted :: "node_listener_state \<Rightarrow> node_listener_state" where
  "node_listener_Sorted s = s\<lparr>nl_listener := the (gs_shared (gateway_Sorted (listener_probe s)))\<rparr>"

section \<open>Encoding and hash\<close>

text \<open>
  \<^verbatim>\<open>json.Marshal\<close> of the sorted state, its fields in the order of the structs. An empty slice built by
  \<^verbatim>\<open>append\<close> on a nil one is nil and prints as \<^verbatim>\<open>null\<close>.
\<close>

definition jint :: "int \<Rightarrow> json" where
  "jint i = JNum (int_str i)"

definition jslice :: "('a \<Rightarrow> json) \<Rightarrow> 'a list \<Rightarrow> json" where
  "jslice f xs = (if xs = [] then JNull else JArr (map f xs))"

definition jflag :: "string \<Rightarrow> bool \<Rightarrow> members" where
  "jflag k b = (if b then [(k, JBool True)] else [])"

definition jopt :: "string \<Rightarrow> string \<Rightarrow> members" where
  "jopt k s = (if s = [] then [] else [(k, JStr s)])"

definition upstream_json :: "upstream \<Rightarrow> json" where
  "upstream_json u = JObj [(''address'', JStr (up_address u)), (''port'', jint (up_port u))]"

definition listener_json :: "listener \<Rightarrow> json" where
  "listener_json l =
     JObj [(''kind'', JStr (li_kind l)), (''address'', JStr (li_address l)), (''httpPort'', jint (li_http l)), (''httpsPort'', jint (li_https l))]"

definition gateway_route_json :: "gateway_route \<Rightarrow> json" where
  "gateway_route_json r =
     JObj ([(''id'', JStr (rt_id r)), (''hostname'', JStr (rt_hostname r))] @ jopt ''path'' (rt_path r) @
       [(''protocol'', JStr (rt_protocol r)), (''upstreams'', jslice upstream_json (rt_upstreams r)), (''tlsEnabled'', JBool (rt_tls r)),
        (''listenerKind'', JStr (rt_listener r))] @ jflag ''system'' (rt_system r))"

definition layer4_json :: "layer4_route \<Rightarrow> json" where
  "layer4_json r =
     JObj ([(''id'', JStr (l4_id r)), (''hostname'', JStr (l4_hostname r))] @ jopt ''applicationNodeId'' (l4_node r) @
       jflag ''managedReality'' (l4_reality r) @ jopt ''proxyProtocol'' (l4_proxy r) @
       [(''upstreams'', jslice upstream_json (l4_upstreams r))])"

definition shared_json :: "shared_https \<Rightarrow> json" where
  "shared_json sh =
     JObj ([(''address'', JStr (sh_address sh)), (''port'', jint (sh_port sh)), (''caddyAddress'', JStr (sh_caddy_address sh)),
        (''caddyPort'', jint (sh_caddy_port sh))] @ jflag ''rejectUnmatched'' (sh_reject sh) @
       [(''routes'', jslice layer4_json (sh_routes sh))])"

definition gateway_json :: "gateway_state \<Rightarrow> json" where
  "gateway_json s =
     JObj ([(''revision'', jint (gs_revision s)), (''listeners'', jslice listener_json (gs_listeners s)),
        (''routes'', jslice gateway_route_json (gs_routes s))] @
       (case gs_shared s of None \<Rightarrow> [] | Some sh \<Rightarrow> [(''sharedHttps'', shared_json sh)]))"

definition certificate_json :: "certificate \<Rightarrow> json" where
  "certificate_json c =
     JObj [(''hostname'', JStr (ce_hostname c)), (''certificatePem'', JStr (ce_pem c)), (''privateKeyPem'', JStr (ce_key c))]"

definition node_listener_json :: "node_listener_state \<Rightarrow> json" where
  "node_listener_json s =
     JObj [(''revision'', jint (nl_revision s)), (''nodeId'', JStr (nl_node s)), (''listener'', shared_json (nl_listener s))]"

definition ConfigurationHash :: "(string \<Rightarrow> string) \<Rightarrow> gateway_state \<Rightarrow> certificate list \<Rightarrow> string + string" where
  "ConfigurationHash sha s certificates =
     (case gateway_Validate s of
        Some err \<Rightarrow> Inl err
      | None \<Rightarrow> Inr (sha (marshal (gateway_json (gateway_Sorted s)) @
          marshal (jslice certificate_json (sort_slice certificate_less certificates)))))"

definition NodeListenerConfigurationHash :: "(string \<Rightarrow> string) \<Rightarrow> node_listener_state \<Rightarrow> string + string" where
  "NodeListenerConfigurationHash sha s =
     (case node_listener_Validate s of
        Some err \<Rightarrow> Inl err
      | None \<Rightarrow> Inr (sha (marshal (node_listener_json (node_listener_Sorted s)))))"

section \<open>Certificates for a state\<close>

text \<open>\<open>pem_ok\<close> is \<^verbatim>\<open>ValidateCertificates\<close> and \<open>covers\<close> is \<^verbatim>\<open>CertificateCoversHostname\<close>.\<close>

definition ValidateCertificatesForState ::
  "(certificate list \<Rightarrow> string option) \<Rightarrow> (certificate \<Rightarrow> string \<Rightarrow> bool) \<Rightarrow> gateway_state \<Rightarrow> certificate list \<Rightarrow> string option" where
  "ValidateCertificatesForState pem_ok covers s values =
     (case pem_ok values of
        Some err \<Rightarrow> Some err
      | None \<Rightarrow>
          if list_ex (\<lambda>r. rt_tls r \<and> rt_listener r \<noteq> ''public'' \<and> rt_listener r \<noteq> ''system'' \<and>
                \<not> list_ex (\<lambda>c. covers c (rt_hostname r)) values) (gs_routes s)
          then Some ''gateway: TLS route has no matching certificate'' else None)"

definition count_char :: "char \<Rightarrow> string \<Rightarrow> nat" where
  "count_char c s = length (filter (\<lambda>d. d = c) s)"

definition validCertificateName :: "string \<Rightarrow> bool" where
  "validCertificateName n =
     (let name = to_lower (trim_space n) in
      if has_prefix name ''*.'' then count_char (CHR ''*'') name = 1 \<and> match_string hostnamePattern (trim_prefix name ''*.'')
      else match_string hostnamePattern name)"

end
