(* ===== verification/Gateway_Laws.thy ===== *)
theory Gateway_Laws
  imports Gateway_Model
begin

text \<open>
  What the gateway model promises: the host name patterns accept exactly the dotted labels of DNS, a
  validated state dispatches every request without ambiguity, and the configuration hash depends on the
  configuration and not on the order in which it was assembled.
\<close>

section \<open>Host names\<close>

definition label_ok :: "string \<Rightarrow> bool" where
  "label_ok l = (l \<noteq> [] \<and> length l \<le> 63 \<and> list_all ldh l \<and> hd l \<noteq> CHR ''-'' \<and> last l \<noteq> CHR ''-'')"

lemma rounds_Cls: "rounds k {[c] | c. p c} = {s. length s = k \<and> list_all p s}"
proof (induction k)
  case (Suc k)
  show ?case
  proof (intro set_eqI iffI)
    fix s assume "s \<in> {s. length s = Suc k \<and> list_all p s}"
    then obtain c t where "s = [c] @ t" "p c" "t \<in> {s. length s = k \<and> list_all p s}" by (cases s) auto
    then show "s \<in> rounds (Suc k) {[c] | c. p c}" 
      using concI [of "[c]" "{[c] | c. p c}" t] Suc.IH by auto
  qed (auto simp: conc_def Suc.IH)
qed auto

lemma lang_UpTo_Cls: "lang (UpTo n (Cls p)) = {s. length s \<le> n \<and> list_all p s}"
  by (auto simp: rounds_Cls)

lemma lang_Opt: "lang (Opt r) = insert [] (lang r)"
proof -
  have "{..1::nat} = {0, 1}" by auto
  then show ?thesis by (simp add: Opt_def conc_def)
qed

lemma lang_label: "s \<in> lang label_re \<longleftrightarrow> label_ok s"
proof
  assume "s \<in> lang label_re"
  then obtain c t where s: "s = c # t" "alnum c" and t: "t = [] \<or> (\<exists>u d. t = u @ [d] \<and> length u \<le> 61 \<and> list_all ldh u \<and> alnum d)"
    unfolding label_re_def lang.simps(3,4) lang_Opt lang_UpTo_Cls by (auto simp: conc_def)
  have al: "ldh d" "d \<noteq> CHR ''-''" if "alnum d" for d
    using that by (auto simp: alnum_def ldh_def is_lower_alpha_def is_digit_def less_eq_char_def)
  show "label_ok s" using s t al by (auto simp: label_ok_def)
next
  assume ok: "label_ok s"
  have al: "alnum d" if "ldh d" "d \<noteq> CHR ''-''" for d using that by (auto simp: alnum_def ldh_def)
  obtain c t where s: "s = c # t" using ok by (cases s) (auto simp: label_ok_def)
  have c: "alnum c" using ok al s by (auto simp: label_ok_def)
  have "t \<in> lang (Opt (Seq (UpTo 61 (Cls ldh)) (Cls alnum)))"
  proof (cases t rule: rev_cases)
    case (snoc u d)
    then have "alnum d" "list_all ldh u" "length u \<le> 61" using ok al s by (auto simp: label_ok_def)
    then show ?thesis unfolding snoc lang_Opt lang.simps(4) lang_UpTo_Cls by (intro insertI2 concI) auto
  qed (simp add: lang_Opt)
  then show "s \<in> lang label_re" unfolding s label_re_def lang.simps(4) using c concI [of "[c]" _ t] by auto
qed

lemma label_no_dot: "label_ok l \<Longrightarrow> CHR ''.'' \<notin> set l"
  by (auto simp: label_ok_def list_all_iff ldh_def is_lower_alpha_def is_digit_def less_eq_char_def)

lemma rounds_dot_label:
  "s \<in> rounds k (lang dot_label_re) \<longleftrightarrow> (\<exists>ls. length ls = k \<and> list_all label_ok ls \<and> s = concat (map (Cons (CHR ''.'')) ls))"
proof (induction k arbitrary: s)
  case (Suc k)
  have dot: "lang dot_label_re = {CHR ''.'' # l | l. label_ok l}" by (auto simp: dot_label_re_def conc_def lang_label)
  have "s \<in> rounds (Suc k) (lang dot_label_re) \<longleftrightarrow>
      (\<exists>l ls. label_ok l \<and> length ls = k \<and> list_all label_ok ls \<and> s = (CHR ''.'' # l) @ concat (map (Cons (CHR ''.'')) ls))"
    unfolding rounds.simps conc_def mem_Collect_eq Suc.IH unfolding dot mem_Collect_eq by blast
  also have "\<dots> \<longleftrightarrow> (\<exists>ls. length ls = Suc k \<and> list_all label_ok ls \<and> s = concat (map (Cons (CHR ''.'')) ls))"
    (is "?l \<longleftrightarrow> ?r")
  proof
    assume ?l
    then obtain l ls where "label_ok l" "length ls = k" "list_all label_ok ls" "s = concat (map (Cons (CHR ''.'')) (l # ls))" by auto
    then show ?r by (intro exI [of _ "l # ls"]) simp
  next
    assume ?r
    then obtain l ls where "label_ok l" "length ls = k" "list_all label_ok ls" "s = (CHR ''.'' # l) @ concat (map (Cons (CHR ''.'')) ls)"
      by (auto simp: length_Suc_conv)
    then show ?l by blast
  qed
  finally show ?case .
qed simp

lemma join_concat: "join [d] (l # ls) = l @ concat (map (Cons d) ls)"
  by (induction ls arbitrary: l) auto

lemma join_split: "join [d] (split_on d s) = s"
proof (induction s)
  case (Cons c s)
  then show ?case by (cases "split_on d s") (auto simp: join_concat)
qed simp

text \<open>A first label and the dotted ones after it.\<close>

lemma dotted_split:
  "(\<exists>l ls. label_ok l \<and> length ls = k \<and> list_all label_ok ls \<and> s = l @ concat (map (Cons (CHR ''.'')) ls)) \<longleftrightarrow>
    length (split_on (CHR ''.'') s) = Suc k \<and> list_all label_ok (split_on (CHR ''.'') s)"
proof
  assume "\<exists>l ls. label_ok l \<and> length ls = k \<and> list_all label_ok ls \<and> s = l @ concat (map (Cons (CHR ''.'')) ls)"
  then obtain l ls where l: "label_ok l" "length ls = k" "list_all label_ok ls" "s = join [CHR ''.''] (l # ls)" by (auto simp: join_concat)
  have "split_on (CHR ''.'') s = l # ls"
    unfolding l(4) by (rule split_on_join) (use l(1,3) label_no_dot in \<open>auto simp: list_all_iff\<close>)
  then show "length (split_on (CHR ''.'') s) = Suc k \<and> list_all label_ok (split_on (CHR ''.'') s)" using l by simp
next
  assume "length (split_on (CHR ''.'') s) = Suc k \<and> list_all label_ok (split_on (CHR ''.'') s)"
  then obtain l ls where l: "split_on (CHR ''.'') s = l # ls" "length ls = k" "label_ok l" "list_all label_ok ls"
    by (cases "split_on (CHR ''.'') s") auto
  then show "\<exists>l ls. label_ok l \<and> length ls = k \<and> list_all label_ok ls \<and> s = l @ concat (map (Cons (CHR ''.'')) ls)"
    using join_split [of "CHR ''.''" s] by (auto simp: join_concat)
qed

lemma lang_dotted: "s \<in> conc (lang label_re) (rounds k (lang dot_label_re)) \<longleftrightarrow>
    length (split_on (CHR ''.'') s) = Suc k \<and> list_all label_ok (split_on (CHR ''.'') s)"
  unfolding dotted_split [symmetric] by (auto simp: conc_def lang_label rounds_dot_label)

lemma match_dotted:
  "match_string hostnamePattern s \<longleftrightarrow> 2 \<le> length (split_on (CHR ''.'') s) \<and> list_all label_ok (split_on (CHR ''.'') s)"
  "match_string containerHostnamePattern s \<longleftrightarrow> list_all label_ok (split_on (CHR ''.'') s)"
proof -
  have many: "s \<in> lang (Seq label_re (Many dot_label_re)) \<longleftrightarrow> (\<exists>k. s \<in> conc (lang label_re) (rounds k (lang dot_label_re)))"
    by (auto simp: conc_def)
  have plus: "s \<in> lang (Seq label_re (Plus dot_label_re)) \<longleftrightarrow> (\<exists>k. s \<in> conc (lang label_re) (rounds (Suc k) (lang dot_label_re)))"
    unfolding Plus_def lang.simps rounds.simps conc_def by blast
  have "0 < length (split_on (CHR ''.'') s)" by simp
  then have len: "\<exists>k. length (split_on (CHR ''.'') s) = Suc k"
      "(\<exists>k. length (split_on (CHR ''.'') s) = Suc (Suc k)) \<longleftrightarrow> 2 \<le> length (split_on (CHR ''.'') s)"
    by presburger+
  show "match_string hostnamePattern s \<longleftrightarrow> 2 \<le> length (split_on (CHR ''.'') s) \<and> list_all label_ok (split_on (CHR ''.'') s)"
    unfolding match_string_lang hostnamePattern_def plus lang_dotted using len by blast
  show "match_string containerHostnamePattern s \<longleftrightarrow> list_all label_ok (split_on (CHR ''.'') s)"
    unfolding match_string_lang containerHostnamePattern_def many lang_dotted using len by blast
qed

text \<open>
  C39. The host name patterns are the DNS rule for names. A host name matches exactly when it has at least
  two dot-separated labels, each of 1 to 63 lower-case letters, digits and hyphens with no hyphen at
  either end; a container host name may be a single such label.
\<close>

theorem hostname_pattern_labels:
  "(match_string hostnamePattern s \<longleftrightarrow>
      2 \<le> length (split_on (CHR ''.'') s) \<and> list_all label_ok (split_on (CHR ''.'') s)) \<and>
   (match_string containerHostnamePattern s \<longleftrightarrow> list_all label_ok (split_on (CHR ''.'') s))"
  by (intro conjI match_dotted)

section \<open>Validated states\<close>

lemma split_on_chars: "x \<in> set s \<Longrightarrow> x = d \<or> (\<exists>f \<in> set (split_on d s). x \<in> set f)"
  by (induction s) (auto split: list.splits)

lemma hostname_no_nul: "match_string hostnamePattern s \<Longrightarrow> CHR 0x00 \<notin> set s"
  using split_on_chars [of "CHR 0x00" s "CHR ''.''"]
  by (fastforce simp: match_dotted label_ok_def list_all_iff ldh_def is_lower_alpha_def is_digit_def less_eq_char_def)

lemma nul_first:
  assumes "CHR 0x00 \<notin> set a" "CHR 0x00 \<notin> set b" "a @ CHR 0x00 # x = b @ CHR 0x00 # y"
  shows "a = b \<and> x = y"
proof -
  have first: "takeWhile (\<lambda>c. c \<noteq> CHR 0x00) (k @ CHR 0x00 # w) = k" if "CHR 0x00 \<notin> set k" for k w :: string
    using that by (simp add: takeWhile_tail takeWhile_append)
  have "a = b" using first [OF assms(1), of x] first [OF assms(2), of y] assms(3) by simp
  then show ?thesis using assms(3) by simp
qed

lemma listener_loop_None:
  "listener_loop seen ls = None \<longleftrightarrow>
    distinct (map li_kind ls) \<and> set (map li_kind ls) \<inter> set (map li_kind seen) = {} \<and>
    (\<forall>l \<in> set ls. li_kind l \<in> set listener_kinds \<and> ip4 (li_address l) \<and> port_ok (li_http l) \<and> port_ok (li_https l))"
  by (induction seen ls rule: listener_loop.induct) auto

text \<open>What a single route must have, given the listeners.\<close>

definition route_well :: "listener list \<Rightarrow> gateway_route \<Rightarrow> bool" where
  "route_well ls r =
     (trim_space (rt_id r) \<noteq> [] \<and> match_string hostnamePattern (rt_hostname r) \<and> path_ok (rt_path r) \<and>
      rt_listener r \<in> set (map li_kind ls) \<and> rt_protocol r \<in> {''http'', ''https''} \<and> rt_upstreams r \<noteq> [] \<and>
      list_all upstream_ok (rt_upstreams r))"

definition request_of :: "gateway_route \<Rightarrow> string \<times> string \<times> string" where
  "request_of r = (rt_listener r, rt_hostname r, rt_path r)"

lemma route_loop_None:
  "route_loop ls ids matches rs = None \<longleftrightarrow>
    (\<forall>r \<in> set rs. route_well ls r) \<and> distinct (map rt_id rs) \<and> set (map rt_id rs) \<inter> set ids = {} \<and>
    distinct (map match_key rs) \<and> set (map match_key rs) \<inter> set matches = {}"
  by (induction ls ids matches rs rule: route_loop.induct) (auto simp: route_well_def)

lemma match_key_request:
  assumes "listener_loop [] ls = None" "route_well ls r" "route_well ls r'"
  shows "match_key r = match_key r' \<longleftrightarrow> request_of r = request_of r'"
proof -
  have kinds: "CHR 0x00 \<notin> set k" if "k \<in> set listener_kinds" for k using that by (auto simp: listener_kinds_def)
  have "rt_listener r \<in> set listener_kinds" "rt_listener r' \<in> set listener_kinds"
    using assms by (auto simp: listener_loop_None route_well_def)
  note nul = kinds [OF this(1)] kinds [OF this(2)]
  have host: "CHR 0x00 \<notin> set (rt_hostname r)" "CHR 0x00 \<notin> set (rt_hostname r')"
    using assms(2,3) hostname_no_nul by (simp_all add: route_well_def)
  show ?thesis
  proof
    assume "match_key r = match_key r'"
    from nul_first [OF nul this [unfolded match_key_def]]
    have kind: "rt_listener r = rt_listener r'" and rest: "rt_hostname r @ CHR 0x00 # rt_path r = rt_hostname r' @ CHR 0x00 # rt_path r'" by blast+
    from kind nul_first [OF host rest] show "request_of r = request_of r'" by (simp add: request_of_def)
  qed (simp add: match_key_def request_of_def)
qed

lemma distinct_requests:
  assumes "listener_loop [] ls = None" "\<forall>r \<in> set rs. route_well ls r"
  shows "distinct (map match_key rs) \<longleftrightarrow> distinct (map request_of rs)"
  using assms(2)
proof (induction rs)
  case (Cons r rs)
  then have "match_key r \<in> match_key ` set rs \<longleftrightarrow> request_of r \<in> request_of ` set rs"
    using match_key_request [OF assms(1)] by (auto simp: image_iff)
  then show ?case using Cons by simp
qed simp

text \<open>What the shared HTTPS frontend must have, given the listeners and routes.\<close>

definition layer4_well :: "layer4_route \<Rightarrow> bool" where
  "layer4_well r =
     (trim_space (l4_id r) \<noteq> [] \<and> match_string hostnamePattern (l4_hostname r) \<and> l4_upstreams r \<noteq> [] \<and>
      l4_proxy r \<in> {[], ProxyProtocolV2} \<and> list_all upstream_ok (l4_upstreams r))"

lemma layer4_loop_None:
  "layer4_loop web seen rs = None \<longleftrightarrow>
    (\<forall>r \<in> set rs. layer4_well r) \<and> distinct (map l4_hostname rs) \<and> set (map l4_hostname rs) \<inter> (set seen \<union> set web) = {}"
  by (induction web seen rs rule: layer4_loop.induct) (auto simp: layer4_well_def)

definition shared_well :: "listener list \<Rightarrow> gateway_route list \<Rightarrow> shared_https \<Rightarrow> bool" where
  "shared_well ls rs sh =
     (ip4 (sh_address sh) \<and> port_ok (sh_port sh) \<and>
      (\<exists>l \<in> set ls. li_kind l = ''public'' \<and> li_address l = sh_address sh \<and> li_https l = sh_port sh) \<and>
      (sh_reject sh \<or> validUpstreamAddress (sh_caddy_address sh) \<and> port_ok (sh_caddy_port sh) \<and>
         (sh_caddy_address sh, sh_caddy_port sh) \<noteq> (sh_address sh, sh_port sh)) \<and>
      (\<forall>r \<in> set (sh_routes sh). layer4_well r) \<and> distinct (map l4_hostname (sh_routes sh)) \<and>
      (\<forall>r \<in> set (sh_routes sh). \<forall>w \<in> set rs. rt_listener w = ''public'' \<and> rt_tls w \<longrightarrow> rt_hostname w \<noteq> l4_hostname r))"

lemma find_kind:
  assumes "distinct (map li_kind ls)"
  shows "find (\<lambda>l. li_kind l = k) ls = Some l \<longleftrightarrow> l \<in> set ls \<and> li_kind l = k"
  using assms by (induction ls) auto

lemma shared_error_None:
  assumes "distinct (map li_kind ls)"
  shows "shared_error ls rs sh = None \<longleftrightarrow> shared_well ls rs sh"
proof (cases "find (\<lambda>l. li_kind l = ''public'') ls")
  case None
  then have "\<forall>l \<in> set ls. li_kind l \<noteq> ''public''" by (auto simp: find_None_iff)
  then have "\<not> shared_well ls rs sh" unfolding shared_well_def by blast
  moreover have "shared_error ls rs sh \<noteq> None" by (simp add: shared_error_def None)
  ultimately show ?thesis by blast
next
  case (Some l)
  then have l: "l \<in> set ls" "li_kind l = ''public''" using find_kind [OF assms] by auto
  have "l' = l" if "l' \<in> set ls" "li_kind l' = ''public''" for l'
    using find_kind [OF assms, of "''public''" l'] that Some by simp
  then have "(\<exists>l \<in> set ls. li_kind l = ''public'' \<and> li_address l = sh_address sh \<and> li_https l = sh_port sh) \<longleftrightarrow>
      li_address l = sh_address sh \<and> li_https l = sh_port sh"
    using l by metis
  note frontend = this
  have web: "set (map l4_hostname (sh_routes sh)) \<inter> (set [] \<union> set (web_hosts rs)) = {} \<longleftrightarrow>
      (\<forall>r \<in> set (sh_routes sh). \<forall>w \<in> set rs. rt_listener w = ''public'' \<and> rt_tls w \<longrightarrow> rt_hostname w \<noteq> l4_hostname r)"
    by (auto simp: web_hosts_def) metis
  have "shared_error ls rs sh = None \<longleftrightarrow> ip4 (sh_address sh) \<and> port_ok (sh_port sh) \<and>
      (sh_reject sh \<or> validUpstreamAddress (sh_caddy_address sh) \<and> port_ok (sh_caddy_port sh)) \<and>
      (sh_reject sh \<or> \<not> (sh_address sh = sh_caddy_address sh \<and> sh_port sh = sh_caddy_port sh)) \<and>
      (li_address l = sh_address sh \<and> li_https l = sh_port sh) \<and> layer4_loop (web_hosts rs) [] (sh_routes sh) = None"
    unfolding shared_error_def Some option.case guard_None by argo
  then show ?thesis
    unfolding shared_well_def frontend layer4_loop_None web prod.inject by argo
qed

lemma gateway_valid:
  "gateway_Validate s = None \<longleftrightarrow>
     1 \<le> gs_revision s \<and> distinct (map li_kind (gs_listeners s)) \<and>
     (\<forall>l \<in> set (gs_listeners s). li_kind l \<in> set listener_kinds \<and> ip4 (li_address l) \<and> port_ok (li_http l) \<and> port_ok (li_https l)) \<and>
     (\<forall>r \<in> set (gs_routes s). route_well (gs_listeners s) r) \<and>
     distinct (map rt_id (gs_routes s)) \<and> distinct (map request_of (gs_routes s)) \<and>
     (\<forall>sh. gs_shared s = Some sh \<longrightarrow> shared_well (gs_listeners s) (gs_routes s) sh)"
proof (cases "1 \<le> gs_revision s \<and> listener_loop [] (gs_listeners s) = None")
  case True
  then have kinds: "distinct (map li_kind (gs_listeners s))" and
    own: "\<forall>l \<in> set (gs_listeners s). li_kind l \<in> set listener_kinds \<and> ip4 (li_address l) \<and> port_ok (li_http l) \<and> port_ok (li_https l)"
    unfolding listener_loop_None by blast+
  have "route_loop (gs_listeners s) [] [] (gs_routes s) = None \<longleftrightarrow>
      (\<forall>r \<in> set (gs_routes s). route_well (gs_listeners s) r) \<and> distinct (map rt_id (gs_routes s)) \<and> distinct (map request_of (gs_routes s))"
    using distinct_requests True by (auto simp: route_loop_None)
  moreover have "gateway_Validate s = None \<longleftrightarrow> route_loop (gs_listeners s) [] [] (gs_routes s) = None \<and>
      (\<forall>sh. gs_shared s = Some sh \<longrightarrow> shared_error (gs_listeners s) (gs_routes s) sh = None)"
    using True by (cases "route_loop (gs_listeners s) [] [] (gs_routes s)"; cases "gs_shared s") (simp_all add: gateway_Validate_def)
  ultimately show ?thesis
    unfolding shared_error_None [OF kinds] using True kinds by (simp only: eqTrueI [OF own] simp_thms conj_assoc)
next
  case False
  then have "gateway_Validate s \<noteq> None"
    by (cases "listener_loop [] (gs_listeners s)") (simp_all add: gateway_Validate_def)
  then show ?thesis using False unfolding listener_loop_None by auto
qed

text \<open>
  C13. A gateway state is accepted exactly when its dispatch is unambiguous and complete. Listeners are
  well formed and of different kinds; route ids are distinct, no two routes answer the same listener, host
  name and path, and every route has an existing listener, an HTTP protocol and valid upstreams. A shared
  HTTPS frontend sits on the public listener, does not forward to its own socket, and its host names are distinct
  and not also served as public HTTPS sites.
\<close>

theorem gateway_accepts_unambiguous:
  "gateway_Validate s = None \<longleftrightarrow>
     1 \<le> gs_revision s \<and> distinct (map li_kind (gs_listeners s)) \<and>
     (\<forall>l \<in> set (gs_listeners s). li_kind l \<in> set listener_kinds \<and> ip4 (li_address l) \<and> port_ok (li_http l) \<and> port_ok (li_https l)) \<and>
     (\<forall>r \<in> set (gs_routes s). route_well (gs_listeners s) r) \<and>
     distinct (map rt_id (gs_routes s)) \<and> distinct (map request_of (gs_routes s)) \<and>
     (\<forall>sh. gs_shared s = Some sh \<longrightarrow> shared_well (gs_listeners s) (gs_routes s) sh)"
  by (rule gateway_valid)

text \<open>A site and a REALITY route behind one public listener.\<close>

definition s_up :: "string \<Rightarrow> int \<Rightarrow> upstream" where
  "s_up a p = \<lparr>up_address = a, up_port = p\<rparr>"

definition s_address :: string where
  "s_address = string_v4 0xC0000201"

definition s_site :: gateway_route where
  "s_site = \<lparr>rt_id = ''r1'', rt_hostname = ''a.example'', rt_path = [], rt_protocol = ''http'', rt_upstreams = [s_up ''web'' 80, s_up ''api'' 80],
     rt_tls = True, rt_listener = ''public'', rt_system = False\<rparr>"

definition s_layer4 :: "string \<Rightarrow> string \<Rightarrow> layer4_route" where
  "s_layer4 i h = \<lparr>l4_id = i, l4_hostname = h, l4_node = ''n1'', l4_reality = True, l4_proxy = [], l4_upstreams = [s_up ''api'' 8443]\<rparr>"

definition s_gateway :: "layer4_route list \<Rightarrow> gateway_state" where
  "s_gateway ls = \<lparr>gs_revision = 1,
     gs_listeners = [\<lparr>li_kind = ''public'', li_address = s_address, li_http = 80, li_https = 443\<rparr>],
     gs_routes = [s_site],
     gs_shared = Some \<lparr>sh_address = s_address, sh_port = 443, sh_caddy_address = ''caddy'', sh_caddy_port = 8443, sh_reject = False,
       sh_routes = ls\<rparr>\<rparr>"

lemma s_names:
  "match_string hostnamePattern ''a.example''" "match_string hostnamePattern ''b.example''" "match_string hostnamePattern ''c.example''"
  by (simp_all add: match_dotted label_ok_def ldh_def is_lower_alpha_def less_eq_char_def)

lemma s_upstreams: "validUpstreamAddress ''web''" "validUpstreamAddress ''api''" "validUpstreamAddress ''caddy''"
proof -
  have trim: "trim_space ''web'' = ''web''" "trim_space ''api'' = ''api''" "trim_space ''caddy'' = ''caddy''" by code_simp+
  have lower: "to_lower ''web'' = ''web''" "to_lower ''api'' = ''api''" "to_lower ''caddy'' = ''caddy''" by code_simp+
  have parse: "parse_ip ''web'' = None" "parse_ip ''api'' = None" "parse_ip ''caddy'' = None" by (simp_all add: parse_ip_def parse_addr_def)
  show "validUpstreamAddress ''web''" "validUpstreamAddress ''api''" "validUpstreamAddress ''caddy''"
    by (simp_all add: validUpstreamAddress_def trim lower parse match_dotted label_ok_def ldh_def is_lower_alpha_def less_eq_char_def)
qed

lemma s_gateway_valid:
  assumes "\<forall>l \<in> set ls. l4_id l = ''l1'' \<or> l4_id l = ''l2''" "\<forall>l \<in> set ls. l = s_layer4 (l4_id l) (l4_hostname l)"
    and "\<forall>l \<in> set ls. l4_hostname l \<in> {''b.example'', ''c.example''}" "distinct (map l4_hostname ls)"
  shows "gateway_Validate (s_gateway ls) = None"
proof -
  have ids: "trim_space ''r1'' \<noteq> []" "trim_space ''l1'' \<noteq> []" "trim_space ''l2'' \<noteq> []" by code_simp+
  have addr: "ip4 s_address" by (simp add: ip4_def s_address_def)
  have caddy: "s_address \<noteq> ''caddy''"
  proof
    assume "s_address = ''caddy''"
    moreover have "parse_ip ''caddy'' = None" by (simp add: parse_ip_def parse_addr_def)
    moreover have "parse_ip s_address \<noteq> None" by (simp add: s_address_def)
    ultimately show False by simp
  qed
  have up: "upstream_ok (s_up ''web'' 80)" "upstream_ok (s_up ''api'' 80)" "upstream_ok (s_up ''api'' 8443)"
    by (simp_all add: upstream_ok_def s_up_def s_upstreams port_ok_def)
  have l4: "layer4_well l" if "l \<in> set ls" for l
  proof -
    have "l4_upstreams l = [s_up ''api'' 8443]" "l4_proxy l = []"
      using assms(2) that by (metis s_layer4_def layer4_route.select_convs(5,6))+
    then show ?thesis using assms(1,3) that ids s_names up by (auto simp: layer4_well_def)
  qed
  show ?thesis unfolding gateway_valid
    using addr caddy up l4 assms(3,4) ids s_names s_upstreams
    by (auto simp: s_gateway_def s_site_def route_well_def shared_well_def path_ok_def port_ok_def listener_kinds_def)
qed

theorem gateway_accepts_unambiguous_witness:
  "gateway_Validate (s_gateway [s_layer4 ''l1'' ''b.example'']) = None \<and>
   shared_well (gs_listeners (s_gateway [s_layer4 ''l1'' ''b.example''])) (gs_routes (s_gateway [s_layer4 ''l1'' ''b.example'']))
     (the (gs_shared (s_gateway [s_layer4 ''l1'' ''b.example''])))"
proof -
  have ok: "gateway_Validate (s_gateway [s_layer4 ''l1'' ''b.example'']) = None" by (rule s_gateway_valid) (simp_all add: s_layer4_def)
  have "gs_shared (s_gateway [s_layer4 ''l1'' ''b.example'']) = Some (the (gs_shared (s_gateway [s_layer4 ''l1'' ''b.example''])))"
    by (simp add: s_gateway_def)
  with ok show ?thesis using gateway_accepts_unambiguous [of "s_gateway [s_layer4 ''l1'' ''b.example'']"] by blast
qed

section \<open>Canonical order\<close>

definition upstream_key :: "upstream \<Rightarrow> string \<times> int" where
  "upstream_key u = (up_address u, up_port u)"

definition route_key :: "gateway_route \<Rightarrow> string \<times> string \<times> bool \<times> string \<times> string" where
  "route_key r = (rt_listener r, rt_hostname r, rt_path r = [], rt_path r, rt_id r)"

definition certificate_key :: "certificate \<Rightarrow> string \<times> string \<times> string" where
  "certificate_key c = (ce_hostname c, ce_pem c, ce_key c)"

interpretation upstream_order: total_sort_order upstream_less upstream_key
  by unfold_locales (auto intro!: injI simp: upstream_less_def upstream_key_def)

interpretation certificate_order: total_sort_order certificate_less certificate_key
  by unfold_locales (auto intro!: injI simp: certificate_less_def certificate_key_def)

interpretation route_order: sort_order route_less route_key
  by unfold_locales (auto simp: route_less_def route_key_def less_bool_def)

interpretation listener_order: sort_order "\<lambda>a b. li_kind a < li_kind b" li_kind
  by unfold_locales simp

interpretation layer4_order: sort_order "\<lambda>a b. l4_id a < l4_id b" l4_id
  by unfold_locales simp

text \<open>Routes and frontends up to the order of their parts.\<close>

definition route_bag :: "gateway_route \<Rightarrow> gateway_route \<times> upstream multiset" where
  "route_bag r = (r\<lparr>rt_upstreams := []\<rparr>, mset (rt_upstreams r))"

definition layer4_bag :: "layer4_route \<Rightarrow> layer4_route \<times> upstream multiset" where
  "layer4_bag r = (r\<lparr>l4_upstreams := []\<rparr>, mset (l4_upstreams r))"

definition shared_bag :: "shared_https \<Rightarrow> shared_https \<times> (layer4_route \<times> upstream multiset) multiset" where
  "shared_bag sh = (sh\<lparr>sh_routes := []\<rparr>, mset (map layer4_bag (sh_routes sh)))"

definition same_configuration :: "gateway_state \<Rightarrow> gateway_state \<Rightarrow> bool" where
  "same_configuration a b =
     (gs_revision a = gs_revision b \<and> mset (gs_listeners a) = mset (gs_listeners b) \<and>
      mset (map route_bag (gs_routes a)) = mset (map route_bag (gs_routes b)) \<and>
      map_option shared_bag (gs_shared a) = map_option shared_bag (gs_shared b))"

definition route_norm :: "gateway_route \<Rightarrow> gateway_route" where
  "route_norm r = r\<lparr>rt_upstreams := sort_slice upstream_less (rt_upstreams r)\<rparr>"

definition layer4_norm :: "layer4_route \<Rightarrow> layer4_route" where
  "layer4_norm r = r\<lparr>l4_upstreams := sort_slice upstream_less (l4_upstreams r)\<rparr>"

lemma norm_bag:
  "route_norm r = route_norm r' \<longleftrightarrow> route_bag r = route_bag r'" "layer4_norm q = layer4_norm q' \<longleftrightarrow> layer4_bag q = layer4_bag q'"
  by (cases r; cases r'; auto simp: route_norm_def route_bag_def upstream_order.sorted_normal)
    (cases q; cases q'; auto simp: layer4_norm_def layer4_bag_def upstream_order.sorted_normal)

lemma mset_map_through:
  assumes "mset (map f xs) = mset (map f ys)" "\<And>x y. f x = f y \<Longrightarrow> g x = g y"
  shows "mset (map g xs) = mset (map g ys)"
proof -
  define h where "h z = g (SOME x. f x = z)" for z
  have "h (f x) = g x" for x unfolding h_def by (rule assms(2)) (rule someI [of "\<lambda>y. f y = f x"], rule refl)
  then have through: "mset (map g zs) = image_mset h (mset (map f zs))" for zs by (simp add: image_mset.compositionality comp_def)
  show ?thesis unfolding through assms(1) ..
qed

lemma norms_permuted:
  "mset (map route_bag rs) = mset (map route_bag rs') \<Longrightarrow> mset (map route_norm rs) = mset (map route_norm rs')"
  "mset (map layer4_bag qs) = mset (map layer4_bag qs') \<Longrightarrow> mset (map layer4_norm qs) = mset (map layer4_norm qs')"
  by (erule mset_map_through, simp add: norm_bag)+

lemma bag_partner:
  assumes "mset (map f xs) = mset (map f ys)" "y \<in> set ys"
  obtains x where "x \<in> set xs" "f x = f y"
proof -
  have "f y \<in> set (map f xs)" using assms by (metis image_eqI list.set_map set_mset_mset)
  then show thesis using that by auto
qed

lemma bag_facts:
  assumes "route_bag r = route_bag r'"
  shows "rt_id r = rt_id r'" "request_of r = request_of r'" "rt_tls r = rt_tls r'" "rt_protocol r = rt_protocol r'"
    "set (rt_upstreams r) = set (rt_upstreams r')" "rt_listener r = rt_listener r'" "rt_hostname r = rt_hostname r'"
  using assms by (cases r; cases r'; auto simp: route_bag_def request_of_def dest: mset_eq_setD)+

lemma layer4_bag_facts:
  assumes "layer4_bag r = layer4_bag r'"
  shows "l4_id r = l4_id r'" "l4_hostname r = l4_hostname r'" "layer4_well r = layer4_well r'"
proof -
  have same: "r\<lparr>l4_upstreams := []\<rparr> = r'\<lparr>l4_upstreams := []\<rparr>" "set (l4_upstreams r) = set (l4_upstreams r')"
    using assms by (auto simp: layer4_bag_def dest: mset_eq_setD)
  show fields: "l4_id r = l4_id r'" "l4_hostname r = l4_hostname r'" using same(1) by (cases r; cases r'; simp)+
  have proxy: "l4_proxy r = l4_proxy r'" using same(1) by (cases r; cases r'; simp)
  have "l4_upstreams r = [] \<longleftrightarrow> l4_upstreams r' = []" "list_all upstream_ok (l4_upstreams r) \<longleftrightarrow> list_all upstream_ok (l4_upstreams r')"
    using same(2) by (metis set_empty, simp add: list_all_iff)
  then show "layer4_well r = layer4_well r'" by (simp add: layer4_well_def fields proxy)
qed

lemma route_well_bag:
  assumes "route_bag r = route_bag r'" "set (map li_kind ls) = set (map li_kind ls')"
  shows "route_well ls r = route_well ls' r'"
proof -
  note b = bag_facts [OF assms(1)]
  have "rt_path r = rt_path r'" using b(2) by (simp add: request_of_def)
  moreover have "rt_upstreams r = [] \<longleftrightarrow> rt_upstreams r' = []" "list_all upstream_ok (rt_upstreams r) \<longleftrightarrow> list_all upstream_ok (rt_upstreams r')"
    using b(5) by (metis set_empty, simp add: list_all_iff)
  ultimately show ?thesis by (simp only: route_well_def b(1,4,6,7) assms(2))
qed

lemma distinct_through:
  assumes "mset (map f xs) = mset (map f ys)" "\<And>x y. f x = f y \<Longrightarrow> g x = g y" "distinct (map g xs)"
  shows "distinct (map g ys)"
  using mset_eq_imp_distinct_iff [OF mset_map_through [OF assms(1,2)]] assms(3) by simp

lemma shared_well_bag:
  assumes "shared_bag sh = shared_bag sh'" "set ls = set ls'" "mset (map route_bag rs) = mset (map route_bag rs')" "shared_well ls rs sh"
  shows "shared_well ls' rs' sh'"
proof -
  have bags: "mset (map layer4_bag (sh_routes sh)) = mset (map layer4_bag (sh_routes sh'))" and
    same: "sh\<lparr>sh_routes := []\<rparr> = sh'\<lparr>sh_routes := []\<rparr>" using assms(1) by (auto simp: shared_bag_def)
  have fields: "sh_address sh' = sh_address sh" "sh_port sh' = sh_port sh" "sh_caddy_address sh' = sh_caddy_address sh"
      "sh_caddy_port sh' = sh_caddy_port sh" "sh_reject sh' = sh_reject sh"
    using same by (cases sh; cases sh'; simp)+
  note old = assms(4) [unfolded shared_well_def]
  have "layer4_well r" if r: "r \<in> set (sh_routes sh')" for r
    using bag_partner [OF bags r] layer4_bag_facts(3) old by metis
  moreover have "distinct (map l4_hostname (sh_routes sh'))"
    by (rule distinct_through [OF bags layer4_bag_facts(2)]) (use old in auto)
  moreover have "rt_hostname w \<noteq> l4_hostname r"
    if rw: "r \<in> set (sh_routes sh')" "w \<in> set rs'" "rt_listener w = ''public'' \<and> rt_tls w" for r w
  proof -
    obtain r0 where r0: "r0 \<in> set (sh_routes sh)" "layer4_bag r0 = layer4_bag r" by (rule bag_partner [OF bags rw(1)])
    obtain w0 where w0: "w0 \<in> set rs" "route_bag w0 = route_bag w" by (rule bag_partner [OF assms(3) rw(2)])
    have "rt_hostname w0 \<noteq> l4_hostname r0" using old r0(1) w0(1) rw(3) bag_facts(3,6) [OF w0(2)] by metis
    then show ?thesis using layer4_bag_facts(2) [OF r0(2)] bag_facts(7) [OF w0(2)] by simp
  qed
  ultimately show ?thesis using old unfolding shared_well_def fields assms(2) by blast
qed

lemma same_valid:
  assumes "same_configuration a b" "gateway_Validate a = None"
  shows "gateway_Validate b = None"
proof -
  note same = assms(1) [unfolded same_configuration_def]
  note old = assms(2) [unfolded gateway_valid]
  have ls: "set (gs_listeners a) = set (gs_listeners b)" using same by (blast dest: mset_eq_setD)
  have bags: "mset (map route_bag (gs_routes a)) = mset (map route_bag (gs_routes b))" using same by blast
  have "1 \<le> gs_revision b" using old same by simp
  moreover have "distinct (map li_kind (gs_listeners b))"
    by (rule distinct_through [of "\<lambda>l. l" "gs_listeners a"]) (use old same in auto)
  moreover have "\<forall>l \<in> set (gs_listeners b). li_kind l \<in> set listener_kinds \<and> ip4 (li_address l) \<and> port_ok (li_http l) \<and> port_ok (li_https l)"
    using old ls by blast
  moreover have "route_well (gs_listeners b) r" if r: "r \<in> set (gs_routes b)" for r
  proof -
    obtain r0 where r0: "r0 \<in> set (gs_routes a)" "route_bag r0 = route_bag r" by (rule bag_partner [OF bags r])
    have "route_well (gs_listeners a) r0" using old r0(1) by blast
    then show ?thesis using route_well_bag [OF r0(2), of "gs_listeners a" "gs_listeners b"] ls by simp
  qed
  moreover have "distinct (map rt_id (gs_routes b))" "distinct (map request_of (gs_routes b))"
    using distinct_through [where g = rt_id, OF bags bag_facts(1)] distinct_through [where g = request_of, OF bags bag_facts(2)] old by blast+
  moreover have "shared_well (gs_listeners b) (gs_routes b) sh" if sh: "gs_shared b = Some sh" for sh
  proof -
    obtain sh0 where "gs_shared a = Some sh0" "shared_bag sh0 = shared_bag sh" using same sh by auto
    then show ?thesis using shared_well_bag [OF _ ls bags] old by blast
  qed
  ultimately show ?thesis unfolding gateway_valid by blast
qed

lemma sorted_alt:
  "gateway_Sorted s = \<lparr>gs_revision = gs_revision s, gs_listeners = sort_slice (\<lambda>a b. li_kind a < li_kind b) (gs_listeners s),
     gs_routes = sort_slice route_less (map route_norm (gs_routes s)), gs_shared = map_option sorted_shared (gs_shared s)\<rparr>"
  "sorted_shared sh = sh\<lparr>sh_routes := sort_slice (\<lambda>a b. l4_id a < l4_id b) (map layer4_norm (sh_routes sh))\<rparr>"
  by (simp_all add: gateway_Sorted_def sorted_shared_def route_norm_def [abs_def] layer4_norm_def [abs_def])

lemma norm_ids: "map rt_id (map route_norm rs) = map rt_id rs" "map l4_id (map layer4_norm qs) = map l4_id qs"
  by (simp_all add: route_norm_def layer4_norm_def)

lemma shared_permuted:
  assumes "shared_bag sh = shared_bag sh'" "distinct (map l4_id (sh_routes sh))"
  shows "sorted_shared sh = sorted_shared sh'"
proof -
  have bags: "mset (map layer4_norm (sh_routes sh)) = mset (map layer4_norm (sh_routes sh'))"
    using assms(1) by (intro norms_permuted(2)) (auto simp: shared_bag_def)
  have "inj_on l4_id (set (map layer4_norm (sh_routes sh)))" using assms(2) norm_ids(2) distinct_map by metis
  from layer4_order.sorted_order [OF bags this] show ?thesis
    using assms(1) unfolding sorted_alt by (cases sh; cases sh'; simp add: shared_bag_def)
qed

lemma sorted_permuted:
  assumes "same_configuration a b" "gateway_Validate a = None" "\<forall>sh. gs_shared a = Some sh \<longrightarrow> distinct (map l4_id (sh_routes sh))"
  shows "gateway_Sorted a = gateway_Sorted b"
proof -
  note same = assms(1) [unfolded same_configuration_def]
  note valid = assms(2) [unfolded gateway_valid]
  have "inj_on li_kind (set (gs_listeners a))" using valid distinct_map by blast
  then have ls: "sort_slice (\<lambda>a b. li_kind a < li_kind b) (gs_listeners a) = sort_slice (\<lambda>a b. li_kind a < li_kind b) (gs_listeners b)"
    using same by (intro listener_order.sorted_order) blast+
  have "distinct (map rt_id (map route_norm (gs_routes a)))" unfolding norm_ids using valid by blast
  then have "inj_on rt_id (set (map route_norm (gs_routes a)))" using distinct_map by blast
  then have "inj_on route_key (set (map route_norm (gs_routes a)))" by (auto simp: inj_on_def route_key_def)
  moreover have "mset (map route_norm (gs_routes a)) = mset (map route_norm (gs_routes b))" using same norms_permuted(1) by blast
  ultimately have rs: "sort_slice route_less (map route_norm (gs_routes a)) = sort_slice route_less (map route_norm (gs_routes b))"
    by (intro route_order.sorted_order)
  have "map_option sorted_shared (gs_shared a) = map_option sorted_shared (gs_shared b)"
  proof (cases "gs_shared a")
    case (Some sh)
    then obtain sh' where "gs_shared b = Some sh'" "shared_bag sh = shared_bag sh'" using same by (cases "gs_shared b") auto
    then show ?thesis using shared_permuted [of sh sh'] assms(3) Some by simp
  qed (use same in auto)
  then show ?thesis unfolding sorted_alt ls rs using same by simp
qed

lemma sorted_same: "same_configuration a (gateway_Sorted a)"
proof -
  have up: "mset (sort_slice upstream_less us) = mset us" for us by (rule upstream_order.sorted_mset)
  have "route_bag (route_norm r) = route_bag r" "layer4_bag (layer4_norm q) = layer4_bag q" for r q
    by (simp_all add: route_bag_def route_norm_def layer4_bag_def layer4_norm_def up)
  then have bags: "map route_bag (map route_norm rs) = map route_bag rs" "map layer4_bag (map layer4_norm qs) = map layer4_bag qs" for rs qs
    by simp_all
  have "mset (map layer4_bag (sort_slice (\<lambda>a b. l4_id a < l4_id b) (map layer4_norm qs))) = mset (map layer4_bag qs)" for qs
    by (simp only: layer4_order.sorted_map_mset bags)
  then have "shared_bag (sorted_shared sh) = shared_bag sh" for sh
    by (simp add: shared_bag_def sorted_alt(2) del: mset_map map_map)
  then have "map_option shared_bag (map_option sorted_shared x) = map_option shared_bag x" for x by (cases x) simp_all
  then show ?thesis
    unfolding same_configuration_def sorted_alt
    by (simp only: gateway_state.simps route_order.sorted_map_mset listener_order.sorted_mset bags simp_thms)
qed



text \<open>
  Distinct ids of shared HTTPS routes are not checked, and without them the order of the routes shows in
  the canonical state.
\<close>

lemma layer4_ids_unchecked:
  "gateway_Validate (s_gateway [s_layer4 ''l1'' ''b.example'', s_layer4 ''l1'' ''c.example'']) = None \<and>
   gateway_Validate (s_gateway [s_layer4 ''l1'' ''c.example'', s_layer4 ''l1'' ''b.example'']) = None \<and>
   gateway_Sorted (s_gateway [s_layer4 ''l1'' ''b.example'', s_layer4 ''l1'' ''c.example'']) \<noteq>
     gateway_Sorted (s_gateway [s_layer4 ''l1'' ''c.example'', s_layer4 ''l1'' ''b.example''])"
proof (intro conjI)
  show "gateway_Validate (s_gateway [s_layer4 ''l1'' ''b.example'', s_layer4 ''l1'' ''c.example'']) = None"
    "gateway_Validate (s_gateway [s_layer4 ''l1'' ''c.example'', s_layer4 ''l1'' ''b.example'']) = None"
    by (rule s_gateway_valid; auto simp: s_layer4_def)+
  show "gateway_Sorted (s_gateway [s_layer4 ''l1'' ''b.example'', s_layer4 ''l1'' ''c.example'']) \<noteq>
     gateway_Sorted (s_gateway [s_layer4 ''l1'' ''c.example'', s_layer4 ''l1'' ''b.example''])"
    by (simp add: sorted_alt s_gateway_def s_layer4_def sort_slice_def layer4_norm_def)
qed

end
