(* ===== verification/Networking_Model.thy ===== *)
theory Networking_Model
  imports Landing_State Slices
begin

text \<open>
  The network model of a node (src/internal/networking/model.go): discovery of the addresses assigned
  to local interfaces, their classification, and the validation of the profile an administrator
  confirms. The interfaces are inputs, each with its addresses after \<^verbatim>\<open>net.ParseCIDR\<close>. The
  kernel route lookup of \<^verbatim>\<open>DefaultRouteAddress\<close> is not part of the model.
\<close>

definition KindLAN :: string where
  "KindLAN = ''lan''"

definition KindHeadscale :: string where
  "KindHeadscale = ''headscale''"

definition KindPublic :: string where
  "KindPublic = ''public''"

definition PublicModeDirect :: string where
  "PublicModeDirect = ''direct''"

definition PublicModeNAT :: string where
  "PublicModeNAT = ''nat''"

record candidate =
  ca_address :: string
  ca_interface :: string
  ca_kind :: string
  ca_observed :: gotime

record network_profile =
  pr_service :: string
  pr_lan :: string
  pr_headscale :: string
  pr_public :: string
  pr_bind :: string
  pr_mode :: string
  pr_kinds :: "string list"
  pr_direct :: bool
  pr_verified :: gotime
  pr_confirmed :: gotime
  pr_observed :: gotime

text \<open>An interface; \<open>None\<close> for its addresses when they cannot be read, and for an address that does not parse.\<close>

record net_interface =
  ni_name :: string
  ni_up :: bool
  ni_loopback :: bool
  ni_addresses :: "net_ip option list option"

section \<open>Classes of addresses\<close>

definition inCGNAT :: "net_ip \<Rightarrow> bool" where
  "inCGNAT w = (case to4 w of Some v \<Rightarrow> v4_byte 0 v = 100 \<and> v4_byte 1 v AND 0xC0 = 0x40 | None \<Rightarrow> False)"

definition virtual_prefixes :: "string list" where
  "virtual_prefixes =
     [''docker'', ''br-'', ''veth'', ''cni'', ''flannel'', ''cali'', ''kube-ipvs'', ''podman'', ''lxcbr'', ''virbr'', ''wg'', ''tun'', ''tap'',
      ''utun'', ''zt'', ''nebula'']"

definition IsVirtualInterface :: "string \<Rightarrow> bool" where
  "IsVirtualInterface interfaceName =
     (let name = to_lower (trim_space interfaceName) in name = [] \<or> list_ex (has_prefix name) virtual_prefixes)"

definition Classify :: "string \<Rightarrow> net_ip \<Rightarrow> string" where
  "Classify interfaceName ip =
     (if \<not> ip_global_unicast ip then []
      else let name = to_lower (trim_space interfaceName) in
        if to4 ip = None
        then (if ip_byte 0 ip AND 0xE0 \<noteq> 0x20 \<or> ip_private ip \<or> contains_str name ''tailscale'' \<or> IsVirtualInterface name then []
              else KindPublic)
        else if contains_str name ''tailscale'' then KindHeadscale
        else if IsVirtualInterface name then []
        else if ip_private ip \<or> inCGNAT ip then KindLAN
        else KindPublic)"

definition IsPrivateServiceAddress :: "string \<Rightarrow> bool" where
  "IsPrivateServiceAddress value =
     (case parse_ip (trim_space value) of
        None \<Rightarrow> False
      | Some ip \<Rightarrow>
          if to4 ip = None \<or> ip_unspecified ip \<or> ip_multicast ip \<or> ip_link_local ip then False
          else ip_loopback ip \<or> ip_private ip \<or> inCGNAT ip)"

section \<open>Discovery\<close>

definition address_candidate :: "string \<Rightarrow> gotime \<Rightarrow> net_ip option \<Rightarrow> candidate list" where
  "address_candidate name now address =
     (case address of
        None \<Rightarrow> []
      | Some ip \<Rightarrow>
          if ip_loopback ip \<or> ip_link_local ip \<or> ip_multicast ip \<or> ip_unspecified ip \<or> Classify name ip = [] then []
          else [\<lparr>ca_address = ip_string ip, ca_interface = name, ca_kind = Classify name ip, ca_observed = now\<rparr>])"

definition interface_candidates :: "gotime \<Rightarrow> net_interface \<Rightarrow> candidate list" where
  "interface_candidates now i =
     (if \<not> ni_up i \<or> ni_loopback i then []
      else case ni_addresses i of None \<Rightarrow> [] | Some addresses \<Rightarrow> concat (map (address_candidate (ni_name i) now) addresses))"

definition candidate_less :: "candidate \<Rightarrow> candidate \<Rightarrow> bool" where
  "candidate_less a b =
     (if ca_kind a \<noteq> ca_kind b then ca_kind a < ca_kind b
      else if ca_interface a \<noteq> ca_interface b then ca_interface a < ca_interface b
      else ca_address a < ca_address b)"

definition Discover :: "net_interface list \<Rightarrow> gotime \<Rightarrow> candidate list" where
  "Discover interfaces now = sort_slice candidate_less (concat (map (interface_candidates now) interfaces))"

section \<open>Profiles\<close>

text \<open>The candidates by address: the last one of an address.\<close>

definition by_address :: "candidate list \<Rightarrow> string \<Rightarrow> candidate option" where
  "by_address candidates = map_of (rev (map (\<lambda>c. (ca_address c, c)) candidates))"

definition validateSelectedAddress :: "candidate list \<Rightarrow> string \<Rightarrow> string \<Rightarrow> bool \<Rightarrow> string option" where
  "validateSelectedAddress candidates value kind enabled =
     (if \<not> enabled
      then (if value \<noteq> [] then Some ''network: disabled network kind cannot have a selected address'' else None)
      else case parse_ip value of
        None \<Rightarrow> Some ''network: enabled network kind requires a matching discovered address''
      | Some ip \<Rightarrow>
          (case by_address candidates (ip_string ip) of
             None \<Rightarrow> Some ''network: enabled network kind requires a matching discovered address''
           | Some c \<Rightarrow> if ca_kind c \<noteq> kind then Some ''network: enabled network kind requires a matching discovered address'' else None))"

definition public_error :: "candidate list \<Rightarrow> network_profile \<Rightarrow> string option" where
  "public_error candidates p =
     (if KindPublic \<notin> set (pr_kinds p) then Some ''network: direct public ingress requires the public network''
      else case parse_ip (trim_space (pr_public p)) of
        None \<Rightarrow> Some ''network: direct public ingress requires a valid public IP address''
      | Some publicIP \<Rightarrow>
          if Classify ''external'' publicIP \<noteq> KindPublic then Some ''network: direct public ingress requires a valid public IP address''
          else case parse_ip (trim_space (pr_bind p)) of
            None \<Rightarrow> Some ''network: direct public ingress requires a local receiving address''
          | Some bindIP \<Rightarrow>
              (case by_address candidates (ip_string bindIP) of
                 None \<Rightarrow> Some ''network: public receiving address must be assigned to this node''
               | Some c \<Rightarrow>
                   if ca_kind c \<noteq> KindLAN \<and> ca_kind c \<noteq> KindPublic then Some ''network: public receiving address must be assigned to this node''
                   else if pr_mode p = PublicModeDirect
                   then (if ca_kind c \<noteq> KindPublic \<or> ip_string bindIP \<noteq> ip_string publicIP
                         then Some ''network: direct public address must be assigned to this node'' else None)
                   else if pr_mode p = PublicModeNAT
                   then (if pr_verified p = zero_time then Some ''network: NAT public ingress requires external verification'' else None)
                   else Some ''network: direct public ingress mode is invalid''))"

definition ValidateProfile :: "candidate list \<Rightarrow> network_profile \<Rightarrow> string option" where
  "ValidateProfile candidates p =
     (case parse_ip (trim_space (pr_service p)) of
        None \<Rightarrow> Some ''network: a valid private service address is required''
      | Some serviceIP \<Rightarrow>
          let selected = by_address candidates (ip_string serviceIP);
              kind = (case selected of Some c \<Rightarrow> ca_kind c | None \<Rightarrow> [])
          in if \<not> ip_loopback serviceIP \<and> (selected = None \<or> kind = KindPublic)
             then Some ''network: service address must be loopback or a discovered LAN or Headscale address''
             else if \<not> list_all (\<lambda>k. k = KindLAN \<or> k = KindHeadscale \<or> k = KindPublic) (pr_kinds p)
             then Some ''network: invalid enabled network kind''
             else if \<not> ip_loopback serviceIP \<and> kind \<notin> set (pr_kinds p) then Some ''network: service address network must be enabled''
             else case validateSelectedAddress candidates (trim_space (pr_lan p)) KindLAN (KindLAN \<in> set (pr_kinds p)) of
               Some err \<Rightarrow> Some err
             | None \<Rightarrow>
                 (case validateSelectedAddress candidates (trim_space (pr_headscale p)) KindHeadscale (KindHeadscale \<in> set (pr_kinds p)) of
                    Some err \<Rightarrow> Some err
                  | None \<Rightarrow>
                      if pr_direct p then public_error candidates p
                      else if trim_space (pr_public p) \<noteq> [] \<or> trim_space (pr_bind p) \<noteq> [] \<or> trim_space (pr_mode p) \<noteq> [] \<or>
                          pr_verified p \<noteq> zero_time
                      then Some ''network: public ingress metadata requires direct public ingress''
                      else None))"

end
