(* ===== verification/Networking_Laws.thy ===== *)
theory Networking_Laws
  imports Networking_Model
begin

text \<open>
  A profile that is accepted against the discovered addresses is grounded in the machine: what it
  names is assigned to it and of the class it is used for.
\<close>

text \<open>An address of an interface that is up and no loopback, with its class.\<close>

definition assigned :: "net_interface list \<Rightarrow> net_ip \<Rightarrow> string \<Rightarrow> bool" where
  "assigned interfaces w kind =
     (\<exists>i \<in> set interfaces. ni_up i \<and> \<not> ni_loopback i \<and> Classify (ni_name i) w = kind \<and>
        (\<exists>addresses. ni_addresses i = Some addresses \<and> Some w \<in> set addresses))"

definition candidate_key :: "candidate \<Rightarrow> string \<times> string \<times> string" where
  "candidate_key c = (ca_kind c, ca_interface c, ca_address c)"

interpretation candidate_order: sort_order candidate_less candidate_key
  by unfold_locales (auto simp: candidate_less_def candidate_key_def)

lemma Discover_set: "set (Discover interfaces now) = (\<Union>i \<in> set interfaces. set (interface_candidates now i))"
proof -
  have "mset (Discover interfaces now) = mset (concat (map (interface_candidates now) interfaces))"
    unfolding Discover_def by (rule candidate_order.sorted_mset)
  from mset_eq_setD [OF this] show ?thesis by simp
qed

lemma kinds_differ [simp]: "KindLAN \<noteq> KindHeadscale" "KindLAN \<noteq> KindPublic" "KindHeadscale \<noteq> KindPublic" "KindLAN \<noteq> []" "KindHeadscale \<noteq> []"
    "KindPublic \<noteq> []" "KindHeadscale \<noteq> KindLAN" "KindPublic \<noteq> KindLAN" "KindPublic \<noteq> KindHeadscale"
    "[] \<noteq> KindLAN" "[] \<noteq> KindHeadscale" "[] \<noteq> KindPublic"
  by (simp_all add: KindLAN_def KindHeadscale_def KindPublic_def)

lemma Classify_class:
  "Classify name w = KindLAN \<Longrightarrow> to4 w \<noteq> None \<and> (ip_private w \<or> inCGNAT w)"
  "Classify name w = KindHeadscale \<Longrightarrow> to4 w \<noteq> None \<and> contains_str (to_lower (trim_space name)) ''tailscale''"
  "Classify name w = KindPublic \<Longrightarrow> ip_global_unicast w \<and> \<not> ip_private w \<and> \<not> inCGNAT w"
  by (auto simp: Classify_def Let_def inCGNAT_def split: if_splits option.splits)

lemma discovered:
  assumes "by_address (Discover interfaces now) a = Some c"
  obtains w where "ip_string w = a" "assigned interfaces w (ca_kind c)" "ca_kind c \<in> {KindLAN, KindHeadscale, KindPublic}"
proof -
  have "(a, c) \<in> set (rev (map (\<lambda>c. (ca_address c, c)) (Discover interfaces now)))"
    using assms unfolding by_address_def by (rule map_of_SomeD)
  then have c: "c \<in> set (Discover interfaces now)" "ca_address c = a" by auto
  then obtain i where i: "i \<in> set interfaces" "c \<in> set (interface_candidates now i)" unfolding Discover_set by blast
  then obtain addresses address where up: "ni_up i" "\<not> ni_loopback i" "ni_addresses i = Some addresses" "address \<in> set addresses"
      "c \<in> set (address_candidate (ni_name i) now address)"
    by (cases "ni_addresses i") (auto simp: interface_candidates_def split: if_splits)
  then obtain w where w: "address = Some w" "Classify (ni_name i) w \<noteq> []" "ca_address c = ip_string w" "ca_kind c = Classify (ni_name i) w"
    by (auto simp: address_candidate_def split: if_splits option.splits)
  have "assigned interfaces w (ca_kind c)" using i(1) up w by (auto simp: assigned_def)
  moreover have "Classify (ni_name i) w \<in> {[], KindLAN, KindHeadscale, KindPublic}" by (simp add: Classify_def Let_def)
  then have "ca_kind c \<in> {KindLAN, KindHeadscale, KindPublic}" using w by auto
  ultimately show thesis using that [of w] w(3) c(2) by simp
qed

lemma assigned_class:
  "assigned interfaces w KindLAN \<Longrightarrow> to4 w \<noteq> None \<and> (ip_private w \<or> inCGNAT w)"
  "assigned interfaces w KindHeadscale \<Longrightarrow> to4 w \<noteq> None"
  using Classify_class by (auto simp: assigned_def)

text \<open>What an accepted profile must have passed.\<close>

lemma ValidateProfile_None:
  assumes "ValidateProfile candidates p = None"
  obtains ip where "parse_ip (trim_space (pr_service p)) = Some ip"
    "ip_loopback ip \<or> (\<exists>c. by_address candidates (ip_string ip) = Some c \<and> ca_kind c \<noteq> KindPublic \<and> ca_kind c \<in> set (pr_kinds p))"
    "pr_direct p \<Longrightarrow> public_error candidates p = None"
    "\<not> pr_direct p \<Longrightarrow> trim_space (pr_public p) = [] \<and> trim_space (pr_bind p) = [] \<and> trim_space (pr_mode p) = [] \<and> pr_verified p = zero_time"
proof -
  obtain ip where ip: "parse_ip (trim_space (pr_service p)) = Some ip"
    using assms by (cases "parse_ip (trim_space (pr_service p))") (simp_all add: ValidateProfile_def)
  note run = assms [unfolded ValidateProfile_def ip option.case Let_def guard_None then_None]
  show thesis
  proof (rule that [OF ip])
    show "ip_loopback ip \<or> (\<exists>c. by_address candidates (ip_string ip) = Some c \<and> ca_kind c \<noteq> KindPublic \<and> ca_kind c \<in> set (pr_kinds p))"
      using run by (cases "by_address candidates (ip_string ip)") auto
    show "public_error candidates p = None" if "pr_direct p"
      using run that by simp
    show "trim_space (pr_public p) = [] \<and> trim_space (pr_bind p) = [] \<and> trim_space (pr_mode p) = [] \<and> pr_verified p = zero_time" if "\<not> pr_direct p"
      using run that by (simp add: guard_None)
  qed
qed

lemma public_error_None:
  assumes "public_error candidates p = None"
  obtains ext bind c where "parse_ip (trim_space (pr_public p)) = Some ext" "Classify ''external'' ext = KindPublic"
    "parse_ip (trim_space (pr_bind p)) = Some bind" "by_address candidates (ip_string bind) = Some c" "ca_kind c \<in> {KindLAN, KindPublic}"
    "pr_mode p = PublicModeDirect \<and> ca_kind c = KindPublic \<and> ip_string bind = ip_string ext \<or>
       pr_mode p = PublicModeNAT \<and> pr_verified p \<noteq> zero_time"
  using assms unfolding public_error_def
  by (cases "parse_ip (trim_space (pr_public p))"; cases "parse_ip (trim_space (pr_bind p))";
      cases "by_address candidates (ip_string (the (parse_ip (trim_space (pr_bind p)))))") (simp_all add: guard_None split: if_splits)


text \<open>A node with one LAN address.\<close>

definition s_interfaces :: "net_interface list" where
  "s_interfaces = [\<lparr>ni_name = ''eth0'', ni_up = True, ni_loopback = False, ni_addresses = Some [Some (as16 (V4 0xC0A80105))]\<rparr>]"

definition s_profile :: network_profile where
  "s_profile = \<lparr>pr_service = ''192.168.1.5'', pr_lan = ''192.168.1.5'', pr_headscale = [], pr_public = [], pr_bind = [], pr_mode = [],
     pr_kinds = [KindLAN], pr_direct = False, pr_verified = zero_time, pr_confirmed = 0, pr_observed = 0\<rparr>"


end
