(* ===== verification/Spec2Isabelle.thy ===== *)
theory Spec2Isabelle
  imports Execution_Properties Execution_Decisions Execution_Recovery Execution_Lock Landing_Properties Landing_Safety
    Landing_Block_Laws Landing_Readiness Gateway_Laws Networking_Laws
begin

text \<open>
  Vastora is a control plane: one Center process keeps the desired state of every node in SQLite and
  hands tasks to the Agents that run on the nodes. The part that must not go wrong is the execution
  fence: a task that changes a machine is authorized at most once, by one process of one Agent, and
  whatever the Center cannot prove about it stays visible and blocks further work until an
  administrator decides. What the tasks carry is desired state: landing routes (the exits and client
  grants of the managed proxy), gateway and listener configurations, and network profiles. Both sides
  validate these documents with the same packages under src/internal.

  \<^bold>\<open>Foundations.\<close>
  \<^item> \<open>Prelude\<close>: Go strings, decimal numbers, SQL tables as lists of rows, chains of guards.
  \<^item> \<open>Stamps\<close>: instants in nanoseconds and the RFC3339Nano texts the Center stores and compares in SQL.
  \<^item> \<open>Addresses\<close>: \<^verbatim>\<open>netip.Addr\<close> and \<^verbatim>\<open>net.IP\<close>; parsing, printing and classes of addresses.
  \<^item> \<open>Json\<close>, \<open>Json_Laws\<close>: \<^verbatim>\<open>json.Decoder\<close> with \<^verbatim>\<open>UseNumber\<close> and \<^verbatim>\<open>json.Marshal\<close>, with their round trip.
  \<^item> \<open>Regexps\<close>: the host name patterns, matched by derivatives, and the language they decide.
  \<^item> \<open>Slices\<close>: \<^verbatim>\<open>sort.Slice\<close>, with the locales \<open>sort_order\<close> and \<open>total_sort_order\<close> for comparison functions
    given by a key; every comparison of the gateway and network models interprets one of them.

  \<^bold>\<open>The execution fence\<close> (src/internal/center).
  \<^item> \<open>Execution_Model\<close>: the tables of execution.go as the record \<open>center\<close>, the environment \<open>env\<close> of one call,
    the audit triggers, and the locale \<open>execution_writer\<close>: the contract of every statement that updates
    \<^verbatim>\<open>task_executions\<close>. All statements of the following theories interpret it; \<open>safe_step\<close> and
    \<open>center_inv\<close> are what the contract gives.
  \<^item> \<open>Execution_Lifecycle\<close>, \<open>Execution_Sessions\<close>, \<open>Execution_Claim\<close>: the calls of an Agent process
    (\<^verbatim>\<open>StartExecution\<close>, \<^verbatim>\<open>CheckExecutionStep\<close>, \<^verbatim>\<open>RenewExecution\<close>, \<^verbatim>\<open>StopExecution\<close>, \<^verbatim>\<open>StoreExecutionResult\<close>,
    \<^verbatim>\<open>finalizeExecution\<close>, \<^verbatim>\<open>RegisterExecutionSession\<close>, \<^verbatim>\<open>claimExecutionTask\<close>), one function for each.
  \<^item> \<open>Task_Tables\<close>, \<open>Task_Leases\<close>: task identifiers, the statements on the business tables, and lease expiry
    (tasks.go, execution_disposition.go, execution_confirmation.go and the files of the kinds).
  \<^item> \<open>Execution_Resolution\<close>, \<open>Execution_Helpers\<close>: dispositions, projections, legacy receipts, and the helpers
    for updates, decommissioning, Tailscale and reinstallation.
  \<^item> \<open>Execution_System\<close>: the Center as the step relation \<open>center_step\<close> over all these calls, in any order, and
    its runs. A step is one transaction.
  \<^item> \<open>Execution_Lock\<close>: the abstract contract, a lock with one-use tickets per Agent, and the refinement.
  \<^item> \<open>Execution_Properties\<close>, \<open>Execution_Guarantees\<close>, \<open>Execution_Decisions\<close>, \<open>Execution_Recovery\<close>: safety along
    every run (one live execution, one start per offer, immutable outcomes, complete audit trail), what
    each call refuses and grants, which evidence and which administrator resolve an execution, and
    recovery. \<open>Execution_Samples\<close> is the concrete Center of the witnesses.

  \<^bold>\<open>Landing\<close> (src/internal/landing).
  \<^item> \<open>Landing_Model\<close>, \<open>Landing_Properties\<close>: exits, grants, merging of sources and access rules, and the traffic
    ledger, exact at \<^verbatim>\<open>int64\<close> (address.go, egress_addresses.go, server.go, grants.go, policy.go, quota.go).
  \<^item> \<open>Landing_State\<close>, \<open>Landing_Safety\<close>: the startup monitor around the firewall fence and the validation of a
    desired state (monitor.go, state.go).
  \<^item> \<open>Landing_Routes\<close> with \<open>Landing_Route_Laws\<close>, \<open>Landing_Grant_Laws\<close>, \<open>Landing_Block_Laws\<close> and
    \<open>Landing_Checkpoint\<close>: the Xray settings as JSON documents (routes.go, grant_routes.go, state.go). The laws
    are about the first rule that applies to a connection: forced and fixed connections reach their exit
    or nothing, blocked users are denied, a write happens only over owned settings, and a change can
    be undone to the original.
  \<^item> \<open>Landing_Readiness\<close>: the bounded wait before a first enable (readiness.go).

  \<^bold>\<open>Gateway and network\<close> (src/internal/gateway/model.go, src/internal/networking/model.go).
  \<^item> \<open>Gateway_Model\<close>, \<open>Gateway_Laws\<close>: validation, canonical order and hash of a gateway state; a valid state is
    unambiguous and its hash does not depend on the order of its parts.
  \<^item> \<open>Networking_Model\<close>, \<open>Networking_Laws\<close>: discovery and profiles; an accepted profile is grounded in the machine.

  \<^bold>\<open>Bounds.\<close> The JSON reader recurses with fuel one above the length of its input, which \<open>Json_Laws\<close> shows is never
  used up, and refuses nesting deeper than 10000 as Go does. The readiness wait counts its attempts down
  from three, so it is a structural recursion. All other functions are total without fuel.

  \<^bold>\<open>Parameters.\<close> SHA-256, AES-GCM sealing, semantic versions, the JSON codecs of tasks and evidence, the redaction of
  error texts, the clock and random tokens are fields of \<open>env\<close> or arguments, with what a property needs
  of them as hypotheses. So are the text of a number after \<^verbatim>\<open>float64\<close>, the contents of certificates, the results of
  link and business probes, and the candidate task a claimer offers.

  \<^bold>\<open>Not modelled.\<close> Failures of the database driver itself; the cascade when an Agent row is deleted; the random ids of audit
  events; the variable part of formatted error texts; \<^verbatim>\<open>strings.ToLower\<close> outside ASCII; the order in which
  \<^verbatim>\<open>sort.Slice\<close> leaves equal elements of long slices; the printers of the Dante configuration and of the
  Headscale policy text; kernel route lookup and public egress helpers. The Agent process, host helpers,
  the deployer, the runtimes around Docker, Caddy, Xray, nftables and Tailscale and the calls to Cloudflare and
  Headscale are input and output around the modelled decisions; generated protocol code, the web
  interface, migrations, scripts and the business handlers of single task kinds are left out.
\<close>

end
